(* ===== verification/Prelude.thy ===== *)
theory Prelude
  imports Main "HOL-Library.Sublist"
begin

text \<open>
  What every component of the model shares: Go's \<open>error\<close> values and results, the theorem
  collections, and generic facts about lists that stand for SQL tables, slices and queues.
  A Go function that returns \<open>(T, error)\<close> returns here a value of type \<open>'a res\<close>, with
  \<open>Inl\<close> for the error. \<open>fmt.Errorf("msg: %w", err)\<close> is \<open>Wrap ''msg'' err\<close>; a panic that
  leaves the function is the error value \<open>Panic\<close>.
\<close>

section \<open>Errors and results\<close>

datatype gerr =
    Err string
  | Wrap string gerr
  | Panic string

type_synonym 'a res = "gerr + 'a"

text \<open>\<open>err.Error()\<close>: the text a handler sends back.\<close>

fun err_text :: "gerr \<Rightarrow> string" where
  "err_text (Err m) = m"
| "err_text (Wrap m e) = m @ '': '' @ err_text e"
| "err_text (Panic m) = m"

fun is_panic :: "gerr \<Rightarrow> bool" where
  "is_panic (Panic m) = True"
| "is_panic (Wrap m e) = is_panic e"
| "is_panic (Err m) = False"

text \<open>Apply a function to the value of a result, or wrap its error with a prefix.\<close>

definition wrap_err :: "string \<Rightarrow> 'a res \<Rightarrow> 'a res" where
  "wrap_err m r = (case r of Inl e \<Rightarrow> Inl (Wrap m e) | Inr x \<Rightarrow> Inr x)"

lemma wrap_err_simps [simp]:
  "wrap_err m (Inl e) = Inl (Wrap m e)"
  "wrap_err m (Inr x) = Inr x"
  by (simp_all add: wrap_err_def)

lemma wrap_err_Inr_iff [simp]: "wrap_err m r = Inr x \<longleftrightarrow> r = Inr x"
  by (cases r) (auto simp: wrap_err_def)

lemma wrap_err_eq_Inl_iff: "wrap_err m r = Inl e \<longleftrightarrow> (\<exists>e'. r = Inl e' \<and> e = Wrap m e')"
  by (cases r) (auto simp: wrap_err_def)

section \<open>Theorem collections\<close>

named_theorems inv_rules \<open>preservation of the component invariants, one rule per operation\<close>

section \<open>Lists as tables\<close>

text \<open>\<open>UPDATE ... SET f WHERE p\<close> and \<open>DELETE ... WHERE p\<close> on a list of rows.\<close>

definition update_where :: "('r \<Rightarrow> bool) \<Rightarrow> ('r \<Rightarrow> 'r) \<Rightarrow> 'r list \<Rightarrow> 'r list" where
  "update_where p f rs = map (\<lambda>r. if p r then f r else r) rs"

definition delete_where :: "('r \<Rightarrow> bool) \<Rightarrow> 'r list \<Rightarrow> 'r list" where
  "delete_where p rs = filter (\<lambda>r. \<not> p r) rs"

lemma length_update_where [simp]: "length (update_where p f rs) = length rs"
  by (simp add: update_where_def)

lemma map_update_where:
  assumes "\<And>r. r \<in> set rs \<Longrightarrow> p r \<Longrightarrow> g (f r) = g r"
  shows "map g (update_where p f rs) = map g rs"
  using assms by (induction rs) (auto simp: update_where_def)

lemma set_update_where:
  "set (update_where p f rs) = f ` {r \<in> set rs. p r} \<union> {r \<in> set rs. \<not> p r}"
  by (auto simp: update_where_def)

lemma update_where_none: "\<forall>r\<in>set rs. \<not> p r \<Longrightarrow> update_where p f rs = rs"
  by (auto simp: update_where_def intro: map_idI)

lemma set_delete_where [simp]: "set (delete_where p rs) = {r \<in> set rs. \<not> p r}"
  by (auto simp: delete_where_def)

lemma delete_where_sorted:
  "sorted_wrt R (map g rs) \<Longrightarrow> sorted_wrt R (map g (delete_where p rs))"
  by (induction rs) (auto simp: delete_where_def)

lemma find_delete_where:
  assumes "\<And>r. r \<in> set rs \<Longrightarrow> q r \<Longrightarrow> \<not> p r"
  shows "find q (delete_where p rs) = find q rs"
  using assms by (induction rs) (auto simp: delete_where_def)

lemma find_delete_where_same [simp]: "find p (delete_where p rs) = None"
  by (auto simp: find_None_iff)

text \<open>Looking a row up by a key that is unique in the table.\<close>

lemma find_unique_key:
  assumes "distinct (map key rs)" and "r \<in> set rs"
  shows "find (\<lambda>x. key x = key r) rs = Some r"
  using assms
proof (induction rs)
  case (Cons a rs)
  show ?case
  proof (cases "key a = key r")
    case True
    with Cons.prems have "a = r" by (auto simp: image_iff)
    then show ?thesis by simp
  next
    case False
    with Cons show ?thesis by auto
  qed
qed simp

lemma find_update_where:
  assumes "\<And>r. q (f r) = q r"
  shows "find q (update_where p f rs) = map_option (\<lambda>r. if p r then f r else r) (find q rs)"
  using assms by (induction rs) (auto simp: update_where_def)

lemma find_Some_set: "find p xs = Some x \<Longrightarrow> x \<in> set xs \<and> p x"
  by (auto simp: find_Some_iff)

lemma find_append:
  "find p (xs @ ys) = (case find p xs of None \<Rightarrow> find p ys | Some x \<Rightarrow> Some x)"
  by (induction xs) auto

lemma length_filter_mono:
  "(\<And>x. x \<in> set xs \<Longrightarrow> P x \<Longrightarrow> Q x) \<Longrightarrow> length (filter P xs) \<le> length (filter Q xs)"
  by (induction xs) auto

lemma sorted_wrt_less_distinct: "sorted_wrt (<) (xs :: int list) \<Longrightarrow> distinct xs"
  by (induction xs) auto

end
