(* ===== verification/GoStrings.thy ===== *)
theory GoStrings
  imports Prelude
begin

text \<open>
  What the program uses of Go's \<open>strings\<close>, \<open>strconv\<close> and \<open>fmt\<close> scanning. A Go string is a
  sequence of bytes and so is a \<open>string\<close> here: one \<open>char\<close> is one byte, \<open>length\<close> is \<open>len\<close>.
  \<open>TrimSpace\<close> and \<open>Fields\<close> are exact for every input: the white space of Unicode is listed as
  the UTF-8 encodings of its runes, none of which can begin inside another rune.
  \<open>ToUpper\<close> and \<open>ToLower\<close> are exact on every rune whose image is ASCII (all ASCII letters, and
  the runes U+0131 and U+017F, respectively U+0130 and U+212A, that fold into ASCII). Go maps
  the other letters outside ASCII to letters outside ASCII; here they stay as they are. No
  comparison with an ASCII keyword can tell the difference, and the program makes no other.
\<close>

section \<open>White space\<close>

definition ascii_spaces :: "char list" where
  "ascii_spaces = [CHR 0x09, CHR 0x0A, CHR 0x0B, CHR 0x0C, CHR 0x0D, CHR 0x20]"

text \<open>U+0085, U+00A0, U+1680, U+2000 to U+200A, U+2028, U+2029, U+202F, U+205F, U+3000.\<close>

definition wide_spaces :: "string list" where
  "wide_spaces =
     [[CHR 0xC2, CHR 0x85], [CHR 0xC2, CHR 0xA0], [CHR 0xE1, CHR 0x9A, CHR 0x80],
      [CHR 0xE2, CHR 0x80, CHR 0x80], [CHR 0xE2, CHR 0x80, CHR 0x81],
      [CHR 0xE2, CHR 0x80, CHR 0x82], [CHR 0xE2, CHR 0x80, CHR 0x83],
      [CHR 0xE2, CHR 0x80, CHR 0x84], [CHR 0xE2, CHR 0x80, CHR 0x85],
      [CHR 0xE2, CHR 0x80, CHR 0x86], [CHR 0xE2, CHR 0x80, CHR 0x87],
      [CHR 0xE2, CHR 0x80, CHR 0x88], [CHR 0xE2, CHR 0x80, CHR 0x89],
      [CHR 0xE2, CHR 0x80, CHR 0x8A], [CHR 0xE2, CHR 0x80, CHR 0xA8],
      [CHR 0xE2, CHR 0x80, CHR 0xA9], [CHR 0xE2, CHR 0x80, CHR 0xAF],
      [CHR 0xE2, CHR 0x81, CHR 0x9F], [CHR 0xE3, CHR 0x80, CHR 0x80]]"

definition space_runes :: "string list" where
  "space_runes = map (\<lambda>c. [c]) ascii_spaces @ wide_spaces"

text \<open>The first of the given runes that the string starts with.\<close>

definition lead_rune :: "string list \<Rightarrow> string \<Rightarrow> string option" where
  "lead_rune ps s = find (\<lambda>p. p \<noteq> [] \<and> prefix p s) ps"

lemma lead_rune_Some:
  "lead_rune ps s = Some p \<Longrightarrow> p \<in> set ps \<and> p \<noteq> [] \<and> prefix p s"
  unfolding lead_rune_def by (auto dest: find_Some_set)

lemma lead_rune_None_iff:
  "lead_rune ps s = None \<longleftrightarrow> (\<forall>p\<in>set ps. p \<noteq> [] \<longrightarrow> \<not> prefix p s)"
  by (auto simp: lead_rune_def find_None_iff)

lemma lead_rune_shorter:
  assumes "lead_rune ps s = Some p"
  shows "length (drop (length p) s) < length s"
proof -
  have "p \<noteq> []" and "prefix p s"
    using lead_rune_Some [OF assms] by auto
  then show ?thesis
    using prefix_length_le [of p s] by (cases p; cases s) auto
qed

function strip_runes :: "string list \<Rightarrow> string \<Rightarrow> string" where
  "strip_runes ps s =
     (case lead_rune ps s of
        None \<Rightarrow> s
      | Some p \<Rightarrow> strip_runes ps (drop (length p) s))"
  by pat_completeness auto
termination
  by (relation "measure (\<lambda>(ps, s). length s)") (auto dest: lead_rune_shorter simp del: length_drop)

declare strip_runes.simps [simp del]

lemma strip_runes_suffix: "suffix (strip_runes ps s) s"
proof (induction ps s rule: strip_runes.induct)
  case (1 ps s)
  show ?case
  proof (cases "lead_rune ps s")
    case None
    then show ?thesis by (simp add: strip_runes.simps)
  next
    case (Some p)
    with "1.IH" have "suffix (strip_runes ps (drop (length p) s)) (drop (length p) s)"
      by simp
    then have "suffix (strip_runes ps (drop (length p) s)) s"
      by (meson suffix_drop suffix_order.trans)
    with Some show ?thesis by (simp add: strip_runes.simps [of ps s])
  qed
qed

lemma strip_runes_no_lead: "lead_rune ps (strip_runes ps s) = None"
proof (induction ps s rule: strip_runes.induct)
  case (1 ps s)
  then show ?case
    by (cases "lead_rune ps s") (simp_all add: strip_runes.simps [of ps s])
qed

lemma strip_runes_id: "lead_rune ps s = None \<Longrightarrow> strip_runes ps s = s"
  by (simp add: strip_runes.simps)

lemma lead_rune_prefix_None:
  assumes "lead_rune ps s = None" and "prefix t s"
  shows "lead_rune ps t = None"
  using assms by (auto simp: lead_rune_None_iff dest: prefix_order.trans)

text \<open>\<open>strings.TrimSpace\<close>\<close>

definition trim_left :: "string \<Rightarrow> string" where
  "trim_left s = strip_runes space_runes s"

definition trim_right :: "string \<Rightarrow> string" where
  "trim_right s = rev (strip_runes (map rev space_runes) (rev s))"

definition trim_space :: "string \<Rightarrow> string" where
  "trim_space s = trim_right (trim_left s)"

lemma trim_right_prefix: "prefix (trim_right s) s"
  using strip_runes_suffix [of "map rev space_runes" "rev s"]
  by (simp add: trim_right_def suffix_to_prefix)

lemma trim_left_trim_right_left: "trim_left (trim_right (trim_left s)) = trim_right (trim_left s)"
proof -
  have "lead_rune space_runes (trim_left s) = None"
    by (simp add: trim_left_def strip_runes_no_lead)
  then have "lead_rune space_runes (trim_right (trim_left s)) = None"
    using trim_right_prefix by (rule lead_rune_prefix_None)
  then show ?thesis
    by (simp add: trim_left_def strip_runes_id)
qed

lemma trim_right_idem: "trim_right (trim_right s) = trim_right s"
  by (simp add: trim_right_def strip_runes_id strip_runes_no_lead)

lemma trim_space_idem [simp]: "trim_space (trim_space s) = trim_space s"
  by (simp add: trim_space_def trim_left_trim_right_left trim_right_idem)

lemma strip_runes_Nil [simp]: "strip_runes ps [] = []"
  by (rule strip_runes_id) (simp add: lead_rune_None_iff)

lemma trim_space_Nil [simp]: "trim_space [] = []"
  by (simp add: trim_space_def trim_left_def trim_right_def)

lemma trim_space_sublist: "sublist (trim_space s) s"
proof -
  have "sublist (trim_space s) (trim_left s)"
    unfolding trim_space_def using trim_right_prefix by (rule prefix_imp_sublist)
  moreover have "sublist (trim_left s) s"
    unfolding trim_left_def using strip_runes_suffix by (rule suffix_imp_sublist)
  ultimately show ?thesis by (rule sublist_order.order.trans)
qed

text \<open>A string that starts with none of these bytes starts with no white space.\<close>

definition space_leads :: "char list" where
  "space_leads = ascii_spaces @ [CHR 0xC2, CHR 0xE1, CHR 0xE2, CHR 0xE3]"

lemma lead_rune_plain:
  "c \<notin> set space_leads \<Longrightarrow> lead_rune space_runes (c # s) = None"
  by (auto simp: lead_rune_None_iff space_runes_def wide_spaces_def space_leads_def)

lemma strip_runes_plain:
  "c \<notin> set space_leads \<Longrightarrow> strip_runes space_runes (c # s) = c # s"
  by (simp add: strip_runes_id lead_rune_plain)

section \<open>Case mapping\<close>

definition byte :: "char \<Rightarrow> nat" where
  "byte c = of_char c"

definition upper_byte :: "char \<Rightarrow> char" where
  "upper_byte c = (if 97 \<le> byte c \<and> byte c \<le> 122 then char_of (byte c - 32) else c)"

definition lower_byte :: "char \<Rightarrow> char" where
  "lower_byte c = (if 65 \<le> byte c \<and> byte c \<le> 90 then char_of (byte c + 32) else c)"

fun to_upper :: "string \<Rightarrow> string" where
  "to_upper [] = []"
| "to_upper [c] = [upper_byte c]"
| "to_upper (c # d # s) =
     (if c = CHR 0xC5 \<and> d = CHR 0xBF then CHR ''S'' # to_upper s
      else if c = CHR 0xC4 \<and> d = CHR 0xB1 then CHR ''I'' # to_upper s
      else upper_byte c # to_upper (d # s))"

fun to_lower :: "string \<Rightarrow> string" where
  "to_lower [] = []"
| "to_lower [c] = [lower_byte c]"
| "to_lower (c # d # s) =
     (if c = CHR 0xC4 \<and> d = CHR 0xB0 then CHR ''i'' # to_lower s
      else if c = CHR 0xE2 \<and> prefix [CHR 0x84, CHR 0xAA] (d # s)
        then CHR ''k'' # to_lower (drop 1 s)
      else lower_byte c # to_lower (d # s))"

section \<open>Searching and splitting\<close>

fun contains :: "string \<Rightarrow> string \<Rightarrow> bool" where
  "contains [] p = (p = [])"
| "contains (c # s) p = (prefix p (c # s) \<or> contains s p)"

lemma contains_iff_sublist: "contains s p \<longleftrightarrow> sublist p s"
proof (induction s)
  case Nil
  then show ?case by simp
next
  case (Cons c s)
  then show ?case by (simp add: sublist_Cons_right)
qed

definition trim_suffix :: "string \<Rightarrow> string \<Rightarrow> string" where
  "trim_suffix s t = (if suffix t s then take (length s - length t) s else s)"

definition trim_prefix :: "string \<Rightarrow> string \<Rightarrow> string" where
  "trim_prefix s t = (if prefix t s then drop (length t) s else s)"

text \<open>\<open>strings.TrimRight(s, cutset)\<close> for an ASCII cut set.\<close>

definition trim_right_set :: "string \<Rightarrow> string \<Rightarrow> string" where
  "trim_right_set s cs = rev (dropWhile (\<lambda>c. c \<in> set cs) (rev s))"

text \<open>\<open>strings.Split(s, sep)\<close> for a separator of one byte.\<close>

fun split_on :: "char \<Rightarrow> string \<Rightarrow> string list" where
  "split_on c [] = [[]]"
| "split_on c (x # xs) =
     (if x = c then [] # split_on c xs
      else (case split_on c xs of [] \<Rightarrow> [[x]] | p # ps \<Rightarrow> (x # p) # ps))"

text \<open>\<open>strings.SplitN(s, sep, 2)\<close>: at most one cut, at the first separator.\<close>

definition split_n2 :: "char \<Rightarrow> string \<Rightarrow> string list" where
  "split_n2 c s =
     (if c \<in> set s
      then [takeWhile (\<lambda>x. x \<noteq> c) s, drop 1 (dropWhile (\<lambda>x. x \<noteq> c) s)]
      else [s])"

text \<open>\<open>strings.Join\<close> and \<open>strings.ReplaceAll\<close> for a pattern of one byte.\<close>

fun join :: "string \<Rightarrow> string list \<Rightarrow> string" where
  "join sep [] = []"
| "join sep [x] = x"
| "join sep (x # y # xs) = x @ sep @ join sep (y # xs)"

definition replace_char :: "char \<Rightarrow> string \<Rightarrow> string \<Rightarrow> string" where
  "replace_char c r s = concat (map (\<lambda>x. if x = c then r else [x]) s)"

text \<open>\<open>strings.Fields\<close>: the maximal runs without white space; \<open>cur\<close> is the run being read, reversed.\<close>

function field_scan :: "string \<Rightarrow> string \<Rightarrow> string list" where
  "field_scan cur [] = (if cur = [] then [] else [rev cur])"
| "field_scan cur (c # s) =
     (case lead_rune space_runes (c # s) of
        Some p \<Rightarrow> (if cur = [] then [] else [rev cur]) @ field_scan [] (drop (length p) (c # s))
      | None \<Rightarrow> field_scan (c # cur) s)"
  by pat_completeness auto
termination
  by (relation "measure (\<lambda>(cur, s). length s)") (auto dest: lead_rune_shorter simp del: length_drop)

definition go_fields :: "string \<Rightarrow> string list" where
  "go_fields s = field_scan [] s"

lemma fields_from_nonempty: "w \<in> set (field_scan cur s) \<Longrightarrow> w \<noteq> []"
proof (induction cur s rule: field_scan.induct)
  case (1 cur)
  then show ?case by (auto split: if_splits)
next
  case (2 cur c s)
  then show ?case by (auto split: option.splits if_splits)
qed

lemma split_on_not_Nil [simp]: "split_on c s \<noteq> []"
  by (induction s) (auto split: list.splits)

lemma split_on_append:
  assumes "c \<notin> set p"
  shows "split_on c (p @ c # s) = p # split_on c s"
  using assms by (induction p) auto

lemma split_on_no_sep: "c \<notin> set p \<Longrightarrow> split_on c p = [p]"
  by (induction p) auto

lemma join_split_on: "join [c] (split_on c s) = s"
proof (induction s)
  case (Cons x xs)
  obtain p ps where p: "split_on c xs = p # ps"
    by (cases "split_on c xs") auto
  with Cons show ?case
    by (cases ps) auto
qed simp

section \<open>Numbers\<close>

text \<open>\<open>%d\<close>: the decimal text of an integer.\<close>

definition digit_char :: "nat \<Rightarrow> char" where
  "digit_char d = ''0123456789'' ! d"

fun dec_nat :: "nat \<Rightarrow> string" where
  "dec_nat n = (if n < 10 then [digit_char n] else dec_nat (n div 10) @ [digit_char (n mod 10)])"

declare dec_nat.simps [simp del]

definition dec_int :: "int \<Rightarrow> string" where
  "dec_int i = (if i < 0 then CHR ''-'' # dec_nat (nat (- i)) else dec_nat (nat i))"

definition is_digit :: "char \<Rightarrow> bool" where
  "is_digit c \<longleftrightarrow> 48 \<le> byte c \<and> byte c \<le> 57"

definition digits_val :: "string \<Rightarrow> nat" where
  "digits_val s = foldl (\<lambda>a c. 10 * a + (byte c - 48)) 0 s"

text \<open>
  The scanner of \<open>fmt.Sscanf\<close>. It skips white space before a number, but a newline there is
  an error; then it reads the longest run of digits and leaves the rest of the input unread.
  \<open>scan_int\<close> is \<open>%d\<close> into an \<open>int64\<close>, \<open>scan_uint w\<close> is \<open>%d\<close> into an unsigned integer of \<open>w\<close>
  bits, \<open>scan_lit\<close> is text of the format that has no white space.
\<close>

function scan_skip :: "string \<Rightarrow> string option" where
  "scan_skip s =
     (case lead_rune space_runes s of
        None \<Rightarrow> Some s
      | Some p \<Rightarrow> if p = [CHR 0x0A] then None else scan_skip (drop (length p) s))"
  by pat_completeness auto
termination
  by (relation "measure length") (auto dest: lead_rune_shorter simp del: length_drop)

declare scan_skip.simps [simp del]

lemma scan_skip_plain: "c \<notin> set space_leads \<Longrightarrow> scan_skip (c # s) = Some (c # s)"
  by (simp add: scan_skip.simps lead_rune_plain)

definition scan_uint :: "nat \<Rightarrow> string \<Rightarrow> (nat \<times> string) option" where
  "scan_uint w s =
     (case scan_skip s of
        None \<Rightarrow> None
      | Some t \<Rightarrow>
          (let ds = takeWhile is_digit t; n = digits_val ds
           in if ds = [] \<or> 2 ^ w \<le> n then None else Some (n, dropWhile is_digit t)))"

definition scan_int :: "string \<Rightarrow> (int \<times> string) option" where
  "scan_int s =
     (case scan_skip s of
        None \<Rightarrow> None
      | Some t \<Rightarrow>
          (let neg = (t \<noteq> [] \<and> hd t = CHR ''-'');
               u = (if t \<noteq> [] \<and> (hd t = CHR ''-'' \<or> hd t = CHR ''+'') then tl t else t);
               ds = takeWhile is_digit u;
               n = (if neg then - int (digits_val ds) else int (digits_val ds))
           in if ds = [] \<or> n < - (2 ^ 63) \<or> 2 ^ 63 \<le> n then None
              else Some (n, dropWhile is_digit u)))"

definition scan_lit :: "string \<Rightarrow> string \<Rightarrow> string option" where
  "scan_lit p s = (if prefix p s then Some (drop (length p) s) else None)"

text \<open>\<open>fmt.Sscanf(s, "%d", &id)\<close>: what follows the number is ignored.\<close>

definition sscanf_int64 :: "string \<Rightarrow> int option" where
  "sscanf_int64 s = map_option fst (scan_int s)"

text \<open>\<open>strconv.ParseInt(s, 10, 64)\<close> and \<open>strconv.Atoi\<close>: the whole string must be the number.\<close>

definition parse_int64 :: "string \<Rightarrow> int option" where
  "parse_int64 s =
     (let neg = (s \<noteq> [] \<and> hd s = CHR ''-'');
          u = (if s \<noteq> [] \<and> (hd s = CHR ''-'' \<or> hd s = CHR ''+'') then tl s else s);
          n = (if neg then - int (digits_val u) else int (digits_val u))
      in if u = [] \<or> \<not> list_all is_digit u \<or> n < - (2 ^ 63) \<or> 2 ^ 63 \<le> n then None else Some n)"

lemma sscanf_int64_range:
  "sscanf_int64 s = Some n \<Longrightarrow> - (2 ^ 63) \<le> n \<and> n < 2 ^ 63"
  by (auto simp: sscanf_int64_def scan_int_def Let_def not_le split: option.splits if_splits)

section \<open>Decimal text and back\<close>

lemma digit_char_byte: "d < 10 \<Longrightarrow> byte (digit_char d) = 48 + d"
proof -
  assume "d < 10"
  then have "d \<in> set [0..<10]" by simp
  moreover have "\<forall>d\<in>set [0..<10]. byte (digit_char d) = 48 + d" by code_simp
  ultimately show ?thesis by blast
qed

lemma is_digit_char: "d < 10 \<Longrightarrow> is_digit (digit_char d)"
  by (simp add: is_digit_def digit_char_byte)

lemma dec_nat_digits: "list_all is_digit (dec_nat n)"
proof (induction n rule: dec_nat.induct)
  case (1 n)
  then show ?case
    by (subst dec_nat.simps) (auto simp: is_digit_char)
qed

lemma dec_nat_nonempty: "dec_nat n \<noteq> []"
  by (subst dec_nat.simps) simp

lemma digits_val_append: "digits_val (s @ [c]) = 10 * digits_val s + (byte c - 48)"
  by (simp add: digits_val_def)

lemma digits_val_dec: "digits_val (dec_nat n) = n"
proof (induction n rule: dec_nat.induct)
  case (1 n)
  show ?case
  proof (cases "n < 10")
    case True
    then show ?thesis by (subst dec_nat.simps) (simp add: digits_val_def digit_char_byte)
  next
    case False
    then have "digits_val (dec_nat n) = 10 * (n div 10) + n mod 10"
      using 1 by (subst dec_nat.simps) (simp add: digits_val_append digit_char_byte)
    then show ?thesis by simp
  qed
qed

lemma take_digits:
  "list_all is_digit s \<Longrightarrow> takeWhile is_digit s = s" "list_all is_digit s \<Longrightarrow> dropWhile is_digit s = []"
  by (simp_all add: list_all_iff takeWhile_eq_all_conv dropWhile_eq_Nil_conv)

definition int64 :: "int \<Rightarrow> bool" where
  "int64 n \<longleftrightarrow> - (2 ^ 63) \<le> n \<and> n < 2 ^ 63"

lemma digit_not_special:
  "is_digit c \<Longrightarrow> c \<notin> set space_leads \<and> c \<noteq> CHR ''-'' \<and> c \<noteq> CHR ''+''"
  by (auto simp: is_digit_def space_leads_def ascii_spaces_def byte_def)

lemma dec_nat_head: "\<exists>c cs. dec_nat n = c # cs \<and> is_digit c"
  using dec_nat_nonempty [of n] dec_nat_digits [of n] by (cases "dec_nat n") auto

lemma scan_skip_dec: "scan_skip (dec_int n) = Some (dec_int n)"
proof (cases "n < 0")
  case True
  then show ?thesis by (simp add: dec_int_def scan_skip_plain space_leads_def ascii_spaces_def)
next
  case False
  obtain c cs where "dec_nat (nat n) = c # cs" "is_digit c" using dec_nat_head by blast
  with False show ?thesis by (simp add: dec_int_def scan_skip_plain digit_not_special)
qed

text \<open>What \<open>%d\<close> prints, \<open>Sscanf\<close> and \<open>ParseInt\<close> read back.\<close>

lemma sscanf_dec_int: "int64 n \<Longrightarrow> sscanf_int64 (dec_int n) = Some n"
proof (cases "n < 0")
  case True
  assume "int64 n"
  then show ?thesis
    using True by (simp add: sscanf_int64_def scan_int_def scan_skip_dec) (simp add: dec_int_def
        take_digits dec_nat_digits dec_nat_nonempty digits_val_dec int64_def Let_def)
next
  case False
  assume n: "int64 n"
  obtain c cs where c: "dec_nat (nat n) = c # cs" "is_digit c" using dec_nat_head by blast
  have "list_all is_digit (c # cs)" using dec_nat_digits [of "nat n"] c(1) by simp
  then have tw: "takeWhile is_digit cs = cs" using take_digits(1) [of cs] by simp
  have "digits_val (c # cs) = nat n" using digits_val_dec [of "nat n"] c(1) by simp
  then show ?thesis
    using False n digit_not_special [OF c(2)] c
    by (simp add: sscanf_int64_def scan_int_def scan_skip_dec)
      (simp add: dec_int_def int64_def Let_def tw)
qed

lemma parse_dec_int: "int64 n \<Longrightarrow> parse_int64 (dec_int n) = Some n"
proof (cases "n < 0")
  case True
  assume "int64 n"
  then show ?thesis
    using True by (simp add: parse_int64_def dec_int_def dec_nat_digits dec_nat_nonempty
        digits_val_dec int64_def)
next
  case False
  assume n: "int64 n"
  obtain c cs where c: "dec_nat (nat n) = c # cs" "is_digit c" using dec_nat_head by blast
  have "list_all is_digit (c # cs)" "digits_val (c # cs) = nat n"
    using dec_nat_digits [of "nat n"] digits_val_dec [of "nat n"] c(1) by simp_all
  then show ?thesis
    using False n digit_not_special [OF c(2)] c
    by (simp add: parse_int64_def) (simp add: dec_int_def int64_def)
qed

lemma dec_int_chars: "c \<in> set (dec_int n) \<Longrightarrow> is_digit c \<or> c = CHR ''-''"
  using dec_nat_digits by (auto simp: dec_int_def list_all_iff split: if_splits)

end
