(* ===== verification/Encoding.thy ===== *)
theory Encoding
  imports GoStrings
begin

text \<open>
  The byte encodings of Go's standard library that the program stores and parses:
  \<open>encoding/hex\<close> for tokens and keys, \<open>base64.RawStdEncoding\<close> for salts, hashes and sealed keys.
  Both are interpretations of one interface, a codec whose decoder undoes its encoder.
\<close>

section \<open>The interface of a codec\<close>

locale codec =
  fixes enc :: "string \<Rightarrow> string"
    and dec :: "string \<Rightarrow> string option"
  assumes dec_enc: "dec (enc s) = Some s"
begin

lemma enc_inject: "enc s = enc t \<longleftrightarrow> s = t"
  by (metis dec_enc option.inject)

lemma dec_enc_eq: "dec x = Some t \<Longrightarrow> x = enc s \<Longrightarrow> t = s"
  by (simp add: dec_enc)

end

section \<open>Bytes\<close>

lemma byte_less [simp]: "byte c < 256"
  by (simp add: byte_def)

lemma char_of_byte [simp]: "char_of (byte c) = c"
  by (simp add: byte_def)

lemma byte_char_of: "n < 256 \<Longrightarrow> byte (char_of n) = n"
  by (simp add: byte_def)

text \<open>Decoding a digit: its position in the alphabet.\<close>

definition digit_of :: "string \<Rightarrow> char \<Rightarrow> nat option" where
  "digit_of alphabet c = map_of (zip alphabet [0..<length alphabet]) c"

lemma digit_of_nth:
  assumes "distinct alphabet" and "n < length alphabet"
  shows "digit_of alphabet (alphabet ! n) = Some n"
  using assms map_of_zip_nth [of alphabet "[0..<length alphabet]" n]
  by (simp add: digit_of_def)

section \<open>Hexadecimal\<close>

definition hex_alphabet :: string where
  "hex_alphabet = ''0123456789abcdef''"

definition hex_upper :: string where
  "hex_upper = ''ABCDEF''"

fun hex_encode :: "string \<Rightarrow> string" where
  "hex_encode [] = []"
| "hex_encode (c # s) = hex_alphabet ! (byte c div 16) # hex_alphabet ! (byte c mod 16) # hex_encode s"

definition hex_digit :: "char \<Rightarrow> nat option" where
  "hex_digit c =
     (case digit_of hex_alphabet c of
        Some n \<Rightarrow> Some n
      | None \<Rightarrow> map_option (\<lambda>n. 10 + n) (digit_of hex_upper c))"

text \<open>\<open>hex.DecodeString\<close>: \<open>None\<close> for an odd length or a byte that is no digit.\<close>

fun hex_decode :: "string \<Rightarrow> string option" where
  "hex_decode [] = Some []"
| "hex_decode [c] = None"
| "hex_decode (c # d # s) =
     (case (hex_digit c, hex_digit d, hex_decode s) of
        (Some m, Some n, Some t) \<Rightarrow> Some (char_of (16 * m + n) # t)
      | _ \<Rightarrow> None)"

lemma hex_digit_nth: "n < 16 \<Longrightarrow> hex_digit (hex_alphabet ! n) = Some n"
  by (simp add: hex_digit_def digit_of_nth hex_alphabet_def)

lemma hex_decode_encode: "hex_decode (hex_encode s) = Some s"
proof (induction s)
  case (Cons c s)
  have "byte c div 16 < 16" using byte_less [of c] by linarith
  with Cons show ?case by (simp add: hex_digit_nth)
qed simp

interpretation hex: codec hex_encode hex_decode
  by unfold_locales (rule hex_decode_encode)

lemma length_hex_encode [simp]: "length (hex_encode s) = 2 * length s"
  by (induction s) auto

lemma hex_decode_length: "hex_decode s = Some t \<Longrightarrow> length s = 2 * length t"
proof (induction s arbitrary: t rule: hex_decode.induct)
  case (3 c d s)
  then show ?case by (auto split: option.splits)
qed auto

section \<open>Base 64 without padding\<close>

definition b64_alphabet :: string where
  "b64_alphabet = ''ABCDEFGHIJKLMNOPQRSTUVWXYZabcdefghijklmnopqrstuvwxyz0123456789+/''"

fun b64_sextets :: "nat list \<Rightarrow> nat list" where
  "b64_sextets [] = []"
| "b64_sextets [a] = [a div 4, (a mod 4) * 16]"
| "b64_sextets [a, b] = [a div 4, (a mod 4) * 16 + b div 16, (b mod 16) * 4]"
| "b64_sextets (a # b # c # r) =
     a div 4 # ((a mod 4) * 16 + b div 16) # ((b mod 16) * 4 + c div 64) # c mod 64 # b64_sextets r"

definition b64_encode :: "string \<Rightarrow> string" where
  "b64_encode s = map (\<lambda>n. b64_alphabet ! n) (b64_sextets (map byte s))"

text \<open>A single digit at the end is an error; the bits left over in the last digit are dropped.\<close>

fun b64_octets :: "nat list \<Rightarrow> nat list option" where
  "b64_octets [] = Some []"
| "b64_octets [w] = None"
| "b64_octets [w, x] = Some [w * 4 + x div 16]"
| "b64_octets [w, x, y] = Some [w * 4 + x div 16, (x mod 16) * 16 + y div 4]"
| "b64_octets (w # x # y # z # r) =
     map_option (\<lambda>bs. (w * 4 + x div 16) # ((x mod 16) * 16 + y div 4) # ((y mod 4) * 64 + z) # bs)
       (b64_octets r)"

text \<open>\<open>DecodeString\<close> skips line breaks and rejects every other byte outside the alphabet.\<close>

definition b64_decode :: "string \<Rightarrow> string option" where
  "b64_decode s =
     (case those (map (digit_of b64_alphabet) (filter (\<lambda>c. c \<noteq> CHR 0x0A \<and> c \<noteq> CHR 0x0D) s)) of
        None \<Rightarrow> None
      | Some ns \<Rightarrow> map_option (map char_of) (b64_octets ns))"

lemma b64_alphabet_facts:
  "length b64_alphabet = 64" "distinct b64_alphabet"
  by (simp_all add: b64_alphabet_def)

lemma b64_sextet_bounds:
  fixes a b :: nat
  shows "a < 256 \<Longrightarrow> a div 4 < 64" and "(a mod 4) * 16 < 64"
    and "b < 256 \<Longrightarrow> (a mod 4) * 16 + b div 16 < 64" and "(b mod 16) * 4 < 64"
    and "a < 256 \<Longrightarrow> (b mod 16) * 4 + a div 64 < 64"
  by linarith+

lemma b64_sextets_less: "\<forall>b\<in>set bs. b < 256 \<Longrightarrow> n \<in> set (b64_sextets bs) \<Longrightarrow> n < 64"
proof (induction bs rule: b64_sextets.induct)
  case (4 a b c r)
  then show ?case using b64_sextet_bounds by fastforce
qed (use b64_sextet_bounds in fastforce)+

lemma b64_octets_sextets: "\<forall>b\<in>set bs. b < 256 \<Longrightarrow> b64_octets (b64_sextets bs) = Some bs"
proof (induction bs rule: b64_sextets.induct)
  case (3 a b)
  then have "b div 16 < 16" by auto
  then show ?case by simp
next
  case (4 a b c r)
  then have "b div 16 < 16" "c div 64 < 4" by auto
  with 4 show ?case by simp
qed auto

lemma b64_encode_chars: "c \<in> set (b64_encode s) \<Longrightarrow> c \<in> set b64_alphabet"
proof -
  assume "c \<in> set (b64_encode s)"
  then obtain n where "n \<in> set (b64_sextets (map byte s))" and c: "c = b64_alphabet ! n"
    by (auto simp: b64_encode_def)
  then have "n < 64" by (intro b64_sextets_less [of "map byte s"]) auto
  with c show ?thesis using b64_alphabet_facts(1) by simp
qed

lemma b64_encode_clean:
  assumes "c \<in> {CHR 0x0A, CHR 0x0D, CHR ''$'', CHR ''_''}"
  shows "c \<notin> set (b64_encode s)"
proof -
  have "c \<notin> set b64_alphabet" using assms by (auto simp: b64_alphabet_def)
  then show ?thesis using b64_encode_chars by blast
qed

lemma b64_decode_encode: "b64_decode (b64_encode s) = Some s"
proof -
  let ?ns = "b64_sextets (map byte s)"
  have less: "\<forall>n\<in>set ?ns. n < 64"
    using b64_sextets_less [of "map byte s"] by auto
  have "filter (\<lambda>c. c \<noteq> CHR 0x0A \<and> c \<noteq> CHR 0x0D) (b64_encode s) = b64_encode s"
    using b64_encode_clean by (intro filter_True) blast
  moreover have "map (digit_of b64_alphabet) (b64_encode s) = map Some ?ns"
    using less by (auto simp: b64_encode_def digit_of_nth b64_alphabet_facts)
  moreover have "those (map Some ns) = Some ns" for ns :: "nat list"
    by (induction ns) auto
  ultimately show ?thesis
    by (simp add: b64_decode_def b64_octets_sextets comp_def)
qed

interpretation b64: codec b64_encode b64_decode
  by unfold_locales (rule b64_decode_encode)

end
