(* ===== verification/Password.thy ===== *)
theory Password
  imports Encoding
begin

text \<open>
  Passwords, \<open>internal/auth/password.go\<close> without its rate limiter (see \<open>RateLimit\<close>): the strength
  policy, and hashing and verification in the encoded form
  \<open>$argon2id$v=19$m=..,t=..,p=..$salt$hash\<close>. The key derivation \<open>argon2.IDKey\<close> is a third-party
  function and a parameter here; the bytes that \<open>rand.Read\<close> delivers are an argument, \<open>None\<close> where
  it fails.
\<close>

section \<open>Parameters\<close>

record argon2_params =
  p_memory :: nat
  p_time :: nat
  p_threads :: nat
  p_keylen :: nat

definition defaultParams :: argon2_params where
  "defaultParams = \<lparr>p_memory = 64 * 1024, p_time = 3, p_threads = 4, p_keylen = 32\<rparr>"

text \<open>\<open>argon2.Version\<close>, and the type of \<open>argon2.IDKey(password, salt, time, memory, threads, keyLen)\<close>.\<close>

definition argon2_Version :: nat where
  "argon2_Version = 19"

type_synonym kdf = "string \<Rightarrow> string \<Rightarrow> nat \<Rightarrow> nat \<Rightarrow> nat \<Rightarrow> nat \<Rightarrow> string"

text \<open>\<open>IDKey\<close> panics when there are no rounds or no threads.\<close>

definition IDKey :: "kdf \<Rightarrow> string \<Rightarrow> string \<Rightarrow> nat \<Rightarrow> nat \<Rightarrow> nat \<Rightarrow> nat \<Rightarrow> string res" where
  "IDKey kdf pw salt tm mem th len =
     (if tm < 1 then Inl (Panic ''argon2: number of rounds too small'')
      else if th < 1 then Inl (Panic ''argon2: parallelism degree too low'')
      else Inr (kdf pw salt tm mem th len))"

section \<open>Hashing\<close>

definition generateSalt :: "string option \<Rightarrow> string res" where
  "generateSalt rnd =
     (case rnd of
        None \<Rightarrow> Inl (Wrap ''generate salt'' (Err ''rand''))
      | Some b \<Rightarrow> Inr (b64_encode b))"

definition encode_hash :: "argon2_params \<Rightarrow> string \<Rightarrow> string \<Rightarrow> string" where
  "encode_hash p b64Salt b64Hash =
     ''$argon2id$v='' @ dec_nat argon2_Version @ ''$m='' @ dec_nat (p_memory p)
     @ '',t='' @ dec_nat (p_time p) @ '',p='' @ dec_nat (p_threads p)
     @ ''$'' @ b64Salt @ ''$'' @ b64Hash"

text \<open>The salt given to the key derivation is the base-64 text, not the random bytes.\<close>

definition HashPassword :: "kdf \<Rightarrow> string option \<Rightarrow> string \<Rightarrow> string res" where
  "HashPassword kdf rnd password =
     (case generateSalt rnd of
        Inl e \<Rightarrow> Inl e
      | Inr salt \<Rightarrow>
          let p = defaultParams in
          case IDKey kdf password salt (p_time p) (p_memory p) (p_threads p) (p_keylen p) of
            Inl e \<Rightarrow> Inl e
          | Inr hash \<Rightarrow> Inr (encode_hash p (b64_encode salt) (b64_encode hash)))"

section \<open>Verification\<close>

text \<open>\<open>fmt.Sscanf(s, "v=%d", ...)\<close> and \<open>fmt.Sscanf(s, "m=%d,t=%d,p=%d", ...)\<close>.\<close>

definition scan_version :: "string \<Rightarrow> int option" where
  "scan_version s = (case scan_lit ''v='' s of None \<Rightarrow> None | Some r \<Rightarrow> map_option fst (scan_int r))"

definition scan_field :: "string \<Rightarrow> nat \<Rightarrow> string \<Rightarrow> (nat \<times> string) option" where
  "scan_field lit w s = (case scan_lit lit s of None \<Rightarrow> None | Some r \<Rightarrow> scan_uint w r)"

definition scan_params :: "string \<Rightarrow> (nat \<times> nat \<times> nat) option" where
  "scan_params s =
     (case scan_field ''m='' 32 s of
        None \<Rightarrow> None
      | Some (mem, s1) \<Rightarrow>
          case scan_field '',t='' 32 s1 of
            None \<Rightarrow> None
          | Some (tm, s2) \<Rightarrow>
              case scan_field '',p='' 8 s2 of
                None \<Rightarrow> None
              | Some (th, s3) \<Rightarrow> Some (mem, tm, th))"

definition VerifyPassword :: "kdf \<Rightarrow> string \<Rightarrow> string \<Rightarrow> bool res" where
  "VerifyPassword kdf password encoded =
     (let parts = split_on CHR ''$'' encoded in
      if length parts \<noteq> 6 then Inl (Err ''invalid hash format'')
      else case scan_version (parts ! 2) of
        None \<Rightarrow> Inl (Wrap ''parse version'' (Err ''scan''))
      | Some _ \<Rightarrow>
          case scan_params (parts ! 3) of
            None \<Rightarrow> Inl (Wrap ''parse params'' (Err ''scan''))
          | Some (mem, tm, th) \<Rightarrow>
              case b64_decode (parts ! 4) of
                None \<Rightarrow> Inl (Wrap ''decode salt'' (Err ''illegal base64 data''))
              | Some salt \<Rightarrow>
                  case b64_decode (parts ! 5) of
                    None \<Rightarrow> Inl (Wrap ''decode hash'' (Err ''illegal base64 data''))
                  | Some decodedHash \<Rightarrow>
                      case IDKey kdf password salt tm mem th (length decodedHash) of
                        Inl e \<Rightarrow> Inl e
                      | Inr computed \<Rightarrow> Inr (decodedHash = computed))"

section \<open>The strength policy\<close>

text \<open>The loop over the password: which classes of characters have been seen.\<close>

fun strength_scan :: "bool \<times> bool \<times> bool \<Rightarrow> string \<Rightarrow> bool \<times> bool \<times> bool" where
  "strength_scan (u, l, d) [] = (u, l, d)"
| "strength_scan (u, l, d) (c # cs) =
     (if 65 \<le> byte c \<and> byte c \<le> 90 then strength_scan (True, l, d) cs
      else if 97 \<le> byte c \<and> byte c \<le> 122 then strength_scan (u, True, d) cs
      else if 48 \<le> byte c \<and> byte c \<le> 57 then strength_scan (u, l, True) cs
      else strength_scan (u, l, d) cs)"

text \<open>The length is \<open>len\<close>, a number of bytes.\<close>

definition ValidatePasswordStrength :: "string \<Rightarrow> unit res" where
  "ValidatePasswordStrength password =
     (if length password < 8 then Inl (Err ''password must be at least 8 characters'')
      else case strength_scan (False, False, False) password of
        (hasUpper, hasLower, hasDigit) \<Rightarrow>
          if \<not> hasUpper then Inl (Err ''password must contain at least one uppercase letter'')
          else if \<not> hasLower then Inl (Err ''password must contain at least one lowercase letter'')
          else if \<not> hasDigit then Inl (Err ''password must contain at least one digit'')
          else Inr ())"

definition is_upper :: "char \<Rightarrow> bool" where
  "is_upper c \<longleftrightarrow> 65 \<le> byte c \<and> byte c \<le> 90"

definition is_lower :: "char \<Rightarrow> bool" where
  "is_lower c \<longleftrightarrow> 97 \<le> byte c \<and> byte c \<le> 122"

lemma strength_scan_eq:
  "strength_scan (u, l, d) s =
     (u \<or> (\<exists>c\<in>set s. is_upper c), l \<or> (\<exists>c\<in>set s. is_lower c), d \<or> (\<exists>c\<in>set s. is_digit c))"
  by (induction s arbitrary: u l d) (auto simp: is_upper_def is_lower_def is_digit_def)

lemma ValidatePasswordStrength_ok_iff:
  "ValidatePasswordStrength pw = Inr () \<longleftrightarrow>
     8 \<le> length pw \<and> (\<exists>c\<in>set pw. is_upper c) \<and> (\<exists>c\<in>set pw. is_lower c) \<and>
     (\<exists>c\<in>set pw. is_digit c)"
  by (auto simp: ValidatePasswordStrength_def strength_scan_eq)

section \<open>Hashing and verifying fit together\<close>

lemma dec_nat_params:
  "dec_nat 19 = ''19''" "dec_nat 65536 = ''65536''" "dec_nat 3 = ''3''" "dec_nat 4 = ''4''"
  by (simp_all add: dec_nat.simps digit_char_def)

lemma encode_hash_default:
  "encode_hash defaultParams s h =
     ''$argon2id$v=19$m=65536,t=3,p=4$'' @ s @ ''$'' @ h"
  by (simp add: encode_hash_def defaultParams_def argon2_Version_def dec_nat_params)

lemma scan_default:
  "scan_version ''v=19'' = Some 19"
  "scan_params ''m=65536,t=3,p=4'' = Some (65536, 3, 4)"
  by (simp_all add: scan_version_def scan_params_def scan_field_def scan_lit_def scan_int_def
      scan_uint_def scan_skip_plain space_leads_def ascii_spaces_def is_digit_def byte_def
      digits_val_def)

lemma split_encoded:
  assumes "CHR ''$'' \<notin> set s" and "CHR ''$'' \<notin> set h"
  shows "split_on CHR ''$'' (encode_hash defaultParams s h) =
     [[], ''argon2id'', ''v=19'', ''m=65536,t=3,p=4'', s, h]"
proof -
  have eq: "encode_hash defaultParams s h =
      [] @ CHR ''$'' # ''argon2id'' @ CHR ''$'' # ''v=19'' @ CHR ''$'' # ''m=65536,t=3,p=4''
      @ CHR ''$'' # s @ CHR ''$'' # h"
    by (simp add: encode_hash_default)
  show ?thesis
    using assms unfolding eq by (subst split_on_append; simp add: split_on_append split_on_no_sep)
qed

lemma VerifyPassword_encoded:
  "VerifyPassword kdf pw (encode_hash defaultParams (b64_encode salt) (b64_encode hash)) =
     Inr (hash = kdf pw salt 3 65536 4 (length hash))"
  by (simp add: VerifyPassword_def split_encoded b64_encode_clean scan_default b64_decode_encode
      IDKey_def)

lemma HashPassword_Some:
  "HashPassword kdf (Some rnd) pw =
     Inr (encode_hash defaultParams (b64_encode (b64_encode rnd))
           (b64_encode (kdf pw (b64_encode rnd) 3 65536 4 32)))"
  by (simp add: HashPassword_def generateSalt_def IDKey_def defaultParams_def Let_def)

lemma HashPassword_None: "HashPassword kdf None pw = Inl (Wrap ''generate salt'' (Err ''rand''))"
  by (simp add: HashPassword_def generateSalt_def)

end
