(* ===== verification/SqlTable.thy ===== *)
theory SqlTable
  imports Prelude
begin

text \<open>
  Tables with an \<open>INTEGER PRIMARY KEY AUTOINCREMENT\<close> column, as the schema of the system
  database declares them: the rows in the order of their ids, and the counter of
  \<open>sqlite_sequence\<close>, from which every new id is taken and which no delete lowers.
\<close>

section \<open>Tables\<close>

record 'r tbl =
  t_rows :: "'r list"
  t_seq :: int

definition empty_tbl :: "'r tbl" where
  "empty_tbl = \<lparr>t_rows = [], t_seq = 0\<rparr>"

definition tbl_insert :: "(int \<Rightarrow> 'r) \<Rightarrow> 'r tbl \<Rightarrow> 'r tbl" where
  "tbl_insert mk t = t\<lparr>t_rows := t_rows t @ [mk (t_seq t + 1)], t_seq := t_seq t + 1\<rparr>"

definition tbl_update :: "('r \<Rightarrow> bool) \<Rightarrow> ('r \<Rightarrow> 'r) \<Rightarrow> 'r tbl \<Rightarrow> 'r tbl" where
  "tbl_update p f t = t\<lparr>t_rows := update_where p f (t_rows t)\<rparr>"

definition tbl_delete :: "('r \<Rightarrow> bool) \<Rightarrow> 'r tbl \<Rightarrow> 'r tbl" where
  "tbl_delete p t = t\<lparr>t_rows := delete_where p (t_rows t)\<rparr>"

lemma tbl_simps [simp]:
  "t_rows (tbl_insert mk t) = t_rows t @ [mk (t_seq t + 1)]"
  "t_seq (tbl_insert mk t) = t_seq t + 1"
  "t_rows (tbl_update p f t) = update_where p f (t_rows t)"
  "t_seq (tbl_update p f t) = t_seq t"
  "t_rows (tbl_delete p t) = delete_where p (t_rows t)"
  "t_seq (tbl_delete p t) = t_seq t"
  "t_rows empty_tbl = []"
  "t_seq empty_tbl = 0"
  by (simp_all add: tbl_insert_def tbl_update_def tbl_delete_def empty_tbl_def)

section \<open>Well-formed tables\<close>

text \<open>Ids grow along the rows, are positive, and none is above the counter.\<close>

definition tbl_ok :: "('r \<Rightarrow> int) \<Rightarrow> 'r tbl \<Rightarrow> bool" where
  "tbl_ok key t \<longleftrightarrow>
     sorted_wrt (<) (map key (t_rows t)) \<and>
     (\<forall>r\<in>set (t_rows t). 0 < key r \<and> key r \<le> t_seq t) \<and> 0 \<le> t_seq t"

lemma tbl_ok_empty [simp, intro]: "tbl_ok key empty_tbl"
  by (simp add: tbl_ok_def)

lemma tbl_ok_insert [intro]:
  "tbl_ok key t \<Longrightarrow> (\<And>i. key (mk i) = i) \<Longrightarrow> tbl_ok key (tbl_insert mk t)"
  by (fastforce simp: tbl_ok_def sorted_wrt_append)

lemma tbl_ok_update [intro]:
  assumes "tbl_ok key t" and "\<And>r. key (f r) = key r"
  shows "tbl_ok key (tbl_update p f t)"
proof -
  have "map key (update_where p f (t_rows t)) = map key (t_rows t)"
    using assms(2) by (intro map_update_where) simp
  with assms show ?thesis
    by (auto simp: tbl_ok_def set_update_where)
qed

lemma tbl_ok_delete [intro]: "tbl_ok key t \<Longrightarrow> tbl_ok key (tbl_delete p t)"
  by (auto simp: tbl_ok_def delete_where_sorted)

lemma tbl_ok_distinct: "tbl_ok key t \<Longrightarrow> distinct (map key (t_rows t))"
  by (auto simp: tbl_ok_def intro: sorted_wrt_less_distinct)

lemma tbl_find_id:
  "tbl_ok key t \<Longrightarrow> r \<in> set (t_rows t) \<Longrightarrow> find (\<lambda>x. key x = key r) (t_rows t) = Some r"
  by (rule find_unique_key [OF tbl_ok_distinct])

lemma tbl_find_new:
  assumes "tbl_ok key t" and "\<And>i. key (mk i) = i"
  shows "find (\<lambda>r. key r = t_seq t + 1) (t_rows t @ [mk (t_seq t + 1)]) = Some (mk (t_seq t + 1))"
proof -
  have "find (\<lambda>r. key r = t_seq t + 1) (t_rows t) = None"
    using assms(1) by (force simp: find_None_iff tbl_ok_def)
  then show ?thesis using assms(2) by (simp add: find_append)
qed

section \<open>The interface of a source of ids\<close>

text \<open>
  What the rest of the system relies on: an id that was handed out once is never handed out
  again, whatever is inserted and removed in between. Stores of credentials that refer to a
  user by id are safe against a deleted user's id naming someone else later.
\<close>

locale id_source =
  fixes step :: "'s \<Rightarrow> 's \<Rightarrow> bool"
    and ids :: "'s \<Rightarrow> int set"
    and last_id :: "'s \<Rightarrow> int"
    and good :: "'s \<Rightarrow> bool"
  assumes ids_le: "good s \<Longrightarrow> i \<in> ids s \<Longrightarrow> i \<le> last_id s"
    and step_ids: "good s \<Longrightarrow> step s s' \<Longrightarrow> i \<in> ids s' \<Longrightarrow> i \<in> ids s \<or> last_id s < i"
    and step_last: "good s \<Longrightarrow> step s s' \<Longrightarrow> last_id s \<le> last_id s'"
    and step_good: "good s \<Longrightarrow> step s s' \<Longrightarrow> good s'"
begin

lemma steps_good: "step\<^sup>*\<^sup>* s s' \<Longrightarrow> good s \<Longrightarrow> good s'"
  by (induction rule: rtranclp_induct) (auto intro: step_good)

lemma steps_last: "step\<^sup>*\<^sup>* s s' \<Longrightarrow> good s \<Longrightarrow> last_id s \<le> last_id s'"
proof (induction rule: rtranclp_induct)
  case (step t u)
  then show ?case using step_last [of t u] steps_good [of s t] by force
qed simp

text \<open>An id that is not in use but was handed out stays out of use for ever.\<close>

lemma dead_id_stays_dead:
  "step\<^sup>*\<^sup>* s s' \<Longrightarrow> good s \<Longrightarrow> i \<le> last_id s \<Longrightarrow> i \<notin> ids s \<Longrightarrow> i \<notin> ids s'"
proof (induction rule: rtranclp_induct)
  case (step t u)
  then have "good t" and "last_id s \<le> last_id t" and "i \<notin> ids t"
    by (auto intro: steps_good steps_last)
  then show ?case
    using step_ids [of t u i] step.hyps step.prems by force
qed simp

text \<open>An id taken after a state is new to it.\<close>

lemma later_id_is_fresh:
  assumes "step\<^sup>*\<^sup>* s s'" and "good s" and "last_id s' < i"
  shows "i \<notin> ids s"
  using ids_le [of s i] steps_last [OF assms(1,2)] assms(2,3) by force

end

end
