(* ===== verification/SystemDb.thy ===== *)
theory SystemDb
  imports SqlTable
begin

text \<open>
  The system database, \<open>internal/database/system.go\<close>: users, API keys, sessions, audit log,
  replication log and replication state. Each Go method is a definition of the same name over
  an explicit state; each SQL statement it executes is written out as an operation on tables,
  with the constraints of the schema (\<open>UNIQUE\<close>, \<open>AUTOINCREMENT\<close>, defaults). Foreign keys
  are declared but not enforced: \<open>NewSystemDB\<close> does not turn them on, and SQLite leaves them
  off by default.

  The SQLite engine itself is not part of the repository. Whether it fails a statement (busy,
  out of space, closed) is an input: \<open>db_faults\<close> is a script with one entry per statement to
  come, \<open>None\<close> for a statement that runs and \<open>Some e\<close> for one that fails with \<open>e\<close> and has no
  effect; a statement after the end of the script runs. Clock readings are arguments.
\<close>

section \<open>Rows and the values the methods return\<close>

record user_row =
  u_id :: int
  u_username :: string
  u_hash :: string
  u_role :: string
  u_created :: int
  u_locked :: "int option"
  u_pwd_change :: int

record user =
  User_ID :: int
  User_Username :: string
  User_PasswordHash :: string
  User_Role :: string
  User_CreatedAt :: int
  User_LockedUntil :: "int option"
  User_PasswordChangeRequired :: bool

record key_row =
  k_id :: int
  k_user :: int
  k_hash :: string
  k_name :: string
  k_prefix :: string
  k_created :: int
  k_expires :: "int option"
  k_encrypted :: string

record api_key =
  Key_ID :: int
  Key_UserID :: int
  Key_Name :: string
  Key_Prefix :: string
  Key_CreatedAt :: int
  Key_ExpiresAt :: "int option"
  Key_EncryptedKey :: string

record session_row =
  ss_id :: int
  ss_user :: int
  ss_token :: string
  ss_expires :: int

record audit_row =
  al_id :: int
  al_user :: "int option"
  al_username :: string
  al_ip :: string
  al_query :: string
  al_endpoint :: string
  al_status :: string
  al_timestamp :: int

record repl_entry =
  re_id :: int
  re_database :: string
  re_query :: string
  re_executed :: int

record repl_state =
  rs_role :: string
  rs_primary :: string
  rs_last_applied :: int
  rs_updated :: int

text \<open>
  An entry of the audit channel: a row to insert, or the marker of \<open>FlushAuditLog\<close>, told apart
  by the \<open>flusher\<close> channel it carries (numbered here).
\<close>

record audit_entry =
  ae_user :: "int option"
  ae_username :: string
  ae_ip :: string
  ae_query :: string
  ae_endpoint :: string
  ae_status :: string
  ae_flusher :: "nat option"

record sysdb =
  db_users :: "user_row tbl"
  db_keys :: "key_row tbl"
  db_sessions :: "session_row tbl"
  db_audit :: "audit_row tbl"
  db_repl :: "repl_entry tbl"
  db_repl_state :: "repl_state option"
  db_faults :: "gerr option list"
  audit_ch :: "audit_entry list"
  audit_closed :: bool
  audit_done :: bool
  audit_flushed :: "nat list"

definition empty_sysdb :: sysdb where
  "empty_sysdb =
     \<lparr>db_users = empty_tbl, db_keys = empty_tbl, db_sessions = empty_tbl, db_audit = empty_tbl,
      db_repl = empty_tbl, db_repl_state = None, db_faults = [], audit_ch = [],
      audit_closed = False, audit_done = False, audit_flushed = []\<rparr>"

section \<open>Statements\<close>

text \<open>One statement: the engine may fail it; otherwise it has its effect.\<close>

definition stmt :: "(sysdb \<Rightarrow> 'a res \<times> sysdb) \<Rightarrow> sysdb \<Rightarrow> 'a res \<times> sysdb" where
  "stmt f s =
     (case db_faults s of
        [] \<Rightarrow> f s
      | None # fs \<Rightarrow> f (s\<lparr>db_faults := fs\<rparr>)
      | Some e # fs \<Rightarrow> (Inl e, s\<lparr>db_faults := fs\<rparr>))"

text \<open>\<open>row.Scan\<close> on no row.\<close>

definition ErrNoRows :: gerr where
  "ErrNoRows = Err ''sql: no rows in result set''"

definition query_row :: "('r \<Rightarrow> 'a) \<Rightarrow> 'r option \<Rightarrow> 'a res" where
  "query_row scan r = (case r of None \<Rightarrow> Inl ErrNoRows | Some x \<Rightarrow> Inr (scan x))"

definition read :: "(sysdb \<Rightarrow> 'a res) \<Rightarrow> sysdb \<Rightarrow> 'a res \<times> sysdb" where
  "read q = stmt (\<lambda>s. (q s, s))"

definition exec :: "(sysdb \<Rightarrow> sysdb) \<Rightarrow> sysdb \<Rightarrow> unit res \<times> sysdb" where
  "exec f = stmt (\<lambda>s. (Inr (), f s))"

definition unique_violation :: "string \<Rightarrow> gerr" where
  "unique_violation col = Err (''UNIQUE constraint failed: '' @ col)"

section \<open>Users\<close>

definition scan_user :: "user_row \<Rightarrow> user" where
  "scan_user r =
     \<lparr>User_ID = u_id r, User_Username = u_username r, User_PasswordHash = u_hash r,
      User_Role = u_role r, User_CreatedAt = u_created r, User_LockedUntil = u_locked r,
      User_PasswordChangeRequired = (u_pwd_change r = 1)\<rparr>"

definition GetUser :: "int \<Rightarrow> sysdb \<Rightarrow> user res \<times> sysdb" where
  "GetUser i s =
     (case read (\<lambda>s. query_row scan_user (find (\<lambda>r. u_id r = i) (t_rows (db_users s)))) s of
        (r, s') \<Rightarrow> (wrap_err ''get user'' r, s'))"

definition GetUserByUsername :: "string \<Rightarrow> sysdb \<Rightarrow> user res \<times> sysdb" where
  "GetUserByUsername name s =
     (case read (\<lambda>s. query_row scan_user
                        (find (\<lambda>r. u_username r = name) (t_rows (db_users s)))) s of
        (r, s') \<Rightarrow> (wrap_err ''get user'' r, s'))"

definition insert_user :: "int \<Rightarrow> string \<Rightarrow> string \<Rightarrow> string \<Rightarrow> sysdb \<Rightarrow> int res \<times> sysdb" where
  "insert_user now name hash role s =
     (if \<exists>r\<in>set (t_rows (db_users s)). u_username r = name
      then (Inl (unique_violation ''users.username''), s)
      else (Inr (t_seq (db_users s) + 1),
            s\<lparr>db_users := tbl_insert
                (\<lambda>i. \<lparr>u_id = i, u_username = name, u_hash = hash, u_role = role, u_created = now,
                      u_locked = None, u_pwd_change = 1\<rparr>) (db_users s)\<rparr>))"

definition CreateUser :: "int \<Rightarrow> string \<Rightarrow> string \<Rightarrow> string \<Rightarrow> sysdb \<Rightarrow> user res \<times> sysdb" where
  "CreateUser now name hash role s =
     (case stmt (insert_user now name hash role) s of
        (Inl e, s') \<Rightarrow> (Inl (Wrap ''create user'' e), s')
      | (Inr i, s') \<Rightarrow> GetUser i s')"

text \<open>The list does not read the password hash.\<close>

definition ListUsers :: "sysdb \<Rightarrow> user list res \<times> sysdb" where
  "ListUsers s =
     (case read (\<lambda>s. Inr (map (\<lambda>r. (scan_user r)\<lparr>User_PasswordHash := []\<rparr>) (t_rows (db_users s)))) s of
        (r, s') \<Rightarrow> (wrap_err ''list users'' r, s'))"

definition update_users :: "(user_row \<Rightarrow> bool) \<Rightarrow> (user_row \<Rightarrow> user_row) \<Rightarrow> sysdb \<Rightarrow> sysdb" where
  "update_users p f s = s\<lparr>db_users := tbl_update p f (db_users s)\<rparr>"

definition LockUser :: "int \<Rightarrow> string \<Rightarrow> int \<Rightarrow> sysdb \<Rightarrow> unit res \<times> sysdb" where
  "LockUser now name duration =
     exec (update_users (\<lambda>r. u_username r = name) (\<lambda>r. r\<lparr>u_locked := Some (now + duration)\<rparr>))"

definition UnlockUser :: "string \<Rightarrow> sysdb \<Rightarrow> unit res \<times> sysdb" where
  "UnlockUser name = exec (update_users (\<lambda>r. u_username r = name) (\<lambda>r. r\<lparr>u_locked := None\<rparr>))"

definition UpdateUserRole :: "int \<Rightarrow> string \<Rightarrow> sysdb \<Rightarrow> unit res \<times> sysdb" where
  "UpdateUserRole i role = exec (update_users (\<lambda>r. u_id r = i) (\<lambda>r. r\<lparr>u_role := role\<rparr>))"

definition UpdateUsername :: "int \<Rightarrow> string \<Rightarrow> sysdb \<Rightarrow> unit res \<times> sysdb" where
  "UpdateUsername i name = stmt (\<lambda>s.
     if (\<exists>r\<in>set (t_rows (db_users s)). u_id r = i) \<and>
        (\<exists>r\<in>set (t_rows (db_users s)). u_id r \<noteq> i \<and> u_username r = name)
     then (Inl (unique_violation ''users.username''), s)
     else (Inr (), update_users (\<lambda>r. u_id r = i) (\<lambda>r. r\<lparr>u_username := name\<rparr>) s))"

definition UpdateUserPassword :: "int \<Rightarrow> string \<Rightarrow> sysdb \<Rightarrow> unit res \<times> sysdb" where
  "UpdateUserPassword i hash =
     exec (update_users (\<lambda>r. u_id r = i) (\<lambda>r. r\<lparr>u_hash := hash, u_pwd_change := 0\<rparr>))"

definition SetPasswordChangeRequired :: "int \<Rightarrow> bool \<Rightarrow> sysdb \<Rightarrow> unit res \<times> sysdb" where
  "SetPasswordChangeRequired i required =
     (let val = (if required then 1 else 0)
      in exec (update_users (\<lambda>r. u_id r = i) (\<lambda>r. r\<lparr>u_pwd_change := val\<rparr>)))"

definition DeleteUser :: "int \<Rightarrow> sysdb \<Rightarrow> unit res \<times> sysdb" where
  "DeleteUser i = exec (\<lambda>s. s\<lparr>db_users := tbl_delete (\<lambda>r. u_id r = i) (db_users s)\<rparr>)"

section \<open>API keys\<close>

definition CreateAPIKey ::
  "int \<Rightarrow> int \<Rightarrow> string \<Rightarrow> string \<Rightarrow> string \<Rightarrow> int option \<Rightarrow> string \<Rightarrow> sysdb \<Rightarrow> unit res \<times> sysdb" where
  "CreateAPIKey now userID keyHash name pfx expiresAt encryptedKey =
     exec (\<lambda>s. s\<lparr>db_keys := tbl_insert
       (\<lambda>i. \<lparr>k_id = i, k_user = userID, k_hash = keyHash, k_name = name, k_prefix = pfx,
             k_created = now, k_expires = expiresAt, k_encrypted = encryptedKey\<rparr>) (db_keys s)\<rparr>)"

definition scan_key :: "key_row \<Rightarrow> api_key" where
  "scan_key r =
     \<lparr>Key_ID = k_id r, Key_UserID = k_user r, Key_Name = k_name r, Key_Prefix = k_prefix r,
      Key_CreatedAt = k_created r, Key_ExpiresAt = k_expires r, Key_EncryptedKey = k_encrypted r\<rparr>"

definition GetAPIKey :: "int \<Rightarrow> sysdb \<Rightarrow> api_key res \<times> sysdb" where
  "GetAPIKey i s =
     (case read (\<lambda>s. query_row scan_key (find (\<lambda>r. k_id r = i) (t_rows (db_keys s)))) s of
        (r, s') \<Rightarrow> (wrap_err ''get api key'' r, s'))"

text \<open>\<open>ORDER BY created_at DESC\<close>; SQL leaves the order of equal times open, here it is by id.\<close>

definition ListAPIKeys :: "sysdb \<Rightarrow> api_key list res \<times> sysdb" where
  "ListAPIKeys s =
     (case read (\<lambda>s. Inr (map scan_key (sort_key (\<lambda>r. - k_created r) (t_rows (db_keys s))))) s of
        (r, s') \<Rightarrow> (wrap_err ''list api keys'' r, s'))"

definition DeleteAPIKey :: "int \<Rightarrow> sysdb \<Rightarrow> unit res \<times> sysdb" where
  "DeleteAPIKey i = exec (\<lambda>s. s\<lparr>db_keys := tbl_delete (\<lambda>r. k_id r = i) (db_keys s)\<rparr>)"

text \<open>
  The join of keys and users. How SQLite orders the stored text of an expiry against
  \<open>datetime('now')\<close> depends on how the driver writes times: \<open>later t now\<close> is a parameter.
\<close>

definition key_matches :: "(int \<Rightarrow> int \<Rightarrow> bool) \<Rightarrow> int \<Rightarrow> string \<Rightarrow> key_row \<Rightarrow> bool" where
  "key_matches later now keyHash k \<longleftrightarrow>
     k_hash k = keyHash \<and> (case k_expires k of None \<Rightarrow> True | Some t \<Rightarrow> later t now)"

definition join_keys :: "key_row list \<Rightarrow> user_row list \<Rightarrow> (key_row \<times> user_row) list" where
  "join_keys ks us = concat (map (\<lambda>k. map (\<lambda>u. (k, u)) (filter (\<lambda>u. k_user k = u_id u) us)) ks)"

text \<open>The query does not select \<open>password_change_required\<close>, so that field stays false.\<close>

definition FindUserByAPIKey ::
  "(int \<Rightarrow> int \<Rightarrow> bool) \<Rightarrow> int \<Rightarrow> string \<Rightarrow> sysdb \<Rightarrow> user res \<times> sysdb" where
  "FindUserByAPIKey later now keyHash s =
     (case read (\<lambda>s. query_row (\<lambda>(k, u). (scan_user u)\<lparr>User_PasswordChangeRequired := False\<rparr>)
                       (find (\<lambda>(k, u). key_matches later now keyHash k)
                         (join_keys (t_rows (db_keys s)) (t_rows (db_users s))))) s of
        (r, s') \<Rightarrow> (wrap_err ''find by api key'' r, s'))"

section \<open>Sessions\<close>

definition CreateSession :: "int \<Rightarrow> string \<Rightarrow> int \<Rightarrow> sysdb \<Rightarrow> unit res \<times> sysdb" where
  "CreateSession userID tokenHash expiresAt = stmt (\<lambda>s.
     if \<exists>r\<in>set (t_rows (db_sessions s)). ss_token r = tokenHash
     then (Inl (unique_violation ''sessions.token''), s)
     else (Inr (), s\<lparr>db_sessions := tbl_insert
            (\<lambda>i. \<lparr>ss_id = i, ss_user = userID, ss_token = tokenHash, ss_expires = expiresAt\<rparr>)
            (db_sessions s)\<rparr>))"

definition ValidateSession ::
  "(int \<Rightarrow> int \<Rightarrow> bool) \<Rightarrow> int \<Rightarrow> string \<Rightarrow> sysdb \<Rightarrow> int res \<times> sysdb" where
  "ValidateSession later now tokenHash s =
     (case read (\<lambda>s. query_row ss_user
                       (find (\<lambda>r. ss_token r = tokenHash \<and> later (ss_expires r) now)
                         (t_rows (db_sessions s)))) s of
        (r, s') \<Rightarrow> (wrap_err ''invalid session'' r, s'))"

definition DeleteSession :: "string \<Rightarrow> sysdb \<Rightarrow> unit res \<times> sysdb" where
  "DeleteSession tokenHash =
     exec (\<lambda>s. s\<lparr>db_sessions := tbl_delete (\<lambda>r. ss_token r = tokenHash) (db_sessions s)\<rparr>)"

section \<open>Replication log and state\<close>

definition LogReplication :: "int \<Rightarrow> string \<Rightarrow> string \<Rightarrow> sysdb \<Rightarrow> int res \<times> sysdb" where
  "LogReplication now database query s =
     (case stmt (\<lambda>s. (Inr (t_seq (db_repl s) + 1),
                     s\<lparr>db_repl := tbl_insert
                       (\<lambda>i. \<lparr>re_id = i, re_database = database, re_query = query, re_executed = now\<rparr>)
                       (db_repl s)\<rparr>)) s of
        (r, s') \<Rightarrow> (wrap_err ''log replication'' r, s'))"

text \<open>\<open>WHERE id > since ORDER BY id ASC LIMIT limit\<close>; a negative limit is none in SQLite.\<close>

definition repl_page :: "int \<Rightarrow> int \<Rightarrow> repl_entry list \<Rightarrow> repl_entry list" where
  "repl_page since limit es =
     (let hits = filter (\<lambda>e. since < re_id e) es
      in if limit < 0 then hits else take (nat limit) hits)"

definition GetReplicationLog :: "int \<Rightarrow> int \<Rightarrow> sysdb \<Rightarrow> repl_entry list res \<times> sysdb" where
  "GetReplicationLog since limit s =
     (case read (\<lambda>s. Inr (repl_page since limit (t_rows (db_repl s)))) s of
        (r, s') \<Rightarrow> (wrap_err ''get replication log'' r, s'))"

definition GetReplicationState :: "sysdb \<Rightarrow> repl_state res \<times> sysdb" where
  "GetReplicationState s =
     (case read (\<lambda>s. query_row id (db_repl_state s)) s of
        (Inr st, s') \<Rightarrow> (Inr st, s')
      | (Inl e, s') \<Rightarrow>
          if e = ErrNoRows
          then (Inr \<lparr>rs_role = ''standalone'', rs_primary = [], rs_last_applied = 0, rs_updated = 0\<rparr>, s')
          else (Inl (Wrap ''get replication state'' e), s'))"

definition InitReplicationState :: "int \<Rightarrow> string \<Rightarrow> string \<Rightarrow> sysdb \<Rightarrow> unit res \<times> sysdb" where
  "InitReplicationState now role primaryURL =
     exec (\<lambda>s. s\<lparr>db_repl_state := Some (case db_repl_state s of
         None \<Rightarrow> \<lparr>rs_role = role, rs_primary = primaryURL, rs_last_applied = 0, rs_updated = now\<rparr>
       | Some st \<Rightarrow> st\<lparr>rs_role := role, rs_primary := primaryURL, rs_updated := now\<rparr>)\<rparr>)"

definition UpdateReplicationAppliedID :: "int \<Rightarrow> int \<Rightarrow> sysdb \<Rightarrow> unit res \<times> sysdb" where
  "UpdateReplicationAppliedID now i =
     exec (\<lambda>s. s\<lparr>db_repl_state :=
       map_option (\<lambda>st. st\<lparr>rs_last_applied := i, rs_updated := now\<rparr>) (db_repl_state s)\<rparr>)"

definition CleanReplicationLog :: "int \<Rightarrow> sysdb \<Rightarrow> unit res \<times> sysdb" where
  "CleanReplicationLog beforeID =
     exec (\<lambda>s. s\<lparr>db_repl := tbl_delete (\<lambda>r. re_id r \<le> beforeID) (db_repl s)\<rparr>)"

section \<open>Reading the audit log\<close>

definition GetAuditLogs :: "int \<Rightarrow> sysdb \<Rightarrow> audit_row list res \<times> sysdb" where
  "GetAuditLogs limit s =
     (let limit = (if limit \<le> 0 then 100 else limit) in
      case read (\<lambda>s. Inr (take (nat limit)
                  (sort_key (\<lambda>r. - al_timestamp r) (t_rows (db_audit s))))) s of
        (r, s') \<Rightarrow> (wrap_err ''get audit logs'' r, s'))"

end
