(* ===== verification/SystemDbInv.thy ===== *)
theory SystemDbInv
  imports SystemDb
begin

text \<open>
  The invariant of the system database, its preservation by every method (one rule per method,
  collected in \<open>inv_rules\<close>), the step relation of all methods, and what follows for every
  reachable state: keys are unique, and the id of a deleted user is never used again.
\<close>

section \<open>Statements of a healthy engine\<close>

lemma stmt_healthy [simp]: "db_faults s = [] \<Longrightarrow> stmt f s = f s"
  by (simp add: stmt_def)

lemma read_healthy [simp]: "db_faults s = [] \<Longrightarrow> read q s = (q s, s)"
  by (simp add: read_def)

lemma exec_healthy [simp]: "db_faults s = [] \<Longrightarrow> exec f s = (Inr (), f s)"
  by (simp add: exec_def)

text \<open>
  A failing statement changes nothing but the script; a succeeding one acts on the state with
  the script moved on.
\<close>

lemma stmt_split:
  "P (stmt f s) \<longleftrightarrow>
     (db_faults s = [] \<longrightarrow> P (f s)) \<and>
     (\<forall>fs. db_faults s = None # fs \<longrightarrow> P (f (s\<lparr>db_faults := fs\<rparr>))) \<and>
     (\<forall>e fs. db_faults s = Some e # fs \<longrightarrow> P (Inl e, s\<lparr>db_faults := fs\<rparr>))"
  by (auto simp: stmt_def split: list.splits option.splits)

lemma snd_read_drop: "\<exists>n. snd (read q s) = s\<lparr>db_faults := drop n (db_faults s)\<rparr>"
proof (cases "db_faults s")
  case Nil
  then have "snd (read q s) = s\<lparr>db_faults := drop 0 (db_faults s)\<rparr>" by simp
  then show ?thesis ..
next
  case (Cons f fs)
  then have "snd (read q s) = s\<lparr>db_faults := drop 1 (db_faults s)\<rparr>"
    by (cases f) (simp_all add: read_def stmt_def)
  then show ?thesis ..
qed

lemma snd_read: "\<exists>fs. snd (read q s) = s\<lparr>db_faults := fs\<rparr>"
  using snd_read_drop by blast

text \<open>A part of the state that neither the effect nor the script touches.\<close>

lemma stmt_frame:
  assumes "\<And>s. g (snd (f s)) = g s" and "\<And>s fs. g (s\<lparr>db_faults := fs\<rparr>) = g s"
  shows "g (snd (stmt f s)) = g s"
  using assms by (simp add: stmt_def split: list.split option.split)

lemma exec_frame:
  assumes "\<And>s. g (f s) = g s" and "\<And>s fs. g (s\<lparr>db_faults := fs\<rparr>) = g s"
  shows "g (snd (exec f s)) = g s"
  unfolding exec_def by (rule stmt_frame) (simp_all add: assms)

section \<open>The invariant\<close>

definition sysdb_ok :: "sysdb \<Rightarrow> bool" where
  "sysdb_ok s \<longleftrightarrow>
     tbl_ok u_id (db_users s) \<and> tbl_ok k_id (db_keys s) \<and> tbl_ok ss_id (db_sessions s) \<and>
     tbl_ok al_id (db_audit s) \<and> tbl_ok re_id (db_repl s) \<and>
     distinct (map u_username (t_rows (db_users s))) \<and>
     distinct (map ss_token (t_rows (db_sessions s))) \<and>
     (\<forall>k\<in>set (t_rows (db_keys s)). k_user k \<le> t_seq (db_users s)) \<and>
     (\<forall>x\<in>set (t_rows (db_sessions s)). ss_user x \<le> t_seq (db_users s))"

lemma sysdb_ok_frame [simp]:
  "sysdb_ok (s\<lparr>db_faults := fs\<rparr>) = sysdb_ok s"
  "sysdb_ok (s\<lparr>db_repl_state := st\<rparr>) = sysdb_ok s"
  "sysdb_ok (s\<lparr>audit_ch := ch\<rparr>) = sysdb_ok s"
  "sysdb_ok (s\<lparr>audit_closed := b\<rparr>) = sysdb_ok s"
  "sysdb_ok (s\<lparr>audit_done := b\<rparr>) = sysdb_ok s"
  "sysdb_ok (s\<lparr>audit_flushed := ns\<rparr>) = sysdb_ok s"
  by (simp_all add: sysdb_ok_def)

lemma sysdb_ok_empty [simp]: "sysdb_ok empty_sysdb"
  by (simp add: sysdb_ok_def empty_sysdb_def)

lemma stmt_inv:
  assumes "\<And>s. sysdb_ok s \<Longrightarrow> sysdb_ok (snd (f s))" and "sysdb_ok s"
  shows "sysdb_ok (snd (stmt f s))"
  using assms by (auto split: stmt_split)

lemma read_inv [simp]: "sysdb_ok (snd (read q s)) = sysdb_ok s"
  using snd_read [of q s] by auto

lemma exec_inv: "(\<And>s. sysdb_ok s \<Longrightarrow> sysdb_ok (f s)) \<Longrightarrow> sysdb_ok s \<Longrightarrow> sysdb_ok (snd (exec f s))"
  unfolding exec_def by (rule stmt_inv) auto

text \<open>Updates of user rows that keep ids and user names.\<close>

lemma update_users_ok:
  assumes "sysdb_ok s" and "\<And>r. u_id (f r) = u_id r" and "\<And>r. u_username (f r) = u_username r"
  shows "sysdb_ok (update_users p f s)"
proof -
  have "map u_username (update_where p f (t_rows (db_users s))) = map u_username (t_rows (db_users s))"
    using assms(3) by (intro map_update_where) simp
  with assms show ?thesis by (auto simp: sysdb_ok_def update_users_def)
qed

lemma insert_user_ok:
  assumes "sysdb_ok s"
  shows "sysdb_ok (snd (insert_user now name hash role s))"
  using assms by (fastforce simp: sysdb_ok_def insert_user_def)

text \<open>Renaming the row of one id to a name no other row has.\<close>

lemma distinct_rename:
  assumes "distinct (map u_username rs)" and "distinct (map u_id rs)"
    and "\<forall>r\<in>set rs. u_id r \<noteq> i \<longrightarrow> u_username r \<noteq> name"
  shows "distinct (map u_username (update_where (\<lambda>r. u_id r = i) (\<lambda>r. r\<lparr>u_username := name\<rparr>) rs))"
  using assms
proof (induction rs)
  case (Cons r rs)
  show ?case
  proof (cases "u_id r = i")
    case True
    then have "update_where (\<lambda>r. u_id r = i) (\<lambda>r. r\<lparr>u_username := name\<rparr>) rs = rs"
      using Cons.prems by (intro update_where_none) (auto simp: image_iff)
    moreover have "\<forall>x\<in>set rs. u_username x \<noteq> name"
      using True Cons.prems by (metis distinct.simps(2) image_eqI list.set_intros(2) list.set_map list.simps(9))
    ultimately show ?thesis using True Cons.prems by (auto simp: update_where_def)
  next
    case False
    with Cons show ?thesis by (auto simp: update_where_def split: if_splits)
  qed
qed (simp add: update_where_def)

lemma rename_ok:
  assumes "sysdb_ok s"
    and "\<forall>r\<in>set (t_rows (db_users s)). u_id r \<noteq> i \<longrightarrow> u_username r \<noteq> name"
  shows "sysdb_ok (update_users (\<lambda>r. u_id r = i) (\<lambda>r. r\<lparr>u_username := name\<rparr>) s)"
  using assms distinct_rename [of "t_rows (db_users s)" i name] tbl_ok_distinct [of u_id "db_users s"]
  by (auto simp: sysdb_ok_def update_users_def)

lemma update_nobody:
  "\<forall>r\<in>set (t_rows (db_users s)). u_id r \<noteq> i \<Longrightarrow> update_users (\<lambda>r. u_id r = i) f s = s"
proof -
  assume "\<forall>r\<in>set (t_rows (db_users s)). u_id r \<noteq> i"
  then have "update_where (\<lambda>r. u_id r = i) f (t_rows (db_users s)) = t_rows (db_users s)"
    by (rule update_where_none)
  then show ?thesis by (simp add: update_users_def tbl_update_def)
qed

section \<open>Every method preserves the invariant\<close>

lemma query_methods_ok [simp]:
  "sysdb_ok (snd (GetUser i s)) = sysdb_ok s"
  "sysdb_ok (snd (GetUserByUsername name s)) = sysdb_ok s"
  "sysdb_ok (snd (ListUsers s)) = sysdb_ok s"
  "sysdb_ok (snd (GetAPIKey i s)) = sysdb_ok s"
  "sysdb_ok (snd (ListAPIKeys s)) = sysdb_ok s"
  "sysdb_ok (snd (FindUserByAPIKey later now h s)) = sysdb_ok s"
  "sysdb_ok (snd (ValidateSession later now h s)) = sysdb_ok s"
  "sysdb_ok (snd (GetReplicationLog since limit s)) = sysdb_ok s"
  "sysdb_ok (snd (GetReplicationState s)) = sysdb_ok s"
  "sysdb_ok (snd (GetAuditLogs limit s)) = sysdb_ok s"
  by (simp_all add: GetUser_def GetUserByUsername_def ListUsers_def GetAPIKey_def ListAPIKeys_def
      FindUserByAPIKey_def ValidateSession_def GetReplicationLog_def GetReplicationState_def
      GetAuditLogs_def case_prod_beta split: sum.split)

lemma CreateUser_ok [inv_rules]: "sysdb_ok s \<Longrightarrow> sysdb_ok (snd (CreateUser now name hash role s))"
proof -
  assume "sysdb_ok s"
  then have "sysdb_ok (snd (stmt (insert_user now name hash role) s))"
    by (intro stmt_inv insert_user_ok)
  then show ?thesis
    by (simp add: CreateUser_def case_prod_beta split: sum.split)
qed

lemma LockUser_ok [inv_rules]: "sysdb_ok s \<Longrightarrow> sysdb_ok (snd (LockUser now name d s))"
  unfolding LockUser_def by (rule exec_inv) (auto intro: update_users_ok)

lemma UnlockUser_ok [inv_rules]: "sysdb_ok s \<Longrightarrow> sysdb_ok (snd (UnlockUser name s))"
  unfolding UnlockUser_def by (rule exec_inv) (auto intro: update_users_ok)

lemma UpdateUserRole_ok [inv_rules]: "sysdb_ok s \<Longrightarrow> sysdb_ok (snd (UpdateUserRole i role s))"
  unfolding UpdateUserRole_def by (rule exec_inv) (auto intro: update_users_ok)

lemma UpdateUsername_ok [inv_rules]: "sysdb_ok s \<Longrightarrow> sysdb_ok (snd (UpdateUsername i name s))"
  unfolding UpdateUsername_def
proof (rule stmt_inv)
  fix s
  assume ok: "sysdb_ok s"
  show "sysdb_ok (snd (if (\<exists>r\<in>set (t_rows (db_users s)). u_id r = i) \<and>
         (\<exists>r\<in>set (t_rows (db_users s)). u_id r \<noteq> i \<and> u_username r = name)
       then (Inl (unique_violation ''users.username''), s)
       else (Inr (), update_users (\<lambda>r. u_id r = i) (\<lambda>r. r\<lparr>u_username := name\<rparr>) s)))"
    using ok rename_ok [OF ok, of i name] update_nobody [of s i]
    by (auto split: if_splits)
qed

lemma UpdateUserPassword_ok [inv_rules]: "sysdb_ok s \<Longrightarrow> sysdb_ok (snd (UpdateUserPassword i h s))"
  unfolding UpdateUserPassword_def by (rule exec_inv) (auto intro: update_users_ok)

lemma SetPasswordChangeRequired_ok [inv_rules]:
  "sysdb_ok s \<Longrightarrow> sysdb_ok (snd (SetPasswordChangeRequired i b s))"
  unfolding SetPasswordChangeRequired_def Let_def by (rule exec_inv) (auto intro: update_users_ok)

lemma DeleteUser_ok [inv_rules]: "sysdb_ok s \<Longrightarrow> sysdb_ok (snd (DeleteUser i s))"
  unfolding DeleteUser_def
  by (rule exec_inv) (auto simp: sysdb_ok_def delete_where_def distinct_map_filter)

lemma CreateAPIKey_ok [inv_rules]:
  assumes "sysdb_ok s" and "u \<le> t_seq (db_users s)"
  shows "sysdb_ok (snd (CreateAPIKey now u h n p ex enc s))"
  using assms by (auto simp: CreateAPIKey_def exec_def sysdb_ok_def split: stmt_split)

lemma DeleteAPIKey_ok [inv_rules]: "sysdb_ok s \<Longrightarrow> sysdb_ok (snd (DeleteAPIKey i s))"
  unfolding DeleteAPIKey_def by (rule exec_inv) (auto simp: sysdb_ok_def)

lemma CreateSession_ok [inv_rules]:
  assumes "sysdb_ok s" and "u \<le> t_seq (db_users s)"
  shows "sysdb_ok (snd (CreateSession u h ex s))"
  using assms by (auto simp: CreateSession_def sysdb_ok_def split: stmt_split)

lemma DeleteSession_ok [inv_rules]: "sysdb_ok s \<Longrightarrow> sysdb_ok (snd (DeleteSession h s))"
  unfolding DeleteSession_def
  by (rule exec_inv) (auto simp: sysdb_ok_def delete_where_def distinct_map_filter)

lemma LogReplication_ok [inv_rules]: "sysdb_ok s \<Longrightarrow> sysdb_ok (snd (LogReplication now d q s))"
  by (auto simp: LogReplication_def sysdb_ok_def case_prod_beta split: stmt_split)

lemma InitReplicationState_ok [inv_rules]:
  "sysdb_ok s \<Longrightarrow> sysdb_ok (snd (InitReplicationState now role url s))"
  unfolding InitReplicationState_def by (rule exec_inv) auto

lemma UpdateReplicationAppliedID_ok [inv_rules]:
  "sysdb_ok s \<Longrightarrow> sysdb_ok (snd (UpdateReplicationAppliedID now i s))"
  unfolding UpdateReplicationAppliedID_def by (rule exec_inv) auto

lemma CleanReplicationLog_ok [inv_rules]: "sysdb_ok s \<Longrightarrow> sysdb_ok (snd (CleanReplicationLog i s))"
  unfolding CleanReplicationLog_def by (rule exec_inv) (auto simp: sysdb_ok_def)

section \<open>All methods as steps\<close>

text \<open>
  One rule per method that can change the database. The user ids that the server passes to
  \<open>CreateAPIKey\<close> and \<open>CreateSession\<close> come from rows of the table, so they are at most the
  counter; the rules say so. Queries move the engine's script on and are one rule.
\<close>

inductive sysdb_step :: "sysdb \<Rightarrow> sysdb \<Rightarrow> bool" where
  create_user: "sysdb_step s (snd (CreateUser now name hash role s))"
| lock_user: "sysdb_step s (snd (LockUser now name d s))"
| unlock_user: "sysdb_step s (snd (UnlockUser name s))"
| update_role: "sysdb_step s (snd (UpdateUserRole i role s))"
| update_name: "sysdb_step s (snd (UpdateUsername i name s))"
| update_password: "sysdb_step s (snd (UpdateUserPassword i hash s))"
| set_change_required: "sysdb_step s (snd (SetPasswordChangeRequired i b s))"
| delete_user: "sysdb_step s (snd (DeleteUser i s))"
| create_key: "u \<le> t_seq (db_users s) \<Longrightarrow> sysdb_step s (snd (CreateAPIKey now u h n p ex enc s))"
| delete_key: "sysdb_step s (snd (DeleteAPIKey i s))"
| create_session: "u \<le> t_seq (db_users s) \<Longrightarrow> sysdb_step s (snd (CreateSession u h ex s))"
| delete_session: "sysdb_step s (snd (DeleteSession h s))"
| log_replication: "sysdb_step s (snd (LogReplication now d q s))"
| init_replication: "sysdb_step s (snd (InitReplicationState now role url s))"
| update_applied: "sysdb_step s (snd (UpdateReplicationAppliedID now i s))"
| clean_replication: "sysdb_step s (snd (CleanReplicationLog i s))"
| query: "sysdb_step s (s\<lparr>db_faults := drop n (db_faults s)\<rparr>)"

lemma sysdb_step_ok: "sysdb_step s s' \<Longrightarrow> sysdb_ok s \<Longrightarrow> sysdb_ok s'"
  by (induction rule: sysdb_step.induct) (auto intro: inv_rules)

text \<open>What a step does to the ids of the user table, the key table and the replication log.\<close>

definition ids_of :: "('r \<Rightarrow> int) \<Rightarrow> 'r tbl \<Rightarrow> int set" where
  "ids_of key t = key ` set (t_rows t)"

definition ids_grow :: "('r \<Rightarrow> int) \<Rightarrow> 'r tbl \<Rightarrow> 'r tbl \<Rightarrow> bool" where
  "ids_grow key t t' \<longleftrightarrow> ids_of key t' \<subseteq> ids_of key t \<union> {i. t_seq t < i} \<and> t_seq t \<le> t_seq t'"

lemma ids_grow_rules [simp]:
  "ids_grow key t t"
  "(\<And>i. key (mk i) = i) \<Longrightarrow> ids_grow key t (tbl_insert mk t)"
  "(\<And>r. key (f r) = key r) \<Longrightarrow> ids_grow key t (tbl_update p f t)"
  "ids_grow key t (tbl_delete p t)"
  by (auto simp: ids_grow_def ids_of_def set_update_where)

lemmas mutator_defs =
  LockUser_def UnlockUser_def UpdateUserRole_def UpdateUsername_def UpdateUserPassword_def
  SetPasswordChangeRequired_def DeleteUser_def CreateAPIKey_def DeleteAPIKey_def
  CreateSession_def DeleteSession_def LogReplication_def InitReplicationState_def
  UpdateReplicationAppliedID_def CleanReplicationLog_def update_users_def exec_def Let_def

text \<open>A method that ends with a query ends in the state of the query, which only moved the script.\<close>

lemma snd_GetUser: "\<exists>fs. snd (GetUser i s) = s\<lparr>db_faults := fs\<rparr>"
  using snd_read by (simp add: GetUser_def case_prod_beta)

lemma insert_user_tables:
  "ids_grow u_id (db_users s) (db_users (snd (stmt (insert_user now name hash role) s)))"
  "db_keys (snd (stmt (insert_user now name hash role) s)) = db_keys s"
  "db_repl (snd (stmt (insert_user now name hash role) s)) = db_repl s"
  by (auto simp: insert_user_def split: stmt_split)

lemma CreateUser_tables:
  "ids_grow u_id (db_users s) (db_users (snd (CreateUser now name hash role s)))"
  "db_keys (snd (CreateUser now name hash role s)) = db_keys s"
  "db_repl (snd (CreateUser now name hash role s)) = db_repl s"
proof -
  have "\<exists>s1 fs. snd (CreateUser now name hash role s) = s1\<lparr>db_faults := fs\<rparr> \<and>
      ids_grow u_id (db_users s) (db_users s1) \<and> db_keys s1 = db_keys s \<and> db_repl s1 = db_repl s"
  proof (cases "stmt (insert_user now name hash role) s")
    case (Pair r s1)
    have tables: "ids_grow u_id (db_users s) (db_users s1)" "db_keys s1 = db_keys s"
      "db_repl s1 = db_repl s"
      using insert_user_tables [where s = s and now = now and name = name and hash = hash and role = role]
        Pair by simp_all
    show ?thesis
    proof (cases r)
      case (Inl e)
      have "snd (CreateUser now name hash role s) = s1\<lparr>db_faults := db_faults s1\<rparr>"
        using Pair Inl by (simp add: CreateUser_def)
      then show ?thesis using tables by blast
    next
      case (Inr i)
      obtain fs where "snd (GetUser i s1) = s1\<lparr>db_faults := fs\<rparr>"
        using snd_GetUser by blast
      then show ?thesis using Pair Inr tables by (auto simp: CreateUser_def)
    qed
  qed
  then show "ids_grow u_id (db_users s) (db_users (snd (CreateUser now name hash role s)))"
    "db_keys (snd (CreateUser now name hash role s)) = db_keys s"
    "db_repl (snd (CreateUser now name hash role s)) = db_repl s"
    by auto
qed

lemma step_user_ids: "sysdb_step s s' \<Longrightarrow> ids_grow u_id (db_users s) (db_users s')"
  by (induction rule: sysdb_step.induct)
    (auto simp: CreateUser_tables mutator_defs case_prod_beta split: stmt_split)

lemma step_key_ids: "sysdb_step s s' \<Longrightarrow> ids_grow k_id (db_keys s) (db_keys s')"
  by (induction rule: sysdb_step.induct)
    (auto simp: CreateUser_tables mutator_defs case_prod_beta split: stmt_split)

lemma step_repl_ids: "sysdb_step s s' \<Longrightarrow> ids_grow re_id (db_repl s) (db_repl s')"
  by (induction rule: sysdb_step.induct)
    (auto simp: CreateUser_tables mutator_defs case_prod_beta split: stmt_split)

interpretation user_ids:
  id_source sysdb_step "\<lambda>s. ids_of u_id (db_users s)" "\<lambda>s. t_seq (db_users s)" sysdb_ok
  by unfold_locales
    (auto simp: sysdb_ok_def tbl_ok_def ids_of_def dest: sysdb_step_ok step_user_ids
      [unfolded ids_grow_def ids_of_def])

interpretation key_ids:
  id_source sysdb_step "\<lambda>s. ids_of k_id (db_keys s)" "\<lambda>s. t_seq (db_keys s)" sysdb_ok
  by unfold_locales
    (auto simp: sysdb_ok_def tbl_ok_def ids_of_def dest: sysdb_step_ok step_key_ids
      [unfolded ids_grow_def ids_of_def])

interpretation repl_ids:
  id_source sysdb_step "\<lambda>s. ids_of re_id (db_repl s)" "\<lambda>s. t_seq (db_repl s)" sysdb_ok
  by unfold_locales
    (auto simp: sysdb_ok_def tbl_ok_def ids_of_def dest: sysdb_step_ok step_repl_ids
      [unfolded ids_grow_def ids_of_def])

end
