(* ===== verification/Tokens.thy ===== *)
theory Tokens
  imports Password SystemDbInv
begin

text \<open>
  The three kinds of credentials of \<open>internal/auth\<close>: API keys (\<open>apikey.go\<close>), server-side sessions
  (\<open>session.go\<close>) and JWTs (\<open>jwt.go\<close>). The cryptographic primitives and the JWT library are
  parameters, collected in one record; hypotheses about them are stated where they are used.
  Bytes from \<open>rand.Read\<close> are arguments, \<open>None\<close> where it fails.
\<close>

section \<open>Cryptographic primitives\<close>

record claims =
  cl_user_id :: int
  cl_username :: string
  cl_role :: string
  cl_expires :: int
  cl_issued :: int
  cl_issuer :: string

text \<open>The family of a token's signing method, as the key function tests it.\<close>

datatype jwt_alg = SigningMethodHMAC | OtherMethod string

text \<open>
  \<open>cr_seal key nonce plaintext\<close> and \<open>cr_open key nonce ciphertext\<close> are AES-GCM under a key,
  \<open>cr_sign\<close> is \<open>SignedString\<close> with HS256, and \<open>cr_parse keyfunc token now\<close> is
  \<open>jwt.ParseWithClaims\<close>, with the claims and the token's \<open>Valid\<close> field as its result.
\<close>

record crypto =
  cr_kdf :: kdf
  cr_sha256 :: "string \<Rightarrow> string"
  cr_seal :: "string \<Rightarrow> string \<Rightarrow> string \<Rightarrow> string"
  cr_open :: "string \<Rightarrow> string \<Rightarrow> string \<Rightarrow> string option"
  cr_sign :: "string \<Rightarrow> claims \<Rightarrow> string res"
  cr_parse :: "(jwt_alg \<Rightarrow> string res) \<Rightarrow> string \<Rightarrow> int \<Rightarrow> (claims \<times> bool) res"

definition second :: int where "second = 10 ^ 9"
definition minute :: int where "minute = 60 * second"
definition hour :: int where "hour = 60 * minute"

section \<open>API keys\<close>

definition APIKey_Hash :: "crypto \<Rightarrow> string \<Rightarrow> string" where
  "APIKey_Hash c rawKey = hex_encode (cr_sha256 c rawKey)"

definition APIKey_Generate :: "crypto \<Rightarrow> string option \<Rightarrow> (string \<times> string) res" where
  "APIKey_Generate c rnd =
     (case rnd of
        None \<Rightarrow> Inl (Wrap ''generate key'' (Err ''rand''))
      | Some bytes \<Rightarrow>
          let rawKey = ''vl_'' @ hex_encode bytes;
              hashedKey = hex_encode (cr_sha256 c rawKey)
          in Inr (rawKey, hashedKey))"

definition APIKey_Validate :: "crypto \<Rightarrow> string \<Rightarrow> string \<Rightarrow> bool" where
  "APIKey_Validate c rawKey hashedKey \<longleftrightarrow> APIKey_Hash c rawKey = hashedKey"

section \<open>JWTs\<close>

record jwt_manager =
  jm_secret :: string
  jm_duration :: int

text \<open>An empty secret is replaced by a random one; the constructor panics when there is none.\<close>

definition NewJWTManager :: "string option \<Rightarrow> string \<Rightarrow> int \<Rightarrow> jwt_manager res" where
  "NewJWTManager rnd secret duration =
     (case (if secret = [] then map_option hex_encode rnd else Some secret) of
        None \<Rightarrow> Inl (Panic ''failed to generate JWT secret: rand'')
      | Some sec \<Rightarrow>
          Inr \<lparr>jm_secret = sec, jm_duration = (if duration = 0 then 24 * hour else duration)\<rparr>)"

text \<open>\<open>jwt.NewNumericDate\<close> keeps whole seconds.\<close>

definition numeric_date :: "int \<Rightarrow> int" where
  "numeric_date t = t - t mod second"

definition jwt_claims :: "jwt_manager \<Rightarrow> int \<Rightarrow> int \<Rightarrow> string \<Rightarrow> string \<Rightarrow> claims" where
  "jwt_claims m now userID username role =
     \<lparr>cl_user_id = userID, cl_username = username, cl_role = role,
      cl_expires = numeric_date (now + jm_duration m), cl_issued = numeric_date now,
      cl_issuer = ''sparkdb''\<rparr>"

definition JWT_Generate ::
  "crypto \<Rightarrow> jwt_manager \<Rightarrow> int \<Rightarrow> int \<Rightarrow> string \<Rightarrow> string \<Rightarrow> string res" where
  "JWT_Generate c m now userID username role =
     wrap_err ''sign token'' (cr_sign c (jm_secret m) (jwt_claims m now userID username role))"

text \<open>The key function: only HMAC methods are given the secret.\<close>

definition jwt_keyfunc :: "jwt_manager \<Rightarrow> jwt_alg \<Rightarrow> string res" where
  "jwt_keyfunc m alg =
     (case alg of
        SigningMethodHMAC \<Rightarrow> Inr (jm_secret m)
      | OtherMethod a \<Rightarrow> Inl (Err (''unexpected signing method: '' @ a)))"

definition JWT_Validate :: "crypto \<Rightarrow> jwt_manager \<Rightarrow> int \<Rightarrow> string \<Rightarrow> claims res" where
  "JWT_Validate c m now tokenString =
     (case cr_parse c (jwt_keyfunc m) tokenString now of
        Inl e \<Rightarrow> Inl (Wrap ''parse token'' e)
      | Inr (claims, valid) \<Rightarrow> if \<not> valid then Inl (Err ''invalid token'') else Inr claims)"

section \<open>Sessions\<close>

text \<open>
  The Go interface \<open>SessionStore\<close> as a record of operations on a state of any type; the
  session manager is written against it.
\<close>

record 's session_ops =
  op_create :: "int \<Rightarrow> string \<Rightarrow> int \<Rightarrow> 's \<Rightarrow> unit res \<times> 's"
  op_validate :: "int \<Rightarrow> string \<Rightarrow> 's \<Rightarrow> int res \<times> 's"
  op_delete :: "string \<Rightarrow> 's \<Rightarrow> unit res \<times> 's"

record 's session_manager =
  sm_store :: "'s session_ops"
  sm_duration :: int

definition NewSessionManager :: "'s session_ops \<Rightarrow> int \<Rightarrow> 's session_manager" where
  "NewSessionManager store duration =
     \<lparr>sm_store = store, sm_duration = (if duration = 0 then 24 * hour else duration)\<rparr>"

definition token_hash :: "crypto \<Rightarrow> string \<Rightarrow> string" where
  "token_hash c rawToken = hex_encode (cr_sha256 c rawToken)"

definition Session_Generate ::
  "crypto \<Rightarrow> 's session_manager \<Rightarrow> string option \<Rightarrow> int \<Rightarrow> int \<Rightarrow> 's \<Rightarrow> (string \<times> int) res \<times> 's" where
  "Session_Generate c m rnd now userID s =
     (case rnd of
        None \<Rightarrow> (Inl (Wrap ''generate token'' (Err ''rand'')), s)
      | Some bytes \<Rightarrow>
          let rawToken = hex_encode bytes; expiresAt = now + sm_duration m in
          case op_create (sm_store m) userID (token_hash c rawToken) expiresAt s of
            (Inl e, s') \<Rightarrow> (Inl (Wrap ''store session'' e), s')
          | (Inr _, s') \<Rightarrow> (Inr (rawToken, expiresAt), s'))"

definition Session_Validate ::
  "crypto \<Rightarrow> 's session_manager \<Rightarrow> int \<Rightarrow> string \<Rightarrow> 's \<Rightarrow> int res \<times> 's" where
  "Session_Validate c m now rawToken = op_validate (sm_store m) now (token_hash c rawToken)"

definition Session_Invalidate ::
  "crypto \<Rightarrow> 's session_manager \<Rightarrow> string \<Rightarrow> 's \<Rightarrow> unit res \<times> 's" where
  "Session_Invalidate c m rawToken = op_delete (sm_store m) (token_hash c rawToken)"

text \<open>
  The contract of a session store: a created session validates as its user while its expiry is
  later than the clock, and a deleted one does not validate. \<open>good\<close> is the store's invariant.
\<close>

locale session_store =
  fixes store :: "'s session_ops"
    and later :: "int \<Rightarrow> int \<Rightarrow> bool"
    and good :: "'s \<Rightarrow> bool"
  assumes create_valid: "good s \<Longrightarrow> op_create store u h e s = (Inr (), s') \<Longrightarrow>
          fst (op_validate store now h s') = Inr u \<longleftrightarrow> later e now"
    and create_good: "good s \<Longrightarrow> op_create store u h e s = (r, s') \<Longrightarrow> good s'"
    and delete_invalid: "good s \<Longrightarrow> op_delete store h s = (Inr (), s') \<Longrightarrow>
          fst (op_validate store now h s') \<noteq> Inr u"
    and delete_good: "good s \<Longrightarrow> op_delete store h s = (r, s') \<Longrightarrow> good s'"
begin

lemma generate_then_validate:
  assumes "sm_store m = store" and "good s"
    and "Session_Generate c m rnd t u s = (Inr (tok, e), s')"
  shows "e = t + sm_duration m \<and> good s' \<and>
         (fst (Session_Validate c m now tok s') = Inr u \<longleftrightarrow> later e now)"
  using assms
  by (auto simp: Session_Generate_def Session_Validate_def Let_def create_valid
      split: option.splits prod.splits sum.splits dest: create_good)

lemma invalidate_then_validate:
  assumes "sm_store m = store" and "good s" and "Session_Invalidate c m tok s = (Inr (), s')"
  shows "fst (Session_Validate c m now tok s') \<noteq> Inr u"
  using assms by (auto simp: Session_Invalidate_def Session_Validate_def dest: delete_invalid)

end

text \<open>The system database as a session store.\<close>

definition sysdb_sessions :: "(int \<Rightarrow> int \<Rightarrow> bool) \<Rightarrow> sysdb session_ops" where
  "sysdb_sessions later =
     \<lparr>op_create = CreateSession, op_validate = ValidateSession later, op_delete = DeleteSession\<rparr>"

lemma find_appended_token:
  assumes "\<forall>r\<in>set rs. ss_token r \<noteq> h"
  shows "find (\<lambda>r. ss_token r = h \<and> later (ss_expires r) now) (rs @ [x]) =
     (if ss_token x = h \<and> later (ss_expires x) now then Some x else None)"
proof -
  have "find (\<lambda>r. ss_token r = h \<and> later (ss_expires r) now) rs = None"
    using assms by (auto simp: find_None_iff)
  then show ?thesis by (simp add: find_append)
qed

lemma ValidateSession_healthy:
  "db_faults s = [] \<Longrightarrow> ValidateSession later now h s =
     (wrap_err ''invalid session'' (query_row ss_user
        (find (\<lambda>r. ss_token r = h \<and> later (ss_expires r) now) (t_rows (db_sessions s)))), s)"
  by (simp add: ValidateSession_def)

lemma DeleteSession_healthy:
  "db_faults s = [] \<Longrightarrow> DeleteSession h s =
     (Inr (), s\<lparr>db_sessions := tbl_delete (\<lambda>r. ss_token r = h) (db_sessions s)\<rparr>)"
  by (simp add: DeleteSession_def)

lemma no_deleted_token:
  "find (\<lambda>r. ss_token r = h \<and> p r) (delete_where (\<lambda>r. ss_token r = h) rs) = None"
  by (auto simp: find_None_iff)

interpretation sess: session_store "sysdb_sessions later" later "\<lambda>s. db_faults s = []"
proof
  fix s s' :: sysdb and u e now :: int and h :: string
  assume "db_faults s = []" and "op_create (sysdb_sessions later) u h e s = (Inr (), s')"
  then show "fst (op_validate (sysdb_sessions later) now h s') = Inr u \<longleftrightarrow> later e now"
    by (auto simp: sysdb_sessions_def CreateSession_def ValidateSession_healthy
        find_appended_token query_row_def split: if_splits)
next
  fix s s' :: sysdb and u e :: int and h :: string and r
  assume "db_faults s = []" and "op_create (sysdb_sessions later) u h e s = (r, s')"
  then show "db_faults s' = []"
    by (auto simp: sysdb_sessions_def CreateSession_def split: if_splits)
next
  fix s s' :: sysdb and u now :: int and h :: string
  assume "db_faults s = []" and "op_delete (sysdb_sessions later) h s = (Inr (), s')"
  then show "fst (op_validate (sysdb_sessions later) now h s') \<noteq> Inr u"
    by (auto simp: sysdb_sessions_def DeleteSession_healthy ValidateSession_healthy
        no_deleted_token query_row_def)
next
  fix s s' :: sysdb and h :: string and r
  assume "db_faults s = []" and "op_delete (sysdb_sessions later) h s = (r, s')"
  then show "db_faults s' = []"
    by (auto simp: sysdb_sessions_def DeleteSession_healthy)
qed

end
