(* ===== verification/RateLimit.thy ===== *)
theory RateLimit
  imports Prelude
begin

text \<open>
  The two in-memory limiters: the sliding-window \<open>RateLimiter\<close> of \<open>internal/query/validator.go\<close>
  that guards every request, and the \<open>LoginRateLimiter\<close> of \<open>internal/auth/password.go\<close> that locks a
  user name after repeated failures. Each holds a mutex over its whole body, so an operation is
  one atomic step on the limiter's state. The clock reading \<open>time.Now()\<close> is an argument; times
  and durations are integers in nanoseconds. Go's clock is monotonic within a process, which
  the theorems about runs state as a sorted list of times.
\<close>

section \<open>The interface of a window limiter\<close>

text \<open>
  What a client of a limiter relies on: a call is admitted exactly while fewer than \<open>lim\<close> calls
  of its key are counted, an admitted call is counted, a refused one is not, and other keys are
  not affected. From this follows what a burst of calls at one instant is granted.
\<close>

locale window_limiter =
  fixes allow :: "int \<Rightarrow> 'k \<Rightarrow> 's \<Rightarrow> bool \<times> 's"
    and used :: "int \<Rightarrow> 'k \<Rightarrow> 's \<Rightarrow> nat"
    and lim :: "'s \<Rightarrow> int"
    and good :: "'s \<Rightarrow> bool"
  assumes allow_iff: "fst (allow now k s) \<longleftrightarrow> int (used now k s) < lim s"
    and used_admitted: "good s \<Longrightarrow> fst (allow now k s) \<Longrightarrow>
          used now k (snd (allow now k s)) = Suc (used now k s)"
    and used_refused: "\<not> fst (allow now k s) \<Longrightarrow> used now k (snd (allow now k s)) = used now k s"
    and used_other: "k' \<noteq> k \<Longrightarrow> used now' k' (snd (allow now k s)) = used now' k' s"
    and lim_allow: "lim (snd (allow now k s)) = lim s"
    and good_allow: "good s \<Longrightarrow> good (snd (allow now k s))"
begin

text \<open>The answers to \<open>n\<close> calls of one key at one instant.\<close>

fun burst :: "nat \<Rightarrow> int \<Rightarrow> 'k \<Rightarrow> 's \<Rightarrow> bool list" where
  "burst 0 now k s = []"
| "burst (Suc n) now k s = fst (allow now k s) # burst n now k (snd (allow now k s))"

lemma burst_refused:
  "lim s \<le> int (used now k s) \<Longrightarrow> burst n now k s = replicate n False"
proof (induction n arbitrary: s)
  case (Suc n)
  then have no: "\<not> fst (allow now k s)" by (simp add: allow_iff)
  then have "lim (snd (allow now k s)) \<le> int (used now k (snd (allow now k s)))"
    using Suc.prems by (simp add: used_refused lim_allow)
  with Suc.IH no show ?case by simp
qed simp

lemma burst_grants:
  assumes "good s" and "m = nat (lim s - int (used now k s))"
  shows "burst n now k s = replicate (min n m) True @ replicate (n - m) False"
  using assms
proof (induction n arbitrary: s m)
  case (Suc n)
  show ?case
  proof (cases "fst (allow now k s)")
    case True
    let ?s = "snd (allow now k s)"
    have m: "m = Suc (nat (lim ?s - int (used now k ?s)))"
      using True Suc.prems by (simp add: allow_iff used_admitted lim_allow)
    have "burst n now k ?s =
        replicate (min n (m - 1)) True @ replicate (n - (m - 1)) False"
      using Suc.prems m by (intro Suc.IH good_allow) simp_all
    with True m show ?thesis by simp
  next
    case False
    then have "lim s \<le> int (used now k s)" by (simp add: allow_iff)
    with Suc.prems show ?thesis by (simp add: burst_refused del: burst.simps)
  qed
qed simp

end

section \<open>The sliding-window limiter of requests\<close>

record rate_limiter =
  rl_attempts :: "string \<rightharpoonup> int list"
  rl_limit :: int
  rl_window :: int

definition NewRateLimiter :: "int \<Rightarrow> int \<Rightarrow> rate_limiter" where
  "NewRateLimiter limit window =
     \<lparr>rl_attempts = Map.empty, rl_limit = limit, rl_window = window\<rparr>"

text \<open>\<open>r.attempts[key]\<close>: a missing key reads as the empty slice.\<close>

definition rl_entries :: "rate_limiter \<Rightarrow> string \<Rightarrow> int list" where
  "rl_entries r key = (case rl_attempts r key of None \<Rightarrow> [] | Some ts \<Rightarrow> ts)"

definition RateLimiter_Allow :: "int \<Rightarrow> string \<Rightarrow> rate_limiter \<Rightarrow> bool \<times> rate_limiter" where
  "RateLimiter_Allow now key r =
     (let windowStart = now - rl_window r;
          entries = rl_entries r key;
          valid = filter (\<lambda>t. windowStart < t) entries
      in if rl_limit r \<le> int (length valid)
         then (False, r\<lparr>rl_attempts := (rl_attempts r)(key \<mapsto> valid)\<rparr>)
         else (True, r\<lparr>rl_attempts := (rl_attempts r)(key \<mapsto> valid @ [now])\<rparr>))"

definition RateLimiter_Reset :: "string \<Rightarrow> rate_limiter \<Rightarrow> rate_limiter" where
  "RateLimiter_Reset key r = r\<lparr>rl_attempts := (rl_attempts r)(key := None)\<rparr>"

text \<open>The calls of a key that count at a time: those inside the window that ends there.\<close>

definition rl_used :: "int \<Rightarrow> string \<Rightarrow> rate_limiter \<Rightarrow> nat" where
  "rl_used now key r = length (filter (\<lambda>t. now - rl_window r < t) (rl_entries r key))"

lemma Allow_config [simp]:
  "rl_limit (snd (RateLimiter_Allow now k r)) = rl_limit r"
  "rl_window (snd (RateLimiter_Allow now k r)) = rl_window r"
  by (simp_all add: RateLimiter_Allow_def Let_def)

lemma Allow_entries:
  "rl_entries (snd (RateLimiter_Allow now k r)) k' =
     (if k' = k
      then filter (\<lambda>t. now - rl_window r < t) (rl_entries r k)
           @ (if fst (RateLimiter_Allow now k r) then [now] else [])
      else rl_entries r k')"
  by (simp add: RateLimiter_Allow_def rl_entries_def Let_def)

lemma Allow_iff_used:
  "fst (RateLimiter_Allow now k r) \<longleftrightarrow> int (rl_used now k r) < rl_limit r"
  by (simp add: RateLimiter_Allow_def rl_used_def Let_def)

interpretation rl: window_limiter RateLimiter_Allow rl_used rl_limit "\<lambda>r. 0 < rl_window r"
  by unfold_locales (simp_all add: Allow_iff_used rl_used_def Allow_entries)

section \<open>The limiter against a log of everything it admitted\<close>

text \<open>
  The limiter forgets a time once it has left the window of some call. The specification keeps
  the whole log of admitted calls and counts in it; on a monotonic clock both answer alike.
\<close>

type_synonym call = "int \<times> string"

definition log_count :: "int \<Rightarrow> int \<Rightarrow> string \<Rightarrow> call list \<Rightarrow> nat" where
  "log_count lo hi key hist = length (filter (\<lambda>(t, k). k = key \<and> lo < t \<and> t \<le> hi) hist)"

definition spec_allow :: "int \<Rightarrow> int \<Rightarrow> call list \<Rightarrow> call \<Rightarrow> bool" where
  "spec_allow limit window hist c =
     (int (log_count (fst c - window) (fst c) (snd c) hist) < limit)"

fun spec_run :: "int \<Rightarrow> int \<Rightarrow> call list \<Rightarrow> call list \<Rightarrow> bool list \<times> call list" where
  "spec_run limit window hist [] = ([], hist)"
| "spec_run limit window hist (c # cs) =
     (let b = spec_allow limit window hist c;
          (bs, h) = spec_run limit window (if b then hist @ [c] else hist) cs
      in (b # bs, h))"

fun allow_run :: "rate_limiter \<Rightarrow> call list \<Rightarrow> bool list" where
  "allow_run r [] = []"
| "allow_run r ((now, key) # cs) =
     fst (RateLimiter_Allow now key r) # allow_run (snd (RateLimiter_Allow now key r)) cs"

text \<open>From \<open>now\<close> on, the limiter's entries and the log hold the same calls of every window.\<close>

definition log_times :: "string \<Rightarrow> call list \<Rightarrow> int list" where
  "log_times key hist = map fst (filter (\<lambda>c. snd c = key) hist)"

definition agrees :: "int \<Rightarrow> rate_limiter \<Rightarrow> call list \<Rightarrow> bool" where
  "agrees now r hist \<longleftrightarrow>
     (\<forall>key n. now \<le> n \<longrightarrow>
        filter (\<lambda>t. n - rl_window r < t) (rl_entries r key) =
        filter (\<lambda>t. n - rl_window r < t) (log_times key hist)) \<and>
     (\<forall>c\<in>set hist. fst c \<le> now)"

lemma log_count_times:
  "log_count lo hi key hist = length (filter (\<lambda>t. lo < t \<and> t \<le> hi) (log_times key hist))"
  by (induction hist) (auto simp: log_count_def log_times_def)

lemma log_times_append:
  "log_times key (hist @ [(t, k)]) = log_times key hist @ (if k = key then [t] else [])"
  by (simp add: log_times_def)

lemma log_times_bound: "agrees now r hist \<Longrightarrow> t \<in> set (log_times key hist) \<Longrightarrow> t \<le> now"
  by (auto simp: agrees_def log_times_def)

lemma agrees_used:
  assumes "agrees now r hist" and "now \<le> t"
  shows "rl_used t k r = log_count (t - rl_window r) t k hist"
proof -
  have "\<And>x. x \<in> set (log_times k hist) \<Longrightarrow> x \<le> t"
    using log_times_bound [OF assms(1)] assms(2) by fastforce
  then have "filter (\<lambda>x. t - rl_window r < x \<and> x \<le> t) (log_times k hist) =
      filter (\<lambda>x. t - rl_window r < x) (log_times k hist)"
    by (intro filter_cong) auto
  then show ?thesis
    using assms by (simp add: rl_used_def log_count_times agrees_def)
qed

lemma filter_later_window:
  fixes w :: int
  assumes "t \<le> n"
  shows "filter (\<lambda>x. t - w < x \<and> n - w < x) ts = filter (\<lambda>x. n - w < x) ts"
  using assms by (auto intro: filter_cong)

lemma agrees_step:
  assumes "agrees now r hist" and "now \<le> t"
  shows "agrees t (snd (RateLimiter_Allow t k r))
           (if fst (RateLimiter_Allow t k r) then hist @ [(t, k)] else hist)"
  using assms
  by (auto simp: agrees_def Allow_entries log_times_append filter_later_window)

lemma allow_run_spec:
  assumes "agrees now r hist" and "sorted (now # map fst cs)"
  shows "allow_run r cs = fst (spec_run (rl_limit r) (rl_window r) hist cs)"
  using assms
proof (induction cs arbitrary: now r hist)
  case (Cons c cs)
  obtain t k where c: "c = (t, k)" by (cases c)
  with Cons.prems have le: "now \<le> t" and srt: "sorted (t # map fst cs)" by auto
  have b: "fst (RateLimiter_Allow t k r) = spec_allow (rl_limit r) (rl_window r) hist (t, k)"
    by (simp add: Allow_iff_used spec_allow_def agrees_used [OF Cons.prems(1) le])
  show ?case
    using Cons.IH [OF agrees_step [OF Cons.prems(1) le] srt] c b
    by (simp add: Let_def split: prod.splits)
qed simp

lemma agrees_new: "agrees now (NewRateLimiter limit window) []"
  by (simp add: agrees_def NewRateLimiter_def rl_entries_def log_times_def)

text \<open>
  The log never holds more than \<open>limit\<close> calls of a key inside a window, wherever the window
  ends; so no more are ever admitted.
\<close>

definition log_bounded :: "int \<Rightarrow> int \<Rightarrow> call list \<Rightarrow> bool" where
  "log_bounded limit window hist \<longleftrightarrow>
     (\<forall>key x. int (log_count (x - window) x key hist) \<le> limit)"

lemma log_count_append:
  "log_count lo hi key (hist @ [(t, k)]) =
     log_count lo hi key hist + (if k = key \<and> lo < t \<and> t \<le> hi then 1 else 0)"
  by (simp add: log_count_def)

lemma log_count_mono:
  "(\<And>t. t \<in> set (log_times key hist) \<Longrightarrow> lo < t \<and> t \<le> hi \<Longrightarrow> lo' < t \<and> t \<le> hi') \<Longrightarrow>
     log_count lo hi key hist \<le> log_count lo' hi' key hist"
  unfolding log_count_times by (rule length_filter_mono) blast

lemma log_bounded_step:
  assumes "log_bounded limit window hist" and "\<forall>c\<in>set hist. fst c \<le> t"
    and "spec_allow limit window hist (t, k)"
  shows "log_bounded limit window (hist @ [(t, k)])"
  unfolding log_bounded_def
proof (intro allI)
  fix key x
  show "int (log_count (x - window) x key (hist @ [(t, k)])) \<le> limit"
  proof (cases "k = key \<and> x - window < t \<and> t \<le> x")
    case True
    have "log_count (x - window) x key hist \<le> log_count (t - window) t key hist"
    proof (rule log_count_mono)
      fix y
      assume "y \<in> set (log_times key hist)" and "x - window < y \<and> y \<le> x"
      then show "t - window < y \<and> y \<le> t"
        using True assms(2) by (auto simp: log_times_def)
    qed
    with True assms(3) show ?thesis
      by (simp add: log_count_append spec_allow_def)
  next
    case False
    with assms(1) show ?thesis
      by (auto simp: log_count_append log_bounded_def)
  qed
qed

lemma spec_run_bounded:
  assumes "log_bounded limit window hist" and "\<forall>c\<in>set hist. fst c \<le> now"
    and "sorted (now # map fst cs)"
  shows "log_bounded limit window (snd (spec_run limit window hist cs))"
  using assms
proof (induction cs arbitrary: now hist)
  case (Cons c cs)
  obtain t k where c: "c = (t, k)" by (cases c)
  let ?h = "if spec_allow limit window hist c then hist @ [c] else hist"
  from Cons.prems c have old: "\<forall>c\<in>set hist. fst c \<le> t" by fastforce
  have "log_bounded limit window ?h"
    using log_bounded_step [OF Cons.prems(1) old] Cons.prems(1) c by simp
  moreover have "\<forall>c\<in>set ?h. fst c \<le> t" using old c by auto
  ultimately have "log_bounded limit window (snd (spec_run limit window ?h cs))"
    using Cons.prems(3) c by (intro Cons.IH) auto
  then show ?case by (simp add: Let_def case_prod_beta)
qed simp

section \<open>The login limiter\<close>

record login_attempt =
  la_count :: int
  la_first_fail :: int

record login_limiter =
  ll_attempts :: "string \<rightharpoonup> login_attempt"
  ll_limit :: int
  ll_lockout :: int

definition NewLoginRateLimiter :: "int \<Rightarrow> int \<Rightarrow> login_limiter" where
  "NewLoginRateLimiter limit lockout =
     \<lparr>ll_attempts = Map.empty, ll_limit = limit, ll_lockout = lockout\<rparr>"

definition IsLocked :: "int \<Rightarrow> string \<Rightarrow> login_limiter \<Rightarrow> bool \<times> login_limiter" where
  "IsLocked now key l =
     (case ll_attempts l key of
        None \<Rightarrow> (False, l)
      | Some a \<Rightarrow>
          if ll_lockout l < now - la_first_fail a
          then (False, l\<lparr>ll_attempts := (ll_attempts l)(key := None)\<rparr>)
          else (ll_limit l \<le> la_count a, l))"

definition RecordFail :: "int \<Rightarrow> string \<Rightarrow> login_limiter \<Rightarrow> login_limiter" where
  "RecordFail now key l =
     (case ll_attempts l key of
        None \<Rightarrow> l\<lparr>ll_attempts := (ll_attempts l)(key \<mapsto> \<lparr>la_count = 1, la_first_fail = now\<rparr>)\<rparr>
      | Some a \<Rightarrow>
          if ll_lockout l < now - la_first_fail a
          then l\<lparr>ll_attempts := (ll_attempts l)(key \<mapsto> \<lparr>la_count = 1, la_first_fail = now\<rparr>)\<rparr>
          else l\<lparr>ll_attempts := (ll_attempts l)(key \<mapsto> a\<lparr>la_count := la_count a + 1\<rparr>)\<rparr>)"

definition LoginLimiter_Reset :: "string \<Rightarrow> login_limiter \<Rightarrow> login_limiter" where
  "LoginLimiter_Reset key l = l\<lparr>ll_attempts := (ll_attempts l)(key := None)\<rparr>"

lemmas login_limiter_defs = IsLocked_def RecordFail_def LoginLimiter_Reset_def

lemma login_limiter_config [simp]:
  "ll_limit (snd (IsLocked now key l)) = ll_limit l"
  "ll_lockout (snd (IsLocked now key l)) = ll_lockout l"
  "ll_limit (RecordFail now key l) = ll_limit l"
  "ll_lockout (RecordFail now key l) = ll_lockout l"
  "ll_limit (LoginLimiter_Reset key l) = ll_limit l"
  "ll_lockout (LoginLimiter_Reset key l) = ll_lockout l"
  by (simp_all add: login_limiter_defs split: option.splits)

lemma login_limiter_other [simp]:
  assumes "k \<noteq> key"
  shows "ll_attempts (snd (IsLocked now key l)) k = ll_attempts l k"
    and "ll_attempts (RecordFail now key l) k = ll_attempts l k"
    and "ll_attempts (LoginLimiter_Reset key l) k = ll_attempts l k"
  using assms by (simp_all add: login_limiter_defs split: option.splits)

text \<open>A name is locked at most until the lockout time after the first failure counted.\<close>

lemma IsLocked_iff:
  "fst (IsLocked now key l) \<longleftrightarrow>
     (\<exists>a. ll_attempts l key = Some a \<and> ll_limit l \<le> la_count a \<and>
          now \<le> la_first_fail a + ll_lockout l)"
  by (auto simp: IsLocked_def split: option.splits)

text \<open>A guarded attempt that fails: refused while locked, otherwise evaluated and recorded.\<close>

definition failing_attempt :: "int \<Rightarrow> string \<Rightarrow> login_limiter \<Rightarrow> bool \<times> login_limiter" where
  "failing_attempt now key l =
     (case IsLocked now key l of
        (True, l') \<Rightarrow> (False, l')
      | (False, l') \<Rightarrow> (True, RecordFail now key l'))"

fun failing_run :: "string \<Rightarrow> login_limiter \<Rightarrow> int list \<Rightarrow> bool list" where
  "failing_run key l [] = []"
| "failing_run key l (t # ts) =
     fst (failing_attempt t key l) # failing_run key (snd (failing_attempt t key l)) ts"

lemma failing_attempt_config [simp]:
  "ll_limit (snd (failing_attempt t key l)) = ll_limit l"
  "ll_lockout (snd (failing_attempt t key l)) = ll_lockout l"
  by (simp_all add: failing_attempt_def split: prod.splits bool.splits)
    (metis login_limiter_config snd_conv)+

text \<open>Inside the lockout time after the first failure: the attempts left are those below the limit.\<close>

lemma failing_run_within:
  assumes "ll_attempts l key = Some a" and "\<forall>t\<in>set ts. t \<le> la_first_fail a + ll_lockout l"
    and "m = nat (ll_limit l - la_count a)"
  shows "failing_run key l ts =
     replicate (min (length ts) m) True @ replicate (length ts - m) False"
  using assms
proof (induction ts arbitrary: l a m)
  case (Cons t ts)
  show ?case
  proof (cases "ll_limit l \<le> la_count a")
    case True
    with Cons.prems have "failing_attempt t key l = (False, l)"
      by (simp add: failing_attempt_def IsLocked_def)
    with Cons.IH [of l a m] Cons.prems True show ?thesis by simp
  next
    case False
    let ?a = "a\<lparr>la_count := la_count a + 1\<rparr>"
    let ?l = "l\<lparr>ll_attempts := (ll_attempts l)(key \<mapsto> ?a)\<rparr>"
    have step: "failing_attempt t key l = (True, ?l)"
      using Cons.prems False by (simp add: failing_attempt_def IsLocked_def RecordFail_def)
    have m: "m = Suc (nat (ll_limit ?l - la_count ?a))"
      using Cons.prems False by simp
    have "failing_run key ?l ts =
        replicate (min (length ts) (m - 1)) True @ replicate (length ts - (m - 1)) False"
      using Cons.prems m by (intro Cons.IH [of ?l ?a]) simp_all
    with step m show ?thesis by simp
  qed
qed simp

lemma failing_run_fresh:
  assumes "ll_attempts l key = None" and "1 \<le> ll_limit l"
    and "\<forall>t\<in>set ts. t0 \<le> t \<and> t \<le> t0 + ll_lockout l"
  shows "failing_run key l (t0 # ts) =
     replicate (min (Suc (length ts)) (nat (ll_limit l))) True
     @ replicate (Suc (length ts) - nat (ll_limit l)) False"
proof -
  let ?l = "l\<lparr>ll_attempts := (ll_attempts l)(key \<mapsto> \<lparr>la_count = 1, la_first_fail = t0\<rparr>)\<rparr>"
  have step: "failing_attempt t0 key l = (True, ?l)"
    using assms(1) by (simp add: failing_attempt_def IsLocked_def RecordFail_def)
  have "failing_run key ?l ts =
      replicate (min (length ts) (nat (ll_limit ?l - 1))) True
      @ replicate (length ts - nat (ll_limit ?l - 1)) False"
    using assms(3) by (intro failing_run_within [of ?l key "\<lparr>la_count = 1, la_first_fail = t0\<rparr>"]) simp_all
  moreover have "nat (ll_limit l) = Suc (nat (ll_limit l - 1))" using assms(2) by simp
  ultimately show ?thesis using step by simp
qed

text \<open>
  The limiter after a run of failures: enough of them leave the name locked until the lockout
  time after the first one has passed.
\<close>

fun failing_after :: "string \<Rightarrow> login_limiter \<Rightarrow> int list \<Rightarrow> login_limiter" where
  "failing_after key l [] = l"
| "failing_after key l (t # ts) = failing_after key (snd (failing_attempt t key l)) ts"

lemma failing_after_within:
  assumes "ll_attempts l key = Some a" and "\<forall>t\<in>set ts. t \<le> la_first_fail a + ll_lockout l"
    and "la_count a \<le> ll_limit l"
  shows "\<exists>b. ll_attempts (failing_after key l ts) key = Some b \<and> la_first_fail b = la_first_fail a \<and>
     la_count b = min (ll_limit l) (la_count a + int (length ts)) \<and>
     ll_limit (failing_after key l ts) = ll_limit l \<and>
     ll_lockout (failing_after key l ts) = ll_lockout l"
  using assms
proof (induction ts arbitrary: l a)
  case Nil
  then show ?case by auto
next
  case (Cons t ts)
  show ?case
  proof (cases "ll_limit l \<le> la_count a")
    case True
    with Cons.prems have "failing_attempt t key l = (False, l)"
      by (simp add: failing_attempt_def IsLocked_def)
    with Cons.IH [of l a] Cons.prems True show ?thesis by simp
  next
    case False
    let ?a = "a\<lparr>la_count := la_count a + 1\<rparr>"
    let ?l = "l\<lparr>ll_attempts := (ll_attempts l)(key \<mapsto> ?a)\<rparr>"
    have "failing_attempt t key l = (True, ?l)"
      using Cons.prems False by (simp add: failing_attempt_def IsLocked_def RecordFail_def)
    with Cons.IH [of ?l ?a] Cons.prems False show ?thesis by (simp add: ac_simps)
  qed
qed

lemma failing_after_locked:
  assumes "ll_attempts l key = None" and "1 \<le> ll_limit l"
    and "\<forall>t\<in>set ts. t \<le> t0 + ll_lockout l" and "ll_limit l \<le> 1 + int (length ts)"
    and "now \<le> t0 + ll_lockout l"
  shows "fst (IsLocked now key (failing_after key l (t0 # ts)))"
proof -
  let ?a = "\<lparr>la_count = 1, la_first_fail = t0\<rparr>"
  let ?l = "l\<lparr>ll_attempts := (ll_attempts l)(key \<mapsto> ?a)\<rparr>"
  have "failing_attempt t0 key l = (True, ?l)"
    using assms(1) by (simp add: failing_attempt_def IsLocked_def RecordFail_def)
  with failing_after_within [of ?l key ?a ts] assms(2-) show ?thesis
    by (auto simp: IsLocked_iff)
qed

end
