(* ===== verification/Authenticator.thy ===== *)
theory Authenticator
  imports Tokens RateLimit
begin

text \<open>
  The authenticator, \<open>internal/auth/auth.go\<close>: login with its lockout, authentication of a
  request by API key, JWT or session, the management of users and passwords, and API keys that
  are stored encrypted and can be revealed. Its state is a record with the managers, the login
  limiter and the system database it shares with the server; every operation returns the state
  it leaves. One clock reading \<open>now\<close> stands for the readings of one call.
\<close>

section \<open>State\<close>

datatype auth_type = AuthTypeJWT | AuthTypeAPIKey | AuthTypeSession

record AuthUser =
  AU_ID :: int
  AU_Username :: string
  AU_Role :: string
  AU_AuthType :: auth_type

record authenticator =
  a_jwt :: jwt_manager
  a_session :: "sysdb session_manager"
  a_limiter :: login_limiter
  a_db :: sysdb

record authenticator_config =
  cfg_JWTSecret :: string
  cfg_SessionTTL :: int
  cfg_LoginLimit :: int
  cfg_LockoutTime :: int

record login_response =
  lr_Token :: string
  lr_TokenType :: string
  lr_User :: AuthUser
  lr_PasswordChangeRequired :: bool

text \<open>What the code uses of its surroundings: the primitives and SQLite's order of stored times.\<close>

record auth_env =
  en_crypto :: crypto
  en_later :: "int \<Rightarrow> int \<Rightarrow> bool"

definition NewAuthenticator ::
  "auth_env \<Rightarrow> string option \<Rightarrow> authenticator_config \<Rightarrow> sysdb \<Rightarrow> authenticator res" where
  "NewAuthenticator e rnd cfg db =
     (let limit = (if cfg_LoginLimit cfg = 0 then 5 else cfg_LoginLimit cfg);
          lockout = (if cfg_LockoutTime cfg = 0 then 15 * minute else cfg_LockoutTime cfg)
      in case NewJWTManager rnd (cfg_JWTSecret cfg) (cfg_SessionTTL cfg) of
           Inl x \<Rightarrow> Inl x
         | Inr jm \<Rightarrow>
             Inr \<lparr>a_jwt = jm,
                  a_session = NewSessionManager (sysdb_sessions (en_later e)) (cfg_SessionTTL cfg),
                  a_limiter = NewLoginRateLimiter limit lockout,
                  a_db = db\<rparr>)"

text \<open>\<open>user.LockedUntil != nil && time.Now().Before(*user.LockedUntil)\<close>.\<close>

definition account_locked :: "int \<Rightarrow> user \<Rightarrow> bool" where
  "account_locked now u = (case User_LockedUntil u of None \<Rightarrow> False | Some t \<Rightarrow> now < t)"

definition auth_user :: "auth_type \<Rightarrow> user \<Rightarrow> AuthUser" where
  "auth_user ty u =
     \<lparr>AU_ID = User_ID u, AU_Username = User_Username u, AU_Role = User_Role u, AU_AuthType = ty\<rparr>"

section \<open>Login\<close>

definition lock_key :: "string \<Rightarrow> string" where
  "lock_key username = ''login:'' @ username"

definition invalid_credentials :: gerr where
  "invalid_credentials = Err ''invalid credentials''"

text \<open>The part of \<open>Login\<close> after the user was found: lock, password, token.\<close>

definition login_user ::
  "auth_env \<Rightarrow> int \<Rightarrow> string \<Rightarrow> string \<Rightarrow> user \<Rightarrow> authenticator \<Rightarrow> login_response res \<times> authenticator" where
  "login_user e now username password user a =
     (let lk = lock_key username;
          failed = a\<lparr>a_limiter := RecordFail now lk (a_limiter a)\<rparr>
      in if account_locked now user then (Inl (Err ''account is locked''), a)
         else case VerifyPassword (cr_kdf (en_crypto e)) password (User_PasswordHash user) of
           Inl (Panic m) \<Rightarrow> (Inl (Panic m), a)
         | Inl _ \<Rightarrow> (Inl invalid_credentials, failed)
         | Inr False \<Rightarrow> (Inl invalid_credentials, failed)
         | Inr True \<Rightarrow>
             let a' = a\<lparr>a_limiter := LoginLimiter_Reset lk (a_limiter a)\<rparr> in
             case JWT_Generate (en_crypto e) (a_jwt a) now (User_ID user) (User_Username user)
                    (User_Role user) of
               Inl x \<Rightarrow> (Inl (Wrap ''generate token'' x), a')
             | Inr token \<Rightarrow>
                 (Inr \<lparr>lr_Token = token, lr_TokenType = ''bearer'',
                       lr_User = auth_user AuthTypeJWT user,
                       lr_PasswordChangeRequired = User_PasswordChangeRequired user\<rparr>, a'))"

definition Login ::
  "auth_env \<Rightarrow> int \<Rightarrow> string \<Rightarrow> string \<Rightarrow> authenticator \<Rightarrow> login_response res \<times> authenticator" where
  "Login e now username password a =
     (let lk = lock_key username in
      case IsLocked now lk (a_limiter a) of
        (locked, l) \<Rightarrow>
          let a1 = a\<lparr>a_limiter := l\<rparr> in
          if locked
          then (Inl (Err ''account temporarily locked due to too many failed attempts''), a1)
          else case GetUserByUsername username (a_db a1) of
            (Inl _, db) \<Rightarrow>
              (Inl invalid_credentials, a1\<lparr>a_db := db, a_limiter := RecordFail now lk l\<rparr>)
          | (Inr user, db) \<Rightarrow> login_user e now username password user (a1\<lparr>a_db := db\<rparr>))"

section \<open>Authentication of requests\<close>

definition authenticateJWT ::
  "auth_env \<Rightarrow> int \<Rightarrow> string \<Rightarrow> authenticator \<Rightarrow> AuthUser res \<times> authenticator" where
  "authenticateJWT e now token a =
     (case JWT_Validate (en_crypto e) (a_jwt a) now token of
        Inl x \<Rightarrow> (Inl (Wrap ''invalid token'' x), a)
      | Inr cl \<Rightarrow>
          (Inr \<lparr>AU_ID = cl_user_id cl, AU_Username = cl_username cl, AU_Role = cl_role cl,
                AU_AuthType = AuthTypeJWT\<rparr>, a))"

definition authenticateAPIKey ::
  "auth_env \<Rightarrow> int \<Rightarrow> string \<Rightarrow> authenticator \<Rightarrow> AuthUser res \<times> authenticator" where
  "authenticateAPIKey e now key a =
     (case FindUserByAPIKey (en_later e) now (APIKey_Hash (en_crypto e) key) (a_db a) of
        (Inl _, db) \<Rightarrow> (Inl (Err ''invalid API key''), a\<lparr>a_db := db\<rparr>)
      | (Inr user, db) \<Rightarrow>
          if account_locked now user then (Inl (Err ''user account is locked''), a\<lparr>a_db := db\<rparr>)
          else (Inr (auth_user AuthTypeAPIKey user), a\<lparr>a_db := db\<rparr>))"

definition authenticateSession ::
  "auth_env \<Rightarrow> int \<Rightarrow> string \<Rightarrow> authenticator \<Rightarrow> AuthUser res \<times> authenticator" where
  "authenticateSession e now token a =
     (case Session_Validate (en_crypto e) (a_session a) now token (a_db a) of
        (Inl x, db) \<Rightarrow> (Inl (Wrap ''invalid session'' x), a\<lparr>a_db := db\<rparr>)
      | (Inr userID, db) \<Rightarrow>
          case GetUser userID db of
            (Inl x, db') \<Rightarrow> (Inl (Wrap ''get user'' x), a\<lparr>a_db := db'\<rparr>)
          | (Inr user, db') \<Rightarrow>
              if account_locked now user
              then (Inl (Err ''user account is locked''), a\<lparr>a_db := db'\<rparr>)
              else (Inr (auth_user AuthTypeSession user), a\<lparr>a_db := db'\<rparr>))"

text \<open>The headers of a request, by \<open>Header.Get\<close>: empty where absent.\<close>

type_synonym headers = "string \<Rightarrow> string"

definition AuthenticateRequest ::
  "auth_env \<Rightarrow> int \<Rightarrow> headers \<Rightarrow> authenticator \<Rightarrow> AuthUser res \<times> authenticator" where
  "AuthenticateRequest e now h a =
     (let authHeader = h ''Authorization''; apiKey = h ''X-API-Key'' in
      if apiKey \<noteq> [] then authenticateAPIKey e now apiKey a
      else if authHeader \<noteq> [] then
        (case split_n2 CHR '' '' authHeader of
           [scheme, cred] \<Rightarrow>
             if to_lower scheme = ''bearer'' then authenticateJWT e now cred a
             else if to_lower scheme = ''session'' then authenticateSession e now cred a
             else (Inl (Err ''unsupported authorization type''), a)
         | _ \<Rightarrow> (Inl (Err ''invalid authorization header''), a))
      else (Inl (Err ''no authentication provided''), a))"

section \<open>Users and passwords\<close>

definition Auth_CreateUser ::
  "auth_env \<Rightarrow> string option \<Rightarrow> int \<Rightarrow> string \<Rightarrow> string \<Rightarrow> string \<Rightarrow> authenticator \<Rightarrow>
   user res \<times> authenticator" where
  "Auth_CreateUser e rnd now username password role a =
     (case ValidatePasswordStrength password of
        Inl x \<Rightarrow> (Inl x, a)
      | Inr _ \<Rightarrow>
          case HashPassword (cr_kdf (en_crypto e)) rnd password of
            Inl x \<Rightarrow> (Inl (Wrap ''hash password'' x), a)
          | Inr hash \<Rightarrow>
              case CreateUser now username hash role (a_db a) of
                (r, db) \<Rightarrow> (r, a\<lparr>a_db := db\<rparr>))"

definition Auth_UpdateUserRole :: "int \<Rightarrow> string \<Rightarrow> authenticator \<Rightarrow> user res \<times> authenticator" where
  "Auth_UpdateUserRole i role a =
     (case UpdateUserRole i role (a_db a) of
        (Inl x, db) \<Rightarrow> (Inl (Wrap ''update role'' x), a\<lparr>a_db := db\<rparr>)
      | (Inr _, db) \<Rightarrow> case GetUser i db of (r, db') \<Rightarrow> (r, a\<lparr>a_db := db'\<rparr>))"

definition Auth_UpdateUsername :: "int \<Rightarrow> string \<Rightarrow> authenticator \<Rightarrow> user res \<times> authenticator" where
  "Auth_UpdateUsername i username a =
     (case UpdateUsername i username (a_db a) of
        (Inl x, db) \<Rightarrow> (Inl (Wrap ''update username'' x), a\<lparr>a_db := db\<rparr>)
      | (Inr _, db) \<Rightarrow> case GetUser i db of (r, db') \<Rightarrow> (r, a\<lparr>a_db := db'\<rparr>))"

definition Auth_UpdateUserPassword ::
  "auth_env \<Rightarrow> string option \<Rightarrow> int \<Rightarrow> string \<Rightarrow> authenticator \<Rightarrow> unit res \<times> authenticator" where
  "Auth_UpdateUserPassword e rnd i password a =
     (case HashPassword (cr_kdf (en_crypto e)) rnd password of
        Inl x \<Rightarrow> (Inl (Wrap ''hash password'' x), a)
      | Inr hash \<Rightarrow>
          case UpdateUserPassword i hash (a_db a) of
            (Inl x, db) \<Rightarrow> (Inl x, a\<lparr>a_db := db\<rparr>)
          | (Inr _, db) \<Rightarrow>
              case SetPasswordChangeRequired i True db of (r, db') \<Rightarrow> (r, a\<lparr>a_db := db'\<rparr>))"

text \<open>\<open>err != nil || !valid\<close> after \<open>VerifyPassword\<close>; a panic goes on unwinding.\<close>

definition ChangeOwnPassword ::
  "auth_env \<Rightarrow> string option \<Rightarrow> int \<Rightarrow> string \<Rightarrow> string \<Rightarrow> authenticator \<Rightarrow> unit res \<times> authenticator" where
  "ChangeOwnPassword e rnd i oldPassword newPassword a =
     (case GetUser i (a_db a) of
        (Inl x, db) \<Rightarrow> (Inl (Wrap ''get user'' x), a\<lparr>a_db := db\<rparr>)
      | (Inr user, db) \<Rightarrow>
          let a1 = a\<lparr>a_db := db\<rparr> in
          case VerifyPassword (cr_kdf (en_crypto e)) oldPassword (User_PasswordHash user) of
            Inl (Panic m) \<Rightarrow> (Inl (Panic m), a1)
          | Inl _ \<Rightarrow> (Inl (Err ''current password is incorrect''), a1)
          | Inr False \<Rightarrow> (Inl (Err ''current password is incorrect''), a1)
          | Inr True \<Rightarrow>
              case ValidatePasswordStrength newPassword of
                Inl x \<Rightarrow> (Inl x, a1)
              | Inr _ \<Rightarrow>
                  case HashPassword (cr_kdf (en_crypto e)) rnd newPassword of
                    Inl x \<Rightarrow> (Inl (Wrap ''hash password'' x), a1)
                  | Inr hash \<Rightarrow>
                      case UpdateUserPassword i hash db of (r, db') \<Rightarrow> (r, a1\<lparr>a_db := db'\<rparr>))"

definition Auth_DeleteUser :: "int \<Rightarrow> authenticator \<Rightarrow> unit res \<times> authenticator" where
  "Auth_DeleteUser i a = (case DeleteUser i (a_db a) of (r, db) \<Rightarrow> (r, a\<lparr>a_db := db\<rparr>))"

definition EnsureDefaultAdmin ::
  "auth_env \<Rightarrow> string option \<Rightarrow> int \<Rightarrow> authenticator \<Rightarrow> unit res \<times> authenticator" where
  "EnsureDefaultAdmin e rnd now a =
     (case GetUserByUsername ''admin'' (a_db a) of
        (Inr _, db) \<Rightarrow> (Inr (), a\<lparr>a_db := db\<rparr>)
      | (Inl _, db) \<Rightarrow>
          case HashPassword (cr_kdf (en_crypto e)) rnd ''admin'' of
            Inl x \<Rightarrow> (Inl (Wrap ''hash default password'' x), a\<lparr>a_db := db\<rparr>)
          | Inr hash \<Rightarrow>
              case CreateUser now ''admin'' hash ''admin'' db of
                (Inl x, db') \<Rightarrow> (Inl x, a\<lparr>a_db := db'\<rparr>)
              | (Inr _, db') \<Rightarrow> (Inr (), a\<lparr>a_db := db'\<rparr>))"

section \<open>Stored API keys\<close>

text \<open>
  The key of AES is the SHA-256 digest of the JWT secret: 32 bytes, which \<open>aes.NewCipher\<close> and
  \<open>cipher.NewGCM\<close> always accept, so their error branches have no counterpart here.
\<close>

definition gcm_NonceSize :: nat where
  "gcm_NonceSize = 12"

definition encryptRawKey :: "auth_env \<Rightarrow> string option \<Rightarrow> string \<Rightarrow> authenticator \<Rightarrow> string res" where
  "encryptRawKey e rnd rawKey a =
     (let key = cr_sha256 (en_crypto e) (jm_secret (a_jwt a)) in
      case rnd of
        None \<Rightarrow> Inl (Wrap ''nonce'' (Err ''rand''))
      | Some nonce \<Rightarrow> Inr (b64_encode (nonce @ cr_seal (en_crypto e) key nonce rawKey)))"

definition decryptRawKey :: "auth_env \<Rightarrow> string \<Rightarrow> authenticator \<Rightarrow> string res" where
  "decryptRawKey e encrypted a =
     (let key = cr_sha256 (en_crypto e) (jm_secret (a_jwt a)) in
      case b64_decode encrypted of
        None \<Rightarrow> Inl (Wrap ''decode'' (Err ''illegal base64 data''))
      | Some data \<Rightarrow>
          if length data < gcm_NonceSize then Inl (Err ''ciphertext too short'')
          else case cr_open (en_crypto e) key (take gcm_NonceSize data) (drop gcm_NonceSize data) of
            None \<Rightarrow> Inl (Wrap ''decrypt'' (Err ''cipher: message authentication failed''))
          | Some plaintext \<Rightarrow> Inr plaintext)"

definition key_prefix :: "string \<Rightarrow> string" where
  "key_prefix rawKey = (if 12 < length rawKey then take 12 rawKey @ ''...'' else rawKey)"

definition GenerateAPIKey ::
  "auth_env \<Rightarrow> string option \<Rightarrow> string option \<Rightarrow> int \<Rightarrow> int \<Rightarrow> string \<Rightarrow> authenticator \<Rightarrow>
   string res \<times> authenticator" where
  "GenerateAPIKey e rnd nonce now userID name a =
     (case APIKey_Generate (en_crypto e) rnd of
        Inl x \<Rightarrow> (Inl (Wrap ''generate API key'' x), a)
      | Inr (rawKey, hashedKey) \<Rightarrow>
          case encryptRawKey e nonce rawKey a of
            Inl x \<Rightarrow> (Inl (Wrap ''encrypt key'' x), a)
          | Inr encryptedKey \<Rightarrow>
              case CreateAPIKey now userID hashedKey name (key_prefix rawKey) None encryptedKey
                     (a_db a) of
                (Inl x, db) \<Rightarrow> (Inl (Wrap ''store API key'' x), a\<lparr>a_db := db\<rparr>)
              | (Inr _, db) \<Rightarrow> (Inr rawKey, a\<lparr>a_db := db\<rparr>))"

definition RevealAPIKey ::
  "auth_env \<Rightarrow> int \<Rightarrow> string \<Rightarrow> authenticator \<Rightarrow> string res \<times> authenticator" where
  "RevealAPIKey e i password a =
     (case GetAPIKey i (a_db a) of
        (Inl x, db) \<Rightarrow> (Inl (Wrap ''get api key'' x), a\<lparr>a_db := db\<rparr>)
      | (Inr key, db) \<Rightarrow>
          if Key_EncryptedKey key = []
          then (Inl (Err ''no encrypted key stored''), a\<lparr>a_db := db\<rparr>)
          else case GetUser (Key_UserID key) db of
            (Inl x, db') \<Rightarrow> (Inl (Wrap ''get user'' x), a\<lparr>a_db := db'\<rparr>)
          | (Inr user, db') \<Rightarrow>
              let a' = a\<lparr>a_db := db'\<rparr> in
              case VerifyPassword (cr_kdf (en_crypto e)) password (User_PasswordHash user) of
                Inl (Panic m) \<Rightarrow> (Inl (Panic m), a')
              | Inl _ \<Rightarrow> (Inl (Err ''invalid password''), a')
              | Inr False \<Rightarrow> (Inl (Err ''invalid password''), a')
              | Inr True \<Rightarrow> (wrap_err ''decrypt key'' (decryptRawKey e (Key_EncryptedKey key) a'), a'))"

end
