(* ===== verification/Credentials.thy ===== *)
theory Credentials
  imports AuthenticatorInv
begin

text \<open>
  The credentials life cycle across the authenticator's operations: what an operation hands out
  (an account with a password, a token, an API key) and what the checking operation then accepts.
  The hypotheses on the third-party primitives are the named predicates below.
\<close>

section \<open>Hypotheses on the primitives\<close>

text \<open>\<open>argon2.IDKey\<close> returns a key of the length asked for.\<close>

definition kdf_length :: "kdf \<Rightarrow> bool" where
  "kdf_length kdf \<longleftrightarrow> (\<forall>pw salt t m th n. length (kdf pw salt t m th n) = n)"

text \<open>GCM opens what it sealed under the same key and nonce.\<close>

definition gcm_opens :: "crypto \<Rightarrow> bool" where
  "gcm_opens c \<longleftrightarrow> (\<forall>key nonce p. length nonce = gcm_NonceSize \<longrightarrow>
     cr_open c key nonce (cr_seal c key nonce p) = Some p)"

text \<open>
  The JWT library accepts a token it signed, with the claims signed, when the key function gives
  HMAC tokens the secret it was signed with and the token is not expired; it refuses it from the
  expiry on.
\<close>

definition jwt_accepts :: "crypto \<Rightarrow> bool" where
  "jwt_accepts c \<longleftrightarrow> (\<forall>secret cl tok keyf now.
     cr_sign c secret cl = Inr tok \<longrightarrow> keyf SigningMethodHMAC = Inr secret \<longrightarrow>
     (now < cl_expires cl \<longrightarrow> cr_parse c keyf tok now = Inr (cl, True)) \<and>
     (cl_expires cl \<le> now \<longrightarrow> (\<exists>x. cr_parse c keyf tok now = Inl x)))"

section \<open>Passwords\<close>

lemma VerifyPassword_hashed:
  assumes "kdf_length kdf" and "HashPassword kdf (Some rnd) pw = Inr h"
  shows "VerifyPassword kdf pw' h =
     Inr (kdf pw (b64_encode rnd) 3 65536 4 32 = kdf pw' (b64_encode rnd) 3 65536 4 32)"
  using assms by (auto simp: HashPassword_Some VerifyPassword_encoded kdf_length_def)

lemma VerifyPassword_own:
  "kdf_length kdf \<Longrightarrow> HashPassword kdf rnd pw = Inr h \<Longrightarrow> VerifyPassword kdf pw h = Inr True"
  by (cases rnd) (auto simp: HashPassword_None VerifyPassword_hashed)

section \<open>Login\<close>

definition stored_user :: "authenticator \<Rightarrow> string \<Rightarrow> user_row \<Rightarrow> bool" where
  "stored_user a u r \<longleftrightarrow> r \<in> set (t_rows (db_users (a_db a))) \<and> u_username r = u"

lemma stored_user_find:
  "sysdb_ok (a_db a) \<Longrightarrow> stored_user a u r \<longleftrightarrow>
     find (\<lambda>x. u_username x = u) (t_rows (db_users (a_db a))) = Some r"
  using find_user_unique(1) [of "a_db a" r] by (auto simp: stored_user_def dest: find_Some_set)

lemma scan_user_simps [simp]:
  "User_ID (scan_user r) = u_id r" "User_Username (scan_user r) = u_username r"
  "User_PasswordHash (scan_user r) = u_hash r" "User_Role (scan_user r) = u_role r"
  "User_LockedUntil (scan_user r) = u_locked r"
  "User_PasswordChangeRequired (scan_user r) = (u_pwd_change r = 1)"
  by (simp_all add: scan_user_def)

lemma login_user_Inr_iff:
  "(\<exists>resp. fst (login_user e now u p user a) = Inr resp) \<longleftrightarrow>
     \<not> account_locked now user \<and>
     VerifyPassword (cr_kdf (en_crypto e)) p (User_PasswordHash user) = Inr True \<and>
     (\<exists>tok. JWT_Generate (en_crypto e) (a_jwt a) now (User_ID user) (User_Username user)
              (User_Role user) = Inr tok)"
  by (auto simp: login_user_def Let_def split: sum.split gerr.split bool.split)

lemma Login_success_iff:
  assumes "sysdb_ok (a_db a)" and "db_faults (a_db a) = []"
  shows "(\<exists>resp. fst (Login e now u p a) = Inr resp) \<longleftrightarrow>
     \<not> fst (IsLocked now (lock_key u) (a_limiter a)) \<and>
     (\<exists>r. stored_user a u r \<and> \<not> account_locked now (scan_user r) \<and>
        VerifyPassword (cr_kdf (en_crypto e)) p (u_hash r) = Inr True \<and>
        (\<exists>tok. JWT_Generate (en_crypto e) (a_jwt a) now (u_id r) u (u_role r) = Inr tok))"
proof (cases "find (\<lambda>x. u_username x = u) (t_rows (db_users (a_db a)))")
  case None
  then show ?thesis
    using assms by (auto simp: Login_def Let_def case_prod_beta stored_user_find)
next
  case (Some r)
  then have "u_username r = u" by (auto dest: find_Some_set)
  with Some show ?thesis
    using assms by (auto simp: Login_def Let_def case_prod_beta stored_user_find login_user_Inr_iff)
qed

lemma Login_response:
  assumes "sysdb_ok (a_db a)" and "db_faults (a_db a) = []"
    and "stored_user a u r" and "\<not> fst (IsLocked now (lock_key u) (a_limiter a))"
    and "\<not> account_locked now (scan_user r)"
    and "VerifyPassword (cr_kdf (en_crypto e)) p (u_hash r) = Inr True"
    and "cr_sign (en_crypto e) (jm_secret (a_jwt a)) (jwt_claims (a_jwt a) now (u_id r) u (u_role r)) = Inr tok"
  shows "fst (Login e now u p a) = Inr
     \<lparr>lr_Token = tok, lr_TokenType = ''bearer'',
      lr_User = \<lparr>AU_ID = u_id r, AU_Username = u, AU_Role = u_role r, AU_AuthType = AuthTypeJWT\<rparr>,
      lr_PasswordChangeRequired = (u_pwd_change r = 1)\<rparr>"
proof -
  have f: "find (\<lambda>x. u_username x = u) (t_rows (db_users (a_db a))) = Some r" and n: "u_username r = u"
    using assms(1,3) by (auto simp: stored_user_find dest: find_Some_set)
  show ?thesis
    using assms(2,4-) f n
    by (auto simp: Login_def login_user_def Let_def case_prod_beta JWT_Generate_def auth_user_def)
qed

lemma Login_Inr_iff:
  assumes "sysdb_ok (a_db a)" and "db_faults (a_db a) = []"
  shows "fst (Login e now u p a) = Inr resp \<longleftrightarrow>
     \<not> fst (IsLocked now (lock_key u) (a_limiter a)) \<and>
     (\<exists>r tok. stored_user a u r \<and> \<not> account_locked now (scan_user r) \<and>
        VerifyPassword (cr_kdf (en_crypto e)) p (u_hash r) = Inr True \<and>
        cr_sign (en_crypto e) (jm_secret (a_jwt a)) (jwt_claims (a_jwt a) now (u_id r) u (u_role r))
          = Inr tok \<and>
        resp = \<lparr>lr_Token = tok, lr_TokenType = ''bearer'',
                lr_User = \<lparr>AU_ID = u_id r, AU_Username = u, AU_Role = u_role r, AU_AuthType = AuthTypeJWT\<rparr>,
                lr_PasswordChangeRequired = (u_pwd_change r = 1)\<rparr>)"
    (is "?l \<longleftrightarrow> ?r")
proof
  assume ?l
  then have "\<exists>resp. fst (Login e now u p a) = Inr resp" ..
  then obtain r tok where "\<not> fst (IsLocked now (lock_key u) (a_limiter a))" and "stored_user a u r"
    and "\<not> account_locked now (scan_user r)"
    and "VerifyPassword (cr_kdf (en_crypto e)) p (u_hash r) = Inr True"
    and "cr_sign (en_crypto e) (jm_secret (a_jwt a)) (jwt_claims (a_jwt a) now (u_id r) u (u_role r))
          = Inr tok"
    unfolding Login_success_iff [OF assms] by (auto simp: JWT_Generate_def)
  with Login_response [OF assms, of u r now e p tok] \<open>?l\<close> show ?r by auto
next
  assume ?r
  then show ?l using Login_response [OF assms, of u _ now e p] by auto
qed

section \<open>Lockout\<close>

text \<open>A password that the code rejects for a user: absent user, or a hash that does not verify.\<close>

definition rejected :: "auth_env \<Rightarrow> authenticator \<Rightarrow> string \<Rightarrow> int \<Rightarrow> string \<Rightarrow> bool" where
  "rejected e a u now p \<longleftrightarrow>
     (case find (\<lambda>x. u_username x = u) (t_rows (db_users (a_db a))) of
        None \<Rightarrow> True
      | Some r \<Rightarrow> \<not> account_locked now (scan_user r) \<and>
          VerifyPassword (cr_kdf (en_crypto e)) p (u_hash r) = Inr False)"

definition too_many :: gerr where
  "too_many = Err ''account temporarily locked due to too many failed attempts''"

lemma Login_rejected:
  assumes "db_faults (a_db a) = []" and "rejected e a u now p"
  shows "Login e now u p a =
     (Inl (if fst (failing_attempt now (lock_key u) (a_limiter a)) then invalid_credentials else too_many),
      a\<lparr>a_limiter := snd (failing_attempt now (lock_key u) (a_limiter a))\<rparr>)"
proof (cases "find (\<lambda>x. u_username x = u) (t_rows (db_users (a_db a)))")
  case None
  then show ?thesis
    using assms by (auto simp: Login_def failing_attempt_def too_many_def Let_def split: prod.split bool.split)
next
  case (Some r)
  then show ?thesis
    using assms
    by (auto simp: Login_def login_user_def rejected_def failing_attempt_def too_many_def Let_def
        split: prod.split bool.split)
qed

lemma Login_locked:
  assumes "fst (IsLocked now (lock_key u) (a_limiter a))"
  shows "fst (Login e now u p a) = Inl too_many"
  using assms by (auto simp: Login_def Let_def too_many_def split: prod.split)

text \<open>A sequence of logins for one user name, as (time, password) pairs.\<close>

fun login_run :: "auth_env \<Rightarrow> string \<Rightarrow> authenticator \<Rightarrow> (int \<times> string) list \<Rightarrow> login_response res list" where
  "login_run e u a [] = []"
| "login_run e u a ((t, p) # cs) = fst (Login e t u p a) # login_run e u (snd (Login e t u p a)) cs"

lemma rejected_limiter [simp]: "rejected e (a\<lparr>a_limiter := l\<rparr>) u now p = rejected e a u now p"
  by (simp add: rejected_def)

lemma login_run_rejected:
  assumes "db_faults (a_db a) = []" and "\<forall>(t, p)\<in>set cs. rejected e a u t p"
  shows "login_run e u a cs =
     map (\<lambda>b. Inl (if b then invalid_credentials else too_many))
       (failing_run (lock_key u) (a_limiter a) (map fst cs))"
  using assms
proof (induction cs arbitrary: a)
  case (Cons c cs)
  obtain t p where c: "c = (t, p)" by (cases c)
  have "Login e t u p a = (Inl (if fst (failing_attempt t (lock_key u) (a_limiter a))
        then invalid_credentials else too_many),
      a\<lparr>a_limiter := snd (failing_attempt t (lock_key u) (a_limiter a))\<rparr>)"
    using Cons.prems c by (intro Login_rejected) auto
  moreover have "login_run e u (a\<lparr>a_limiter := snd (failing_attempt t (lock_key u) (a_limiter a))\<rparr>) cs =
     map (\<lambda>b. Inl (if b then invalid_credentials else too_many))
       (failing_run (lock_key u) (snd (failing_attempt t (lock_key u) (a_limiter a))) (map fst cs))"
    using Cons.prems c Cons.IH [of "a\<lparr>a_limiter := snd (failing_attempt t (lock_key u) (a_limiter a))\<rparr>"]
    by auto
  ultimately show ?case using c by simp
qed simp

text \<open>
  From no record of failures: of rejected logins within the lockout time of the first, exactly
  \<open>limit\<close> are evaluated, all later ones are refused without looking at the password.
\<close>

lemma lockout_run:
  assumes "db_faults (a_db a) = []" and "\<forall>(t, p)\<in>set ((t0, p0) # cs). rejected e a u t p"
    and "ll_attempts (a_limiter a) (lock_key u) = None" and "1 \<le> ll_limit (a_limiter a)"
    and "\<forall>(t, p)\<in>set cs. t0 \<le> t \<and> t \<le> t0 + ll_lockout (a_limiter a)"
  shows "login_run e u a ((t0, p0) # cs) =
     replicate (min (Suc (length cs)) (nat (ll_limit (a_limiter a)))) (Inl invalid_credentials)
     @ replicate (Suc (length cs) - nat (ll_limit (a_limiter a))) (Inl too_many)"
proof -
  have "login_run e u a ((t0, p0) # cs) =
      map (\<lambda>b. Inl (if b then invalid_credentials else too_many))
        (failing_run (lock_key u) (a_limiter a) (t0 # map fst cs))"
    using login_run_rejected [OF assms(1,2)] by simp
  also have "failing_run (lock_key u) (a_limiter a) (t0 # map fst cs) =
      replicate (min (Suc (length cs)) (nat (ll_limit (a_limiter a)))) True
      @ replicate (Suc (length cs) - nat (ll_limit (a_limiter a))) False"
    using failing_run_fresh [where ts = "map fst cs", OF assms(3,4)] assms(5) by fastforce
  finally show ?thesis by simp
qed

fun login_after :: "auth_env \<Rightarrow> string \<Rightarrow> authenticator \<Rightarrow> (int \<times> string) list \<Rightarrow> authenticator" where
  "login_after e u a [] = a"
| "login_after e u a ((t, p) # cs) = login_after e u (snd (Login e t u p a)) cs"

lemma login_after_rejected:
  assumes "db_faults (a_db a) = []" and "\<forall>(t, p)\<in>set cs. rejected e a u t p"
  shows "login_after e u a cs =
     a\<lparr>a_limiter := failing_after (lock_key u) (a_limiter a) (map fst cs)\<rparr>"
  using assms
proof (induction cs arbitrary: a)
  case (Cons c cs)
  obtain t p where c: "c = (t, p)" by (cases c)
  have "snd (Login e t u p a) = a\<lparr>a_limiter := snd (failing_attempt t (lock_key u) (a_limiter a))\<rparr>"
    using Cons.prems c by (subst Login_rejected) auto
  with Cons.IH [of "snd (Login e t u p a)"] Cons.prems c show ?case by auto
qed simp

text \<open>After that many rejected logins, no password is looked at until the lockout time is over.\<close>

lemma lockout_after:
  assumes "db_faults (a_db a) = []" and "\<forall>(t, p)\<in>set ((t0, p0) # cs). rejected e a u t p"
    and "ll_attempts (a_limiter a) (lock_key u) = None" and "1 \<le> ll_limit (a_limiter a)"
    and "\<forall>(t, p)\<in>set cs. t \<le> t0 + ll_lockout (a_limiter a)"
    and "ll_limit (a_limiter a) \<le> 1 + int (length cs)" and "now \<le> t0 + ll_lockout (a_limiter a)"
  shows "fst (Login e now u p (login_after e u a ((t0, p0) # cs))) = Inl too_many"
proof (rule Login_locked)
  have "login_after e u a ((t0, p0) # cs) =
      a\<lparr>a_limiter := failing_after (lock_key u) (a_limiter a) (t0 # map fst cs)\<rparr>"
    using login_after_rejected [OF assms(1,2)] by simp
  moreover have "fst (IsLocked now (lock_key u)
      (failing_after (lock_key u) (a_limiter a) (t0 # map fst cs)))"
    using assms(3-) by (intro failing_after_locked) auto
  ultimately show "fst (IsLocked now (lock_key u) (a_limiter (login_after e u a ((t0, p0) # cs))))"
    by simp
qed

section \<open>Tokens\<close>

lemma split_scheme:
  "CHR '' '' \<notin> set scheme \<Longrightarrow> split_n2 CHR '' '' (scheme @ CHR '' '' # cred) = [scheme, cred]"
  by (induction scheme) (auto simp: split_n2_def)

lemma bearer_header:
  assumes "h ''X-API-Key'' = []" and "h ''Authorization'' = ''Bearer '' @ tok"
  shows "AuthenticateRequest e now h a = authenticateJWT e now tok a"
proof -
  have "split_n2 CHR '' '' (''Bearer '' @ tok) = [''Bearer'', tok]"
    using split_scheme [of "''Bearer''" tok] by simp
  moreover have "to_lower ''Bearer'' = ''bearer''" by code_simp
  ultimately show ?thesis using assms by (simp add: AuthenticateRequest_def)
qed

lemma jwt_keyfunc_hmac [simp]: "jwt_keyfunc m SigningMethodHMAC = Inr (jm_secret m)"
  by (simp add: jwt_keyfunc_def)

lemma token_authenticates:
  assumes "jwt_accepts (en_crypto e)"
    and "cr_sign (en_crypto e) (jm_secret (a_jwt a)) (jwt_claims (a_jwt a) t i u role) = Inr tok"
    and "h ''X-API-Key'' = []" and "h ''Authorization'' = ''Bearer '' @ tok"
  shows "now < numeric_date (t + jm_duration (a_jwt a)) \<Longrightarrow>
      AuthenticateRequest e now h a =
        (Inr \<lparr>AU_ID = i, AU_Username = u, AU_Role = role, AU_AuthType = AuthTypeJWT\<rparr>, a)"
    and "numeric_date (t + jm_duration (a_jwt a)) \<le> now \<Longrightarrow>
      \<exists>x. AuthenticateRequest e now h a = (Inl x, a)"
proof -
  let ?cl = "jwt_claims (a_jwt a) t i u role"
  have parse: "(now < cl_expires ?cl \<longrightarrow>
        cr_parse (en_crypto e) (jwt_keyfunc (a_jwt a)) tok now = Inr (?cl, True)) \<and>
      (cl_expires ?cl \<le> now \<longrightarrow>
        (\<exists>x. cr_parse (en_crypto e) (jwt_keyfunc (a_jwt a)) tok now = Inl x))"
    using assms(1,2) unfolding jwt_accepts_def by fastforce
  have req: "AuthenticateRequest e now h a = authenticateJWT e now tok a"
    using assms(3,4) by (rule bearer_header)
  show "now < numeric_date (t + jm_duration (a_jwt a)) \<Longrightarrow>
      AuthenticateRequest e now h a =
        (Inr \<lparr>AU_ID = i, AU_Username = u, AU_Role = role, AU_AuthType = AuthTypeJWT\<rparr>, a)"
    using parse req by (simp add: authenticateJWT_def JWT_Validate_def jwt_claims_def)
  show "numeric_date (t + jm_duration (a_jwt a)) \<le> now \<Longrightarrow>
      \<exists>x. AuthenticateRequest e now h a = (Inl x, a)"
    using parse req by (auto simp: authenticateJWT_def JWT_Validate_def jwt_claims_def)
qed

section \<open>New accounts and changed passwords\<close>

lemma CreateUser_healthy:
  assumes "sysdb_ok s" and "db_faults s = []" and "\<forall>r\<in>set (t_rows (db_users s)). u_username r \<noteq> u"
  shows "CreateUser now u h role s =
     (Inr (scan_user \<lparr>u_id = t_seq (db_users s) + 1, u_username = u, u_hash = h, u_role = role,
             u_created = now, u_locked = None, u_pwd_change = 1\<rparr>),
      s\<lparr>db_users := tbl_insert (\<lambda>i. \<lparr>u_id = i, u_username = u, u_hash = h, u_role = role,
             u_created = now, u_locked = None, u_pwd_change = 1\<rparr>) (db_users s)\<rparr>)"
proof -
  have "tbl_ok u_id (db_users s)" using assms(1) by (simp add: sysdb_ok_def)
  note new = tbl_find_new [OF this, of "\<lambda>i. \<lparr>u_id = i, u_username = u, u_hash = h, u_role = role,
             u_created = now, u_locked = None, u_pwd_change = 1\<rparr>"]
  show ?thesis
    using assms(2,3) new by (auto simp: CreateUser_def insert_user_def)
qed

lemma CreateUser_taken:
  assumes "db_faults s = []" and "r \<in> set (t_rows (db_users s))" and "u_username r = u"
  shows "CreateUser now u h role s =
     (Inl (Wrap ''create user'' (unique_violation ''users.username'')), s)"
  using assms by (auto simp: CreateUser_def insert_user_def)

lemma ChangeOwnPassword_healthy:
  assumes "sysdb_ok (a_db a)" and "db_faults (a_db a) = []"
    and "r \<in> set (t_rows (db_users (a_db a)))"
    and "VerifyPassword (cr_kdf (en_crypto e)) old (u_hash r) = Inr True"
    and "ValidatePasswordStrength new = Inr ()"
    and "HashPassword (cr_kdf (en_crypto e)) rnd new = Inr h"
  shows "ChangeOwnPassword e rnd (u_id r) old new a =
     (Inr (), a\<lparr>a_db := update_users (\<lambda>x. u_id x = u_id r)
                 (\<lambda>x. x\<lparr>u_hash := h, u_pwd_change := 0\<rparr>) (a_db a)\<rparr>)"
  using assms find_user_unique(2) [OF assms(1,3)]
  by (simp add: ChangeOwnPassword_def UpdateUserPassword_def Let_def)

text \<open>A password that does not verify changes nothing.\<close>

lemma ChangeOwnPassword_wrong:
  assumes "VerifyPassword (cr_kdf (en_crypto e)) old (u_hash r) = Inr False"
    and "sysdb_ok (a_db a)" and "db_faults (a_db a) = []" and "r \<in> set (t_rows (db_users (a_db a)))"
  shows "ChangeOwnPassword e rnd (u_id r) old new a =
     (Inl (Err ''current password is incorrect''), a)"
  using assms find_user_unique(2) [OF assms(2,4)]
  by (simp add: ChangeOwnPassword_def Let_def)

text \<open>Logging in after an account was created, or its password changed.\<close>

definition signs :: "auth_env \<Rightarrow> authenticator \<Rightarrow> bool" where
  "signs e a \<longleftrightarrow> (\<forall>cl. \<exists>tok. cr_sign (en_crypto e) (jm_secret (a_jwt a)) cl = Inr tok)"

lemma Login_ready_iff:
  assumes "sysdb_ok (a_db a)" and "db_faults (a_db a) = []" and "signs e a"
    and "stored_user a u r" and "\<not> fst (IsLocked now (lock_key u) (a_limiter a))"
    and "\<not> account_locked now (scan_user r)"
  shows "(\<exists>resp. fst (Login e now u p a) = Inr resp) \<longleftrightarrow>
     VerifyPassword (cr_kdf (en_crypto e)) p (u_hash r) = Inr True"
proof -
  have "\<And>r'. stored_user a u r' \<longleftrightarrow> r' = r"
    using assms(1,4) by (auto simp: stored_user_find)
  moreover have "\<exists>tok. JWT_Generate (en_crypto e) (a_jwt a) now i u ro = Inr tok" for i ro
    using assms(3) by (simp add: signs_def JWT_Generate_def)
  ultimately show ?thesis
    using assms(5,6) by (simp add: Login_success_iff [OF assms(1,2)])
qed

lemma created_user_logs_in:
  assumes "sysdb_ok (a_db a)" and "db_faults (a_db a) = []" and "signs e a"
    and "kdf_length (cr_kdf (en_crypto e))"
    and "\<not> fst (IsLocked now (lock_key u) (a_limiter a))"
    and "Auth_CreateUser e (Some rnd) t u pw role a = (Inr user, a')"
  shows "(\<exists>resp. fst (Login e now u pw' a') = Inr resp) \<longleftrightarrow>
     cr_kdf (en_crypto e) pw' (b64_encode rnd) 3 65536 4 32 =
     cr_kdf (en_crypto e) pw (b64_encode rnd) 3 65536 4 32"
proof -
  obtain h where h: "HashPassword (cr_kdf (en_crypto e)) (Some rnd) pw = Inr h"
    by (simp add: HashPassword_Some)
  have a': "CreateUser t u h role (a_db a) = (Inr user, a_db a')" "a' = a\<lparr>a_db := a_db a'\<rparr>"
    using assms(6) h by (auto simp: Auth_CreateUser_def split: sum.splits prod.splits)
  have fresh: "\<forall>r\<in>set (t_rows (db_users (a_db a))). u_username r \<noteq> u"
    using a'(1) CreateUser_taken [OF assms(2)] by force
  let ?r = "\<lparr>u_id = t_seq (db_users (a_db a)) + 1, u_username = u, u_hash = h, u_role = role,
             u_created = t, u_locked = None, u_pwd_change = 1\<rparr>"
  note db = CreateUser_healthy [OF assms(1,2) fresh, of t h role]
  have db': "a_db a' = snd (CreateUser t u h role (a_db a))" using a'(1) by simp
  have ok: "sysdb_ok (a_db a')" using assms(1) unfolding db' by (rule CreateUser_ok)
  have "stored_user a' u ?r" unfolding stored_user_def db' db by simp
  moreover have "db_faults (a_db a') = []" unfolding db' db using assms(2) by simp
  moreover have "a_limiter a' = a_limiter a" "signs e a'"
    using assms(3) by (simp_all add: a'(2) [symmetric] signs_def) (metis a'(2) authenticator.select_convs(1,3) authenticator.surjective authenticator.update_convs(4))+
  ultimately have "(\<exists>resp. fst (Login e now u pw' a') = Inr resp) \<longleftrightarrow>
     VerifyPassword (cr_kdf (en_crypto e)) pw' (u_hash ?r) = Inr True"
    using ok assms(5) by (intro Login_ready_iff) (simp_all add: account_locked_def)
  with VerifyPassword_hashed [OF assms(4) h] show ?thesis by auto
qed

lemma changed_password_logs_in:
  assumes "sysdb_ok (a_db a)" and "db_faults (a_db a) = []" and "signs e a"
    and "kdf_length (cr_kdf (en_crypto e))" and "stored_user a u r"
    and "\<not> fst (IsLocked now (lock_key u) (a_limiter a))"
    and "\<not> account_locked now (scan_user r)"
    and "ChangeOwnPassword e (Some rnd) (u_id r) old new a = (Inr (), a')"
  shows "(\<exists>resp. fst (Login e now u pw' a') = Inr resp) \<longleftrightarrow>
     cr_kdf (en_crypto e) pw' (b64_encode rnd) 3 65536 4 32 =
     cr_kdf (en_crypto e) new (b64_encode rnd) 3 65536 4 32"
proof -
  have r: "r \<in> set (t_rows (db_users (a_db a)))" "u_username r = u"
    using assms(5) by (simp_all add: stored_user_def)
  obtain h where h: "HashPassword (cr_kdf (en_crypto e)) (Some rnd) new = Inr h"
    by (simp add: HashPassword_Some)
  have "VerifyPassword (cr_kdf (en_crypto e)) old (u_hash r) = Inr True"
    and "ValidatePasswordStrength new = Inr ()"
    using assms(2,8) find_user_unique(2) [OF assms(1) r(1)]
    by (auto simp: ChangeOwnPassword_def Let_def split: sum.splits gerr.splits bool.splits)
  note step = ChangeOwnPassword_healthy [OF assms(1,2) r(1) this h]
  let ?f = "\<lambda>x. x\<lparr>u_hash := h, u_pwd_change := 0\<rparr>"
  have a': "a' = a\<lparr>a_db := update_users (\<lambda>x. u_id x = u_id r) ?f (a_db a)\<rparr>"
    using assms(8) step by simp
  have "sysdb_ok (a_db a')" using assms(1) a' by (auto intro: update_users_ok)
  moreover have "db_faults (a_db a') = []" "signs e a'" "a_limiter a' = a_limiter a"
    using assms(2,3) a' by (simp_all add: update_users_def signs_def)
  moreover have "stored_user a' u (?f r)"
    using r a' by (auto simp: stored_user_def update_users_def set_update_where)
  ultimately have "(\<exists>resp. fst (Login e now u pw' a') = Inr resp) \<longleftrightarrow>
     VerifyPassword (cr_kdf (en_crypto e)) pw' (u_hash (?f r)) = Inr True"
    using assms(6,7) by (intro Login_ready_iff) (simp_all add: account_locked_def)
  with VerifyPassword_hashed [OF assms(4) h] show ?thesis by auto
qed

section \<open>API keys\<close>

lemma join_keys_append: "join_keys (ks @ ks') us = join_keys ks us @ join_keys ks' us"
  by (simp add: join_keys_def)

lemma join_keys_one:
  assumes "distinct (map u_id us)" and "r \<in> set us" and "k_user k = u_id r"
  shows "join_keys [k] us = [(k, r)]"
proof -
  have "filter (\<lambda>u. u_id r = u_id u) us = [r]"
    using assms(1,2)
  proof (induction us)
    case (Cons x us)
    show ?case
    proof (cases "u_id x = u_id r")
      case True
      with Cons.prems have "x = r" and "\<forall>u\<in>set us. u_id r \<noteq> u_id u" by (auto simp: image_iff)
      then show ?thesis by (simp add: filter_empty_conv)
    next
      case False
      with Cons show ?thesis by auto
    qed
  qed simp
  with assms(3) show ?thesis by (simp add: join_keys_def)
qed

lemma join_keys_hash:
  assumes "\<forall>k\<in>set ks. k_hash k \<noteq> hash"
  shows "find (\<lambda>(k, u). key_matches later now hash k) (join_keys ks us) = None"
  using assms by (auto simp: find_None_iff join_keys_def key_matches_def)

text \<open>The row \<open>GenerateAPIKey\<close> adds.\<close>

definition new_key_row ::
  "auth_env \<Rightarrow> string \<Rightarrow> string \<Rightarrow> int \<Rightarrow> int \<Rightarrow> string \<Rightarrow> authenticator \<Rightarrow> int \<Rightarrow> key_row" where
  "new_key_row e bytes nonce now userID name a i =
     (let raw = ''vl_'' @ hex_encode bytes in
      \<lparr>k_id = i, k_user = userID, k_hash = APIKey_Hash (en_crypto e) raw, k_name = name,
       k_prefix = key_prefix raw, k_created = now, k_expires = None,
       k_encrypted = b64_encode (nonce @
         cr_seal (en_crypto e) (cr_sha256 (en_crypto e) (jm_secret (a_jwt a))) nonce raw)\<rparr>)"

lemma GenerateAPIKey_healthy:
  assumes "db_faults (a_db a) = []"
  shows "GenerateAPIKey e (Some bytes) (Some nonce) now userID name a =
     (Inr (''vl_'' @ hex_encode bytes),
      a\<lparr>a_db := (a_db a)\<lparr>db_keys := tbl_insert (new_key_row e bytes nonce now userID name a)
                          (db_keys (a_db a))\<rparr>\<rparr>)"
  using assms
  by (simp add: GenerateAPIKey_def APIKey_Generate_def encryptRawKey_def CreateAPIKey_def
      APIKey_Hash_def new_key_row_def Let_def)

text \<open>
  The row is found by the hash of the raw key, if no older key has the same hash: then the
  owner is the user the key was made for, until the account is locked.
\<close>

lemma api_key_authenticates:
  assumes "sysdb_ok (a_db a)" and "db_faults (a_db a) = []"
    and "r \<in> set (t_rows (db_users (a_db a)))"
    and "\<forall>k\<in>set (t_rows (db_keys (a_db a))). k_hash k \<noteq> APIKey_Hash (en_crypto e) raw"
    and "GenerateAPIKey e (Some bytes) (Some nonce) t (u_id r) name a = (Inr raw, a')"
    and "h ''X-API-Key'' = raw"
  shows "AuthenticateRequest e now h a' =
     (if account_locked now (scan_user r) then (Inl (Err ''user account is locked''), a')
      else (Inr (auth_user AuthTypeAPIKey (scan_user r)), a'))"
proof -
  let ?k = "new_key_row e bytes nonce t (u_id r) name a (t_seq (db_keys (a_db a)) + 1)"
  have raw: "raw = ''vl_'' @ hex_encode bytes"
    and a': "a' = a\<lparr>a_db := (a_db a)\<lparr>db_keys := tbl_insert (new_key_row e bytes nonce t (u_id r) name a)
                          (db_keys (a_db a))\<rparr>\<rparr>"
    using assms(5) by (simp_all add: GenerateAPIKey_healthy assms(2))
  have "distinct (map u_id (t_rows (db_users (a_db a))))"
    using assms(1) tbl_ok_distinct by (auto simp: sysdb_ok_def)
  then have one: "join_keys [?k] (t_rows (db_users (a_db a))) = [(?k, r)]"
    using assms(3) by (rule join_keys_one) (simp add: new_key_row_def Let_def)
  have none: "find (\<lambda>(k, u). key_matches (en_later e) now (APIKey_Hash (en_crypto e) raw) k)
      (join_keys (t_rows (db_keys (a_db a))) (t_rows (db_users (a_db a)))) = None"
    using assms(4) by (rule join_keys_hash)
  have hit: "key_matches (en_later e) now (APIKey_Hash (en_crypto e) raw) ?k"
    using raw by (simp add: key_matches_def new_key_row_def Let_def)
  have ne: "h ''X-API-Key'' \<noteq> []" using assms(6) raw by simp
  have "FindUserByAPIKey (en_later e) now (APIKey_Hash (en_crypto e) raw) (a_db a') =
      (Inr ((scan_user r)\<lparr>User_PasswordChangeRequired := False\<rparr>), a_db a')"
    using assms(2) one none hit
    by (simp add: a' FindUserByAPIKey_def join_keys_append find_append)
  then show ?thesis
    using ne assms(6)
    by (simp add: AuthenticateRequest_def authenticateAPIKey_def Let_def account_locked_def
        auth_user_def a')
qed

lemma decrypt_encrypt:
  assumes "gcm_opens (en_crypto e)" and "length nonce = gcm_NonceSize"
    and "encryptRawKey e (Some nonce) raw a = Inr enc" and "a_jwt a' = a_jwt a"
  shows "decryptRawKey e enc a' = Inr raw" and "enc \<noteq> []"
proof -
  let ?data = "nonce @ cr_seal (en_crypto e) (cr_sha256 (en_crypto e) (jm_secret (a_jwt a))) nonce raw"
  have enc: "enc = b64_encode ?data"
    using assms(3) by (simp add: encryptRawKey_def Let_def)
  then show "decryptRawKey e enc a' = Inr raw"
    using assms(1,2,4) by (simp add: decryptRawKey_def b64_decode_encode gcm_opens_def Let_def)
  show "enc \<noteq> []"
  proof
    assume "enc = []"
    then have "b64_decode [] = Some ?data" using enc b64_decode_encode [of ?data] by simp
    moreover have "b64_decode [] = Some []" by code_simp
    ultimately show False using assms(2) by (simp add: gcm_NonceSize_def)
  qed
qed

text \<open>The key just made can be revealed by its owner's password, and by no other.\<close>

lemma api_key_reveals:
  assumes "sysdb_ok (a_db a)" and "db_faults (a_db a) = []"
    and "r \<in> set (t_rows (db_users (a_db a)))" and "gcm_opens (en_crypto e)"
    and "length nonce = gcm_NonceSize"
    and "GenerateAPIKey e (Some bytes) (Some nonce) t (u_id r) name a = (Inr raw, a')"
    and "VerifyPassword (cr_kdf (en_crypto e)) pw (u_hash r) = Inr ok"
  shows "RevealAPIKey e (t_seq (db_keys (a_db a)) + 1) pw a' =
     ((if ok then Inr raw else Inl (Err ''invalid password'')), a')"
proof -
  let ?i = "t_seq (db_keys (a_db a)) + 1"
  let ?mk = "new_key_row e bytes nonce t (u_id r) name a"
  have raw: "raw = ''vl_'' @ hex_encode bytes"
    and a': "a' = a\<lparr>a_db := (a_db a)\<lparr>db_keys := tbl_insert ?mk (db_keys (a_db a))\<rparr>\<rparr>"
    using assms(6) by (simp_all add: GenerateAPIKey_healthy assms(2))
  have enc: "encryptRawKey e (Some nonce) raw a = Inr (k_encrypted (?mk ?i))"
    using raw by (simp add: encryptRawKey_def new_key_row_def Let_def)
  have dec: "decryptRawKey e (k_encrypted (?mk ?i)) a' = Inr raw" "k_encrypted (?mk ?i) \<noteq> []"
    using decrypt_encrypt [OF assms(4,5) enc] a' by auto
  have "tbl_ok k_id (db_keys (a_db a))" using assms(1) by (simp add: sysdb_ok_def)
  then have key: "find (\<lambda>k. k_id k = ?i) (t_rows (db_keys (a_db a'))) = Some (?mk ?i)"
    using tbl_find_new [of k_id "db_keys (a_db a)" ?mk] by (simp add: a' new_key_row_def Let_def)
  have owner: "k_user (?mk ?i) = u_id r" by (simp add: new_key_row_def Let_def)
  have user: "find (\<lambda>x. u_id x = u_id r) (t_rows (db_users (a_db a'))) = Some r"
    using find_user_unique(2) [OF assms(1,3)] by (simp add: a')
  have faults: "db_faults (a_db a') = []" using assms(2) by (simp add: a')
  have same: "a'\<lparr>a_db := a_db a'\<rparr> = a'" by simp
  show ?thesis
    using key owner user faults dec assms(7) same
    by (cases ok) (simp_all add: RevealAPIKey_def scan_key_def Let_def del: authenticator.update_convs)
qed

end
