(* ===== verification/AuthSteps.thy ===== *)
theory AuthSteps
  imports Credentials
begin

text \<open>
  The authenticator seen from the system database: each of its operations is a sequence of
  database methods, so what holds in every reachable database holds across all histories of the
  authenticator. In particular the id of a deleted user never authenticates again by API key or
  session.
\<close>

section \<open>Operations as sequences of methods\<close>

abbreviation sysdb_steps :: "sysdb \<Rightarrow> sysdb \<Rightarrow> bool" where
  "sysdb_steps \<equiv> sysdb_step\<^sup>*\<^sup>*"

lemma read_steps: "sysdb_steps s (snd (read q s))"
  using snd_read_drop [of q s] sysdb_step.query [of s] by (metis r_into_rtranclp)

lemma query_steps:
  "sysdb_steps s (snd (GetUser i s))"
  "sysdb_steps s (snd (GetUserByUsername u s))"
  "sysdb_steps s (snd (GetAPIKey i s))"
  "sysdb_steps s (snd (FindUserByAPIKey later now h s))"
  "sysdb_steps s (snd (ValidateSession later now h s))"
  using read_steps
  by (simp_all add: GetUser_def GetUserByUsername_def GetAPIKey_def FindUserByAPIKey_def
      ValidateSession_def case_prod_beta)

lemma method_steps:
  "sysdb_steps s (snd (CreateUser now name hash role s))"
  "sysdb_steps s (snd (UpdateUserRole i role s))"
  "sysdb_steps s (snd (UpdateUsername i name s))"
  "sysdb_steps s (snd (UpdateUserPassword i hash s))"
  "sysdb_steps s (snd (SetPasswordChangeRequired i b s))"
  "sysdb_steps s (snd (DeleteUser i s))"
  "u \<le> t_seq (db_users s) \<Longrightarrow> sysdb_steps s (snd (CreateAPIKey now u h n p ex enc s))"
  "sysdb_steps s (snd (DeleteAPIKey i s))"
  "sysdb_steps s (snd (LogReplication now d q s))"
  "sysdb_steps s (snd (InitReplicationState now rl url s))"
  "sysdb_steps s (snd (UpdateReplicationAppliedID now i s))"
  "sysdb_steps s (snd (CleanReplicationLog i s))"
  by (rule r_into_rtranclp, rule sysdb_step.intros, assumption?)+

text \<open>One operation after another, with the first one's state named by its result.\<close>

lemma steps_then: "sysdb_steps s t \<Longrightarrow> sysdb_steps t u \<Longrightarrow> sysdb_steps s u"
  by (rule rtranclp_trans)

lemma authenticateSession_steps:
  assumes "auth_wired e a"
  shows "sysdb_steps (a_db a) (a_db (snd (authenticateSession e now tok a)))"
proof -
  have "sysdb_steps (a_db a) (snd (Session_Validate (en_crypto e) (a_session a) now tok (a_db a)))"
    using assms query_steps(5) by (simp add: Session_Validate_def auth_wired_def sysdb_sessions_def)
  then show ?thesis
    using query_steps(1)
    by (auto simp: authenticateSession_def case_prod_beta intro: steps_then split: sum.split)
qed

lemma auth_step_db:
  assumes "auth_step e a a'" and "auth_wired e a"
  shows "sysdb_steps (a_db a) (a_db a')"
  using assms
proof (induction rule: auth_step.induct)
  case (login a now u p)
  show ?case using Login_db [of e now u p a] query_steps(2) [of "a_db a" u] by auto
next
  case (authenticate a now h)
  then show ?case
    by (auto simp: AuthenticateRequest_def Let_def authenticateSession_steps query_steps
        split: list.split)
next
  case (create a rnd now u p role)
  show ?case
    by (simp add: Auth_CreateUser_def case_prod_beta method_steps split: sum.split)
next
  case (role a i role)
  show ?case
    by (auto simp: Auth_UpdateUserRole_def case_prod_beta split: sum.split
        intro: method_steps steps_then [OF method_steps(2) query_steps(1)])
next
  case (rename a i u)
  show ?case
    by (auto simp: Auth_UpdateUsername_def case_prod_beta split: sum.split
        intro: method_steps steps_then [OF method_steps(3) query_steps(1)])
next
  case (reset_password a rnd i p)
  show ?case
    by (auto simp: Auth_UpdateUserPassword_def case_prod_beta split: sum.split
        intro: method_steps steps_then [OF method_steps(4) method_steps(5)])
next
  case (change_password a rnd i p q)
  show ?case
    by (auto simp: ChangeOwnPassword_def case_prod_beta Let_def split: sum.split gerr.split bool.split
        intro: query_steps steps_then [OF query_steps(1) method_steps(4)])
next
  case (delete a i)
  show ?case by (simp add: Auth_DeleteUser_def case_prod_beta method_steps)
next
  case (default_admin a rnd now)
  show ?case
    by (auto simp: EnsureDefaultAdmin_def case_prod_beta split: sum.split
        intro: query_steps steps_then [OF query_steps(2) method_steps(1)])
next
  case (gen_key i a rnd nonce now n)
  then show ?case
    by (simp add: GenerateAPIKey_def case_prod_beta method_steps split: sum.split)
next
  case (reveal a i p)
  show ?case
    by (auto simp: RevealAPIKey_def case_prod_beta Let_def split: sum.split gerr.split bool.split
        intro: query_steps steps_then [OF query_steps(3) query_steps(1)])
qed

lemma auth_steps_db:
  assumes "(auth_step e)\<^sup>*\<^sup>* a a'" and "sysdb_ok (a_db a)" and "auth_wired e a"
  shows "sysdb_steps (a_db a) (a_db a')"
  using assms(1)
proof (induction rule: rtranclp_induct)
  case (step b c)
  then show ?case
    using auth_step_db [of e b c] auth_reach_ok [OF step.hyps(1) assms(2,3)]
    by (auto intro: rtranclp_trans)
qed simp

section \<open>Deleted users\<close>

lemma read_value: "fst (read q s) = Inr x \<Longrightarrow> \<exists>fs. q (s\<lparr>db_faults := fs\<rparr>) = Inr x"
proof (cases "db_faults s = []")
  case True
  moreover assume "fst (read q s) = Inr x"
  moreover have "s\<lparr>db_faults := db_faults s\<rparr> = s" by simp
  ultimately show ?thesis by (metis fst_conv read_healthy)
next
  case False
  moreover assume "fst (read q s) = Inr x"
  ultimately show ?thesis by (auto simp: read_def stmt_def split: list.splits option.splits)
qed

lemma GetUser_found:
  "GetUser i s = (Inr user, s') \<Longrightarrow> User_ID user = i \<and> i \<in> ids_of u_id (db_users s)"
proof -
  assume "GetUser i s = (Inr user, s')"
  then have "fst (read (\<lambda>s. query_row scan_user (find (\<lambda>r. u_id r = i) (t_rows (db_users s)))) s) = Inr user"
    by (auto simp: GetUser_def split: prod.splits)
  from read_value [OF this] show ?thesis
    by (auto simp: query_row_def ids_of_def split: option.splits dest: find_Some_set)
qed

lemma FindUserByAPIKey_found:
  "FindUserByAPIKey later now h s = (Inr user, s') \<Longrightarrow> User_ID user \<in> ids_of u_id (db_users s)"
proof -
  assume "FindUserByAPIKey later now h s = (Inr user, s')"
  then have "fst (read (\<lambda>s. query_row (\<lambda>(k, u). (scan_user u)\<lparr>User_PasswordChangeRequired := False\<rparr>)
                       (find (\<lambda>(k, u). key_matches later now h k)
                         (join_keys (t_rows (db_keys s)) (t_rows (db_users s))))) s) = Inr user"
    by (auto simp: FindUserByAPIKey_def split: prod.splits)
  from read_value [OF this] show ?thesis
    by (fastforce simp: query_row_def ids_of_def join_keys_def scan_user_def split: option.splits
        dest: find_Some_set)
qed

lemma steps_users_eq: "\<exists>fs. snd (read q s) = s\<lparr>db_faults := fs\<rparr> \<Longrightarrow> db_users (snd (read q s)) = db_users s"
  by auto

lemma authenticated_is_stored:
  assumes "AuthenticateRequest e now h a = (Inr au, a')" and "auth_wired e a"
    and "AU_AuthType au \<noteq> AuthTypeJWT"
  shows "AU_ID au \<in> ids_of u_id (db_users (a_db a))"
proof -
  have jwt: "authenticateJWT e now tok a \<noteq> (Inr au, a')" for tok
    using assms(3) by (auto simp: authenticateJWT_def split: sum.splits)
  have key: "AU_ID au \<in> ids_of u_id (db_users (a_db a))"
    if "authenticateAPIKey e now k a = (Inr au, a')" for k
    using that by (auto simp: authenticateAPIKey_def auth_user_def split: prod.splits sum.splits if_splits
        dest: FindUserByAPIKey_found)
  have ses: "AU_ID au \<in> ids_of u_id (db_users (a_db a))"
    if "authenticateSession e now tok a = (Inr au, a')" for tok
  proof -
    let ?v = "Session_Validate (en_crypto e) (a_session a) now tok (a_db a)"
    have "db_users (snd ?v) = db_users (a_db a)"
      using assms(2) steps_users_eq [OF snd_read]
      by (simp add: Session_Validate_def auth_wired_def sysdb_sessions_def ValidateSession_def
          case_prod_beta)
    then show ?thesis using that
      by (auto simp: authenticateSession_def auth_user_def split: prod.splits sum.splits if_splits
          dest!: GetUser_found)
  qed
  show ?thesis
    using assms(1) jwt key ses
    by (auto simp: AuthenticateRequest_def Let_def split: if_splits list.splits)
qed

lemma deleted_never_authenticates:
  assumes "sysdb_ok (a_db a)" and "auth_wired e a" and "i \<le> t_seq (db_users (a_db a))"
    and "i \<notin> ids_of u_id (db_users (a_db a))" and "(auth_step e)\<^sup>*\<^sup>* a b"
    and "AuthenticateRequest e now h b = (Inr au, c)" and "AU_AuthType au \<noteq> AuthTypeJWT"
  shows "AU_ID au \<noteq> i"
proof -
  have "sysdb_steps (a_db a) (a_db b)" using assms(1,2,5) by (intro auth_steps_db)
  then have "i \<notin> ids_of u_id (db_users (a_db b))"
    using assms(1,3,4) by (rule user_ids.dead_id_stays_dead)
  moreover have "auth_wired e b" using auth_reach_ok [OF assms(5,1,2)] ..
  ultimately show ?thesis using authenticated_is_stored assms(6,7) by blast
qed

text \<open>A delete that reports success has removed the row; the managers stay.\<close>

lemma Auth_DeleteUser_removes:
  assumes "Auth_DeleteUser i a = (Inr (), a')"
  shows "i \<notin> ids_of u_id (db_users (a_db a'))"
proof -
  have "fst (DeleteUser i s) = Inr () \<longrightarrow> i \<notin> ids_of u_id (db_users (snd (DeleteUser i s)))" for s
    by (auto simp: DeleteUser_def exec_def ids_of_def split: stmt_split)
  then show ?thesis
    using assms by (auto simp: Auth_DeleteUser_def split: prod.splits) (metis fst_conv snd_conv)
qed

lemma auth_steps_jwt: "(auth_step e)\<^sup>*\<^sup>* a b \<Longrightarrow> a_jwt b = a_jwt a"
  by (induction rule: rtranclp_induct) (simp_all add: auth_step_wired)

end
