(* ===== verification/AuditQueue.thy ===== *)
theory AuditQueue
  imports SystemDbInv
begin

text \<open>
  The asynchronous audit log of \<open>internal/database/system.go\<close>: request handlers put entries into
  a buffered channel of 1024 places and drop them when it is full; one worker takes entries out
  in order and inserts them. Senders, the worker, \<open>FlushAuditLog\<close> and \<open>Close\<close> run concurrently,
  so a run is a sequence of their atomic channel operations, in any order: a step relation.
\<close>

section \<open>The operations on the channel\<close>

definition audit_cap :: nat where
  "audit_cap = 1024"

text \<open>The non-blocking send of \<open>LogAudit\<close>. A send on a closed channel panics.\<close>

definition LogAudit ::
  "int option \<Rightarrow> string \<Rightarrow> string \<Rightarrow> string \<Rightarrow> string \<Rightarrow> string \<Rightarrow> sysdb \<Rightarrow> unit res \<times> sysdb" where
  "LogAudit userID username ip query endpoint status s =
     (if audit_closed s then (Inl (Panic ''send on closed channel''), s)
      else if length (audit_ch s) < audit_cap
      then (Inr (), s\<lparr>audit_ch := audit_ch s @
              [\<lparr>ae_user = userID, ae_username = username, ae_ip = ip, ae_query = query,
                ae_endpoint = endpoint, ae_status = status, ae_flusher = None\<rparr>]\<rparr>)
      else (Inr (), s))"

definition flush_marker :: "nat \<Rightarrow> audit_entry" where
  "flush_marker n =
     \<lparr>ae_user = None, ae_username = [], ae_ip = [], ae_query = [], ae_endpoint = [],
      ae_status = [], ae_flusher = Some n\<rparr>"

text \<open>
  \<open>FlushAuditLog\<close>: its select can send the marker when there is room, or see that the worker is
  gone; after a send it waits until the worker has closed the marker's channel.
\<close>

definition flush_send :: "nat \<Rightarrow> sysdb \<Rightarrow> sysdb option" where
  "flush_send n s =
     (if \<not> audit_closed s \<and> length (audit_ch s) < audit_cap
      then Some (s\<lparr>audit_ch := audit_ch s @ [flush_marker n]\<rparr>) else None)"

definition flush_returns :: "nat \<Rightarrow> sysdb \<Rightarrow> bool" where
  "flush_returns n s \<longleftrightarrow> n \<in> set (audit_flushed s) \<or> audit_done s"

definition insert_audit :: "int \<Rightarrow> audit_entry \<Rightarrow> sysdb \<Rightarrow> unit res \<times> sysdb" where
  "insert_audit now e = exec (\<lambda>s. s\<lparr>db_audit := tbl_insert
     (\<lambda>i. \<lparr>al_id = i, al_user = ae_user e, al_username = ae_username e, al_ip = ae_ip e,
           al_query = ae_query e, al_endpoint = ae_endpoint e, al_status = ae_status e,
           al_timestamp = now\<rparr>) (db_audit s)\<rparr>)"

text \<open>
  One round of \<open>auditWorker\<close>: \<open>None\<close> where it waits. A failed insert is ignored. When the channel
  is closed and empty, the loop ends and \<open>auditDone\<close> is closed.
\<close>

definition audit_work :: "int \<Rightarrow> sysdb \<Rightarrow> sysdb option" where
  "audit_work now s =
     (if audit_done s then None
      else case audit_ch s of
        [] \<Rightarrow> if audit_closed s then Some (s\<lparr>audit_done := True\<rparr>) else None
      | e # es \<Rightarrow>
          (case ae_flusher e of
             Some n \<Rightarrow> Some (s\<lparr>audit_ch := es, audit_flushed := n # audit_flushed s\<rparr>)
           | None \<Rightarrow> Some (snd (insert_audit now e (s\<lparr>audit_ch := es\<rparr>)))))"

text \<open>The worker prepares its statement first; if that fails it ends at once.\<close>

definition audit_start :: "gerr option \<Rightarrow> sysdb \<Rightarrow> sysdb" where
  "audit_start prepare_err s =
     (case prepare_err of None \<Rightarrow> s | Some e \<Rightarrow> s\<lparr>audit_done := True\<rparr>)"

text \<open>The first half of \<open>Close\<close>; it then waits for \<open>auditDone\<close>.\<close>

definition close_audit :: "sysdb \<Rightarrow> unit res \<times> sysdb" where
  "close_audit s =
     (if audit_closed s then (Inl (Panic ''close of closed channel''), s)
      else (Inr (), s\<lparr>audit_closed := True\<rparr>))"

lemma LogAudit_ok [inv_rules]: "sysdb_ok s \<Longrightarrow> sysdb_ok (snd (LogAudit u n ip q ep st s))"
  by (simp add: LogAudit_def)

lemma insert_audit_ok [inv_rules]: "sysdb_ok s \<Longrightarrow> sysdb_ok (snd (insert_audit now e s))"
  unfolding insert_audit_def by (rule exec_inv) (auto simp: sysdb_ok_def)

lemma audit_work_ok [inv_rules]: "audit_work now s = Some s' \<Longrightarrow> sysdb_ok s \<Longrightarrow> sysdb_ok s'"
  by (auto simp: audit_work_def insert_audit_ok split: if_splits list.splits option.splits)

section \<open>Runs of senders and worker\<close>

text \<open>
  The state of a run: the entries accepted into the channel so far, in order, and the database.
  The list of accepted entries is not part of the program; it records the run.
\<close>

type_synonym audit_run = "audit_entry list \<times> sysdb"

inductive audit_step :: "audit_run \<Rightarrow> audit_run \<Rightarrow> bool" where
  accept: "\<lbrakk>\<not> audit_closed s; length (audit_ch s) < audit_cap; ae_flusher e = None\<rbrakk> \<Longrightarrow>
     audit_step (acc, s) (acc @ [e],
       snd (LogAudit (ae_user e) (ae_username e) (ae_ip e) (ae_query e) (ae_endpoint e) (ae_status e) s))"
| drop: "\<lbrakk>\<not> audit_closed s; \<not> length (audit_ch s) < audit_cap\<rbrakk> \<Longrightarrow>
     audit_step (acc, s) (acc, snd (LogAudit u n ip q ep st s))"
| flush: "\<lbrakk>flush_send n s = Some s'; flush_marker n \<notin> set acc\<rbrakk> \<Longrightarrow>
     audit_step (acc, s) (acc @ [flush_marker n], s')"
| work: "audit_work now s = Some s' \<Longrightarrow> audit_step (acc, s) (acc, s')"
| close: "\<not> audit_closed s \<Longrightarrow> audit_step (acc, s) (acc, snd (close_audit s))"

inductive_cases audit_stepE: "audit_step (acc, s) r"

definition audit_content :: "audit_entry \<Rightarrow> int option \<times> string \<times> string \<times> string \<times> string \<times> string" where
  "audit_content e =
     (ae_user e, ae_username e, ae_ip e, ae_query e, ae_endpoint e, ae_status e)"

definition row_content :: "audit_row \<Rightarrow> int option \<times> string \<times> string \<times> string \<times> string \<times> string" where
  "row_content r =
     (al_user r, al_username r, al_ip r, al_query r, al_endpoint r, al_status r)"

text \<open>What the entries taken by the worker amount to: rows, and markers answered.\<close>

definition to_rows :: "audit_entry list \<Rightarrow> (int option \<times> string \<times> string \<times> string \<times> string \<times> string) list" where
  "to_rows es = map audit_content (filter (\<lambda>e. ae_flusher e = None) es)"

definition markers :: "audit_entry list \<Rightarrow> nat set" where
  "markers es = {n. \<exists>e\<in>set es. ae_flusher e = Some n}"

text \<open>
  The invariant: what was accepted is what the worker has taken followed by what is queued; with
  an engine that fails no statement, the rows are exactly the entries taken.
\<close>

definition audit_inv :: "audit_run \<Rightarrow> bool" where
  "audit_inv r \<longleftrightarrow>
     (\<exists>taken. fst r = taken @ audit_ch (snd r) \<and>
        map row_content (t_rows (db_audit (snd r))) = to_rows taken \<and>
        set (audit_flushed (snd r)) = markers taken) \<and>
     (\<forall>e\<in>set (fst r). \<forall>n. ae_flusher e = Some n \<longrightarrow> e = flush_marker n) \<and>
     length (audit_ch (snd r)) \<le> audit_cap \<and> db_faults (snd r) = [] \<and>
     (audit_done (snd r) \<longrightarrow> audit_closed (snd r) \<and> audit_ch (snd r) = [])"

lemma to_rows_simps [simp]:
  "to_rows [] = []"
  "to_rows (es @ [e]) = to_rows es @ (if ae_flusher e = None then [audit_content e] else [])"
  by (simp_all add: to_rows_def)

lemma to_rows_append: "to_rows (es @ fs) = to_rows es @ to_rows fs"
  by (simp add: to_rows_def)

lemma markers_simps [simp]:
  "markers [] = {}"
  "markers (es @ [e]) = markers es \<union> {n. ae_flusher e = Some n}"
  by (auto simp: markers_def)

lemma LogAudit_accept:
  assumes "\<not> audit_closed s" and "length (audit_ch s) < audit_cap" and "ae_flusher e = None"
  shows "LogAudit (ae_user e) (ae_username e) (ae_ip e) (ae_query e) (ae_endpoint e) (ae_status e) s
       = (Inr (), s\<lparr>audit_ch := audit_ch s @ [e]\<rparr>)"
  using assms by (cases e) (simp add: LogAudit_def)

lemma audit_work_inv:
  assumes inv: "audit_inv (acc, s)" and work: "audit_work now s = Some s'"
  shows "audit_inv (acc, s')"
proof (cases "audit_ch s")
  case Nil
  with assms show ?thesis
    by (auto simp: audit_inv_def audit_work_def split: if_splits)
next
  case (Cons e es)
  from inv Cons obtain taken where taken: "acc = (taken @ [e]) @ es"
    "map row_content (t_rows (db_audit s)) = to_rows taken" "set (audit_flushed s) = markers taken"
    by (auto simp: audit_inv_def)
  have rest: "\<forall>e\<in>set acc. \<forall>n. ae_flusher e = Some n \<longrightarrow> e = flush_marker n"
    "length (audit_ch s) \<le> audit_cap" "db_faults s = []" "\<not> audit_done s"
    using inv Cons by (auto simp: audit_inv_def)
  show ?thesis
  proof (cases "ae_flusher e")
    case None
    with work Cons rest have "s' = snd (insert_audit now e (s\<lparr>audit_ch := es\<rparr>))"
      by (simp add: audit_work_def)
    then show ?thesis
      using taken rest Cons None unfolding audit_inv_def
      by (intro conjI exI [of _ "taken @ [e]"])
        (auto simp: insert_audit_def row_content_def audit_content_def)
  next
    case (Some n)
    with work Cons rest have "s' = s\<lparr>audit_ch := es, audit_flushed := n # audit_flushed s\<rparr>"
      by (simp add: audit_work_def)
    then show ?thesis
      using taken rest Cons Some unfolding audit_inv_def
      by (intro conjI exI [of _ "taken @ [e]"]) auto
  qed
qed

lemma audit_enqueue_inv:
  assumes "audit_inv (acc, s)" and "\<not> audit_closed s" and "length (audit_ch s) < audit_cap"
    and "\<And>n. ae_flusher e = Some n \<Longrightarrow> e = flush_marker n"
  shows "audit_inv (acc @ [e], s\<lparr>audit_ch := audit_ch s @ [e]\<rparr>)"
  using assms by (auto simp: audit_inv_def)

lemma audit_step_inv: "audit_step r r' \<Longrightarrow> audit_inv r \<Longrightarrow> audit_inv r'"
proof (induction rule: audit_step.induct)
  case (accept s e acc)
  then show ?case by (auto simp: LogAudit_accept intro: audit_enqueue_inv)
next
  case (drop s acc u n ip q ep st)
  then show ?case by (simp add: LogAudit_def)
next
  case (flush n s s' acc)
  then show ?case
    by (auto simp: flush_send_def flush_marker_def split: if_splits intro!: audit_enqueue_inv)
next
  case (work now s s' acc)
  then show ?case by (blast intro: audit_work_inv)
next
  case (close s acc)
  then show ?case by (auto simp: audit_inv_def close_audit_def)
qed

text \<open>A run starts with an empty queue and a database as it was opened.\<close>

definition audit_init :: "sysdb \<Rightarrow> bool" where
  "audit_init s \<longleftrightarrow>
     audit_ch s = [] \<and> \<not> audit_closed s \<and> \<not> audit_done s \<and> audit_flushed s = [] \<and>
     db_faults s = [] \<and> t_rows (db_audit s) = []"

lemma audit_init_inv: "audit_init s \<Longrightarrow> audit_inv ([], s)"
  by (simp add: audit_init_def audit_inv_def)

lemma audit_reach_inv:
  assumes "audit_init s0" and "audit_step\<^sup>*\<^sup>* ([], s0) r"
  shows "audit_inv r"
  using assms(2) by (induction rule: rtranclp_induct)
    (auto intro: audit_init_inv [OF assms(1)] audit_step_inv)

text \<open>Progress: while entries are queued, the worker is never stuck.\<close>

lemma audit_work_progress:
  "audit_inv (acc, s) \<Longrightarrow> audit_ch s \<noteq> [] \<or> audit_closed s \<Longrightarrow> \<not> audit_done s \<Longrightarrow>
     \<exists>s'. audit_work now s = Some s'"
  by (auto simp: audit_work_def split: list.splits option.splits)

text \<open>The worker alone: \<open>n\<close> rounds.\<close>

fun audit_drain :: "nat \<Rightarrow> int \<Rightarrow> sysdb \<Rightarrow> sysdb" where
  "audit_drain 0 now s = s"
| "audit_drain (Suc n) now s =
     (case audit_work now s of None \<Rightarrow> s | Some s' \<Rightarrow> audit_drain n now s')"

lemma audit_drain_inv: "audit_inv (acc, s) \<Longrightarrow> audit_inv (acc, audit_drain n now s)"
  by (induction n arbitrary: s) (auto split: option.splits intro: audit_work_inv)

lemma audit_work_shorter:
  assumes "audit_work now s = Some s'" and "audit_ch s = e # es"
  shows "audit_ch s' = es \<and> audit_closed s' = audit_closed s \<and> audit_done s' = audit_done s"
proof (cases "ae_flusher e")
  case None
  have "audit_ch (snd (insert_audit now e t)) = audit_ch t"
    "audit_closed (snd (insert_audit now e t)) = audit_closed t"
    "audit_done (snd (insert_audit now e t)) = audit_done t" for t
    unfolding insert_audit_def by (rule exec_frame; simp)+
  with None assms show ?thesis by (auto simp: audit_work_def split: if_splits)
qed (use assms in \<open>auto simp: audit_work_def split: if_splits\<close>)

lemma audit_drain_done:
  assumes "audit_inv (acc, s)" and "audit_closed s" and "\<not> audit_done s"
  shows "audit_done (audit_drain (Suc (length (audit_ch s))) now s)"
  using assms
proof (induction "audit_ch s" arbitrary: s)
  case Nil
  then show ?case by (simp add: audit_work_def)
next
  case (Cons e es)
  then obtain s' where s': "audit_work now s = Some s'"
    using audit_work_progress [of acc s now] by auto
  note short = audit_work_shorter [OF s' Cons.hyps(2) [symmetric]]
  have "audit_done (audit_drain (Suc (length (audit_ch s'))) now s')"
    using Cons.hyps(1) [of s'] short Cons.prems audit_work_inv [OF Cons.prems(1) s'] by simp
  moreover have "length (audit_ch s) = Suc (length (audit_ch s'))"
    using short Cons.hyps(2) by (metis length_Cons)
  moreover have "audit_drain (Suc (length (audit_ch s))) now s = audit_drain (length (audit_ch s)) now s'"
    using s' by (subst audit_drain.simps(2)) simp
  ultimately show ?case by (simp only:)
qed

end
