(* ===== verification/Files.thy ===== *)
theory Files
  imports GoStrings
begin

text \<open>
  What the code uses of Go's \<open>os\<close>, \<open>io\<close> and \<open>path/filepath\<close>: files with names and inodes, so
  that a file that is removed while a database has it open lives on without a name. Paths are
  cleaned lexically before they are looked up; symbolic links and permissions are not modelled.
  Failures of the operating system are an input, as for the database: a script with one entry per
  system call, \<open>None\<close> for a call that runs and \<open>Some (e, n)\<close> for one that fails, where a failing
  write has stored the first \<open>n\<close> bytes, or has not touched the file if \<open>n\<close> is \<open>None\<close>.
\<close>

section \<open>Paths\<close>

fun clean_parts :: "bool \<Rightarrow> string list \<Rightarrow> string list \<Rightarrow> string list" where
  "clean_parts rooted acc [] = rev acc"
| "clean_parts rooted acc (p # ps) =
     (if p = [] \<or> p = ''.'' then clean_parts rooted acc ps
      else if p = ''..'' then
        (case acc of
           [] \<Rightarrow> clean_parts rooted (if rooted then [] else [''..'']) ps
         | a # as \<Rightarrow> if a = ''..'' then clean_parts rooted (''..'' # acc) ps
                     else clean_parts rooted as ps)
      else clean_parts rooted (p # acc) ps)"

definition path_clean :: "string \<Rightarrow> string" where
  "path_clean s =
     (if s = [] then ''.''
      else let rooted = (hd s = CHR ''/'');
               body = join ''/'' (clean_parts rooted [] (split_on CHR ''/'' s))
           in if rooted then CHR ''/'' # body else if body = [] then ''.'' else body)"

definition path_join :: "string list \<Rightarrow> string" where
  "path_join es =
     (let ne = filter (\<lambda>e. e \<noteq> []) es in if ne = [] then [] else path_clean (join ''/'' ne))"

text \<open>\<open>filepath.Ext\<close>: from the last dot of the last element on, empty without one.\<close>

definition path_ext :: "string \<Rightarrow> string" where
  "path_ext s =
     (let base = rev (takeWhile (\<lambda>c. c \<noteq> CHR ''/'') (rev s))
      in if CHR ''.'' \<in> set base
         then rev (takeWhile (\<lambda>c. c \<noteq> CHR ''.'') (rev base) @ ''.'') else [])"

text \<open>The directory and the name of a cleaned path.\<close>

definition path_split :: "string \<Rightarrow> string \<times> string" where
  "path_split s =
     (let name = rev (takeWhile (\<lambda>c. c \<noteq> CHR ''/'') (rev s));
          dir = take (length s - length name) s
      in (path_clean dir, name))"

section \<open>State\<close>

text \<open>A file: its bytes, what SQLite keeps beside it in the write-ahead log, and its time.\<close>

record inode =
  i_main :: string
  i_wal :: string
  i_mtime :: int

record os =
  os_names :: "(string \<times> nat) list"
  os_dirs :: "string list"
  os_data :: "nat \<Rightarrow> inode"
  os_next :: nat
  os_faults :: "(gerr \<times> nat option) option list"
  os_rand :: "string option list"

definition empty_os :: os where
  "empty_os = \<lparr>os_names = [], os_dirs = [], os_data = (\<lambda>i. \<lparr>i_main = [], i_wal = [], i_mtime = 0\<rparr>),
     os_next = 0, os_faults = [], os_rand = []\<rparr>"

definition sys_call :: "(nat \<Rightarrow> os \<Rightarrow> os) \<Rightarrow> (os \<Rightarrow> 'a res \<times> os) \<Rightarrow> os \<Rightarrow> 'a res \<times> os" where
  "sys_call part f s =
     (case os_faults s of
        [] \<Rightarrow> f s
      | None # fs \<Rightarrow> f (s\<lparr>os_faults := fs\<rparr>)
      | Some (e, None) # fs \<Rightarrow> (Inl e, s\<lparr>os_faults := fs\<rparr>)
      | Some (e, Some n) # fs \<Rightarrow> (Inl e, part n (s\<lparr>os_faults := fs\<rparr>)))"

abbreviation plain_call :: "(os \<Rightarrow> 'a res \<times> os) \<Rightarrow> os \<Rightarrow> 'a res \<times> os" where
  "plain_call \<equiv> sys_call (\<lambda>n s. s)"

definition ErrNotExist :: gerr where
  "ErrNotExist = Err ''no such file or directory''"

definition find_file :: "string \<Rightarrow> os \<Rightarrow> nat option" where
  "find_file p s = map_of (os_names s) (path_clean p)"

definition is_dir :: "string \<Rightarrow> os \<Rightarrow> bool" where
  "is_dir p s \<longleftrightarrow> path_clean p \<in> set (os_dirs s)"

text \<open>The bytes under a path, \<open>None\<close> if there is no such file.\<close>

definition content :: "string \<Rightarrow> os \<Rightarrow> string option" where
  "content p s = map_option (\<lambda>i. i_main (os_data s i)) (find_file p s)"

definition put_main :: "nat \<Rightarrow> int \<Rightarrow> string \<Rightarrow> os \<Rightarrow> os" where
  "put_main i now d s =
     s\<lparr>os_data := (os_data s)(i := (os_data s i)\<lparr>i_main := d, i_mtime := now\<rparr>)\<rparr>"

text \<open>\<open>O_CREATE\<close>: the file under a path, a new empty one if there is none.\<close>

definition creat :: "int \<Rightarrow> string \<Rightarrow> os \<Rightarrow> nat \<times> os" where
  "creat now p s =
     (case find_file p s of
        Some i \<Rightarrow> (i, s)
      | None \<Rightarrow>
          (os_next s, s\<lparr>os_names := os_names s @ [(path_clean p, os_next s)],
             os_data := (os_data s)(os_next s := \<lparr>i_main = [], i_wal = [], i_mtime = now\<rparr>),
             os_next := os_next s + 1\<rparr>))"

section \<open>System calls\<close>

definition ReadFile :: "string \<Rightarrow> os \<Rightarrow> string res \<times> os" where
  "ReadFile p = plain_call (\<lambda>s.
     if is_dir p s then (Inl (Err ''is a directory''), s)
     else case content p s of None \<Rightarrow> (Inl ErrNotExist, s) | Some d \<Rightarrow> (Inr d, s))"

definition write_main :: "int \<Rightarrow> string \<Rightarrow> string \<Rightarrow> os \<Rightarrow> os" where
  "write_main now p d s = (case creat now p s of (i, s1) \<Rightarrow> put_main i now d s1)"

definition WriteFile :: "int \<Rightarrow> string \<Rightarrow> string \<Rightarrow> os \<Rightarrow> unit res \<times> os" where
  "WriteFile now p d = sys_call (\<lambda>n. write_main now p (take n d)) (\<lambda>s.
     if is_dir p s then (Inl (Err ''is a directory''), s) else (Inr (), write_main now p d s))"

definition unlink :: "string \<Rightarrow> os \<Rightarrow> os" where
  "unlink p s = s\<lparr>os_names := filter (\<lambda>e. fst e \<noteq> path_clean p) (os_names s)\<rparr>"

definition Remove :: "string \<Rightarrow> os \<Rightarrow> unit res \<times> os" where
  "Remove p = plain_call (\<lambda>s.
     case find_file p s of
       Some i \<Rightarrow> (Inr (), unlink p s)
     | None \<Rightarrow>
         if \<not> is_dir p s then (Inl ErrNotExist, s)
         else if \<exists>n\<in>set (map fst (os_names s) @ os_dirs s). fst (path_split n) = path_clean p
         then (Inl (Err ''directory not empty''), s)
         else (Inr (), s\<lparr>os_dirs := removeAll (path_clean p) (os_dirs s)\<rparr>))"

definition Rename :: "string \<Rightarrow> string \<Rightarrow> os \<Rightarrow> unit res \<times> os" where
  "Rename p q = plain_call (\<lambda>s.
     case find_file p s of
       None \<Rightarrow> (Inl ErrNotExist, s)
     | Some i \<Rightarrow>
         if is_dir q s then (Inl (Err ''file exists''), s)
         else (Inr (), let s1 = unlink q (unlink p s)
                       in s1\<lparr>os_names := os_names s1 @ [(path_clean q, i)]\<rparr>))"

record file_info =
  fi_size :: nat
  fi_mtime :: int
  fi_dir :: bool

definition Stat :: "string \<Rightarrow> os \<Rightarrow> file_info res \<times> os" where
  "Stat p = plain_call (\<lambda>s.
     if is_dir p s then (Inr \<lparr>fi_size = 0, fi_mtime = 0, fi_dir = True\<rparr>, s)
     else case find_file p s of
       None \<Rightarrow> (Inl ErrNotExist, s)
     | Some i \<Rightarrow> (Inr \<lparr>fi_size = length (i_main (os_data s i)), fi_mtime = i_mtime (os_data s i),
                      fi_dir = False\<rparr>, s))"

definition MkdirAll :: "string \<Rightarrow> os \<Rightarrow> unit res \<times> os" where
  "MkdirAll p = plain_call (\<lambda>s.
     if find_file p s \<noteq> None then (Inl (Err ''not a directory''), s)
     else (Inr (), s\<lparr>os_dirs := List.insert (path_clean p) (os_dirs s)\<rparr>))"

text \<open>The names in a directory with their file, or \<open>None\<close> for a directory; in name order in Go.\<close>

definition ReadDir :: "string \<Rightarrow> os \<Rightarrow> (string \<times> nat option) list res \<times> os" where
  "ReadDir p = plain_call (\<lambda>s.
     if \<not> is_dir p s then (Inl ErrNotExist, s)
     else (Inr (map (\<lambda>(n, i). (snd (path_split n), Some i))
                  (filter (\<lambda>(n, i). fst (path_split n) = path_clean p) (os_names s))
              @ map (\<lambda>n. (snd (path_split n), None))
                  (filter (\<lambda>n. fst (path_split n) = path_clean p \<and> n \<noteq> path_clean p) (os_dirs s))), s))"

definition RemoveAll :: "string \<Rightarrow> os \<Rightarrow> unit res \<times> os" where
  "RemoveAll p = plain_call (\<lambda>s.
     (Inr (), s\<lparr>os_names := filter (\<lambda>(n, i). n \<noteq> path_clean p \<and> \<not> prefix (path_clean p @ ''/'') n) (os_names s),
                os_dirs := filter (\<lambda>n. n \<noteq> path_clean p \<and> \<not> prefix (path_clean p @ ''/'') n) (os_dirs s)\<rparr>))"

text \<open>\<open>rand.Read\<close>: the next entry of the script of random bytes; a used-up script fails.\<close>

definition rand_read :: "nat \<Rightarrow> os \<Rightarrow> string res \<times> os" where
  "rand_read n s =
     (case os_rand s of
        Some b # rs \<Rightarrow>
          if length b = n then (Inr b, s\<lparr>os_rand := rs\<rparr>) else (Inl (Err ''rand''), s\<lparr>os_rand := rs\<rparr>)
      | None # rs \<Rightarrow> (Inl (Err ''rand''), s\<lparr>os_rand := rs\<rparr>)
      | [] \<Rightarrow> (Inl (Err ''rand''), s))"

section \<open>Lemmas\<close>

lemma sys_call_ok [simp]: "os_faults s = [] \<Longrightarrow> sys_call part f s = f s"
  by (simp add: sys_call_def)

lemma map_of_filter_name:
  "map_of (filter (\<lambda>e. fst e \<noteq> k) xs) x = (if x = k then None else map_of xs x)"
  by (induction xs) auto

lemma find_unlink [simp]:
  "find_file q (unlink p s) = (if path_clean q = path_clean p then None else find_file q s)"
  by (simp add: find_file_def unlink_def map_of_filter_name)

lemma content_unlink [simp]:
  "content q (unlink p s) = (if path_clean q = path_clean p then None else content q s)"
  by (simp add: content_def) (simp add: unlink_def)

text \<open>Well-formed: names point below the counter, and no two names to one inode.\<close>

definition os_ok :: "os \<Rightarrow> bool" where
  "os_ok s \<longleftrightarrow> distinct (map fst (os_names s)) \<and> distinct (map snd (os_names s)) \<and>
     (\<forall>i\<in>set (map snd (os_names s)). i < os_next s)"

lemma os_ok_empty [simp]: "os_ok empty_os"
  by (simp add: os_ok_def empty_os_def)

lemma find_file_less: "os_ok s \<Longrightarrow> find_file p s = Some i \<Longrightarrow> i < os_next s"
  by (auto simp: os_ok_def find_file_def dest!: map_of_SomeD)

lemma find_file_inj:
  assumes "os_ok s" and "find_file p s = Some i" and "find_file q s = Some i"
  shows "path_clean p = path_clean q"
proof -
  have "(path_clean p, i) \<in> set (os_names s)" "(path_clean q, i) \<in> set (os_names s)"
    using assms(2,3) by (auto simp: find_file_def dest: map_of_SomeD)
  moreover have "inj_on snd (set (os_names s))" using assms(1) by (simp add: os_ok_def distinct_map)
  ultimately show ?thesis by (metis Pair_inject inj_onD snd_conv)
qed

lemma write_existing:
  "find_file p s = Some i \<Longrightarrow> write_main now p d s = put_main i now d s"
  by (simp add: write_main_def creat_def)

lemma write_new:
  "find_file p s = None \<Longrightarrow> write_main now p d s =
     s\<lparr>os_names := os_names s @ [(path_clean p, os_next s)],
       os_data := (os_data s)(os_next s := \<lparr>i_main = d, i_wal = [], i_mtime = now\<rparr>),
       os_next := os_next s + 1\<rparr>"
  by (simp add: write_main_def creat_def put_main_def)

lemma find_write_main:
  "find_file q (write_main now p d s) =
     (if path_clean q = path_clean p \<and> find_file p s = None then Some (os_next s) else find_file q s)"
proof (cases "find_file p s")
  case None
  then show ?thesis
    by (simp add: write_new) (simp add: find_file_def map_add_def split: option.split)
next
  case (Some i)
  then show ?thesis by (simp add: write_existing) (simp add: find_file_def put_main_def)
qed

lemma content_write_main:
  assumes "os_ok s"
  shows "content q (write_main now p d s) = (if path_clean q = path_clean p then Some d else content q s)"
proof (cases "find_file p s")
  case None
  have old: "find_file q s \<noteq> Some (os_next s)" using find_file_less [OF assms] by blast
  have data: "os_data (write_main now p d s) =
      (os_data s)(os_next s := \<lparr>i_main = d, i_wal = [], i_mtime = now\<rparr>)"
    by (simp add: write_new [OF None])
  show ?thesis
  proof (cases "path_clean q = path_clean p")
    case True
    then show ?thesis using None by (simp add: content_def find_write_main data)
  next
    case False
    then show ?thesis using old by (cases "find_file q s") (simp_all add: content_def find_write_main data)
  qed
next
  case (Some i)
  have data: "os_data (write_main now p d s) =
      (os_data s)(i := (os_data s i)\<lparr>i_main := d, i_mtime := now\<rparr>)"
    by (simp add: write_existing [OF Some] put_main_def)
  show ?thesis
  proof (cases "path_clean q = path_clean p")
    case True
    then have "find_file q s = Some i" using Some by (simp add: find_file_def)
    then show ?thesis using True Some by (simp add: content_def find_write_main data)
  next
    case False
    then have "find_file q s \<noteq> Some i" using find_file_inj [OF assms Some, of q] by auto
    then show ?thesis using False by (cases "find_file q s") (simp_all add: content_def find_write_main data)
  qed
qed

lemma os_ok_write_main [simp]:
  assumes "os_ok s"
  shows "os_ok (write_main now p d s)"
proof (cases "find_file p s")
  case None
  then have "path_clean p \<notin> set (map fst (os_names s))"
    by (auto simp: find_file_def map_of_eq_None_iff)
  moreover have "\<forall>i\<in>set (map snd (os_names s)). i < os_next s" using assms by (simp add: os_ok_def)
  then have "os_next s \<notin> set (map snd (os_names s))" by blast
  ultimately show ?thesis
    using assms by (simp add: write_new [OF None] os_ok_def less_Suc_eq)
next
  case (Some i)
  then show ?thesis
    using assms by (simp add: write_existing os_ok_def put_main_def)
qed

lemma os_ok_unlink [simp]: "os_ok s \<Longrightarrow> os_ok (unlink p s)"
  by (auto simp: os_ok_def unlink_def distinct_map_filter)

lemma write_main_frame [simp]:
  "os_faults (write_main now p d s) = os_faults s" "os_rand (write_main now p d s) = os_rand s"
  "os_dirs (write_main now p d s) = os_dirs s"
  "os_faults (unlink p s) = os_faults s" "os_rand (unlink p s) = os_rand s"
  "os_dirs (unlink p s) = os_dirs s"
  by (simp_all add: write_main_def creat_def put_main_def unlink_def split: prod.split option.split)

lemma os_ok_frame [simp]:
  "os_ok (s\<lparr>os_faults := fs\<rparr>) = os_ok s" "os_ok (s\<lparr>os_rand := rs\<rparr>) = os_ok s"
  "os_ok (s\<lparr>os_dirs := ds\<rparr>) = os_ok s"
  "find_file p (s\<lparr>os_rand := rs\<rparr>) = find_file p s" "content p (s\<lparr>os_rand := rs\<rparr>) = content p s"
  "is_dir p (s\<lparr>os_rand := rs\<rparr>) = is_dir p s"
  "find_file p (s\<lparr>os_faults := fs\<rparr>) = find_file p s" "content p (s\<lparr>os_faults := fs\<rparr>) = content p s"
  "is_dir p (s\<lparr>os_faults := fs\<rparr>) = is_dir p s"
  "content p (s\<lparr>os_dirs := ds\<rparr>) = content p s"
  by (simp_all add: os_ok_def find_file_def content_def is_dir_def)

lemma is_dir_write [simp]: "is_dir p (write_main now q d s) = is_dir p s" "is_dir p (unlink q s) = is_dir p s"
  by (simp_all add: is_dir_def)

end
