(* ===== verification/Cipher.thy ===== *)
theory Cipher
  imports Encoding Files
begin

text \<open>
  Encryption of files, \<open>internal/encryption/cipher.go\<close>. AES-GCM itself is a parameter, a pair of
  functions; the hypothesis \<open>gcm_ok\<close> is its documented behaviour.
\<close>

section \<open>Ciphers\<close>

record gcm =
  g_seal :: "string \<Rightarrow> string \<Rightarrow> string \<Rightarrow> string"
  g_open :: "string \<Rightarrow> string \<Rightarrow> string \<Rightarrow> string option"

definition NonceSize :: nat where
  "NonceSize = 12"

text \<open>Opening undoes sealing under the same key and nonce, and a sealed text is longer by its tag.\<close>

definition gcm_ok :: "gcm \<Rightarrow> bool" where
  "gcm_ok g \<longleftrightarrow> (\<forall>k n p. length n = NonceSize \<longrightarrow>
     g_open g k n (g_seal g k n p) = Some p \<and> length (g_seal g k n p) = length p + 16)"

text \<open>The struct: the key; its AEAD is \<open>gcm\<close> under that key.\<close>

record cipher =
  ci_key :: string

text \<open>\<open>aes.NewCipher\<close> and \<open>cipher.NewGCM\<close> accept a key of these sizes, so they add no error.\<close>

definition NewCipher :: "string \<Rightarrow> cipher res" where
  "NewCipher key =
     (if length key = 16 \<or> length key = 24 \<or> length key = 32 then Inr \<lparr>ci_key = key\<rparr>
      else Inl (Err (''invalid key size '' @ dec_nat (length key) @ '': must be 16, 24, or 32 bytes'')))"

definition NewCipherFromHex :: "string \<Rightarrow> cipher res" where
  "NewCipherFromHex hexKey =
     (case hex_decode hexKey of
        None \<Rightarrow> Inl (Wrap ''decode hex key'' (Err ''encoding/hex''))
      | Some key \<Rightarrow> NewCipher key)"

definition GenerateKey :: "os \<Rightarrow> string res \<times> os" where
  "GenerateKey s = (case rand_read 32 s of (r, s1) \<Rightarrow> (wrap_err ''generate key'' r, s1))"

section \<open>Encryption\<close>

definition Encrypt :: "gcm \<Rightarrow> cipher \<Rightarrow> string \<Rightarrow> os \<Rightarrow> string res \<times> os" where
  "Encrypt g c plaintext s =
     (case rand_read NonceSize s of
        (Inl e, s1) \<Rightarrow> (Inl (Wrap ''generate nonce'' e), s1)
      | (Inr nonce, s1) \<Rightarrow> (Inr (nonce @ g_seal g (ci_key c) nonce plaintext), s1))"

definition Decrypt :: "gcm \<Rightarrow> cipher \<Rightarrow> string \<Rightarrow> string res" where
  "Decrypt g c data =
     (if length data < NonceSize then Inl (Err ''ciphertext too short'')
      else case g_open g (ci_key c) (take NonceSize data) (drop NonceSize data) of
        None \<Rightarrow> Inl (Wrap ''decrypt'' (Err ''cipher: message authentication failed''))
      | Some plaintext \<Rightarrow> Inr plaintext)"

definition EncryptFile :: "gcm \<Rightarrow> cipher \<Rightarrow> int \<Rightarrow> string \<Rightarrow> os \<Rightarrow> unit res \<times> os" where
  "EncryptFile g c now path s =
     (case ReadFile path s of
        (Inl e, s1) \<Rightarrow> (Inl (Wrap ''read file'' e), s1)
      | (Inr plaintext, s1) \<Rightarrow>
          case Encrypt g c plaintext s1 of
            (Inl e, s2) \<Rightarrow> (Inl (Wrap ''encrypt'' e), s2)
          | (Inr ciphertext, s2) \<Rightarrow>
              case WriteFile now path ciphertext s2 of (r, s3) \<Rightarrow> (wrap_err ''write file'' r, s3))"

definition DecryptFile :: "gcm \<Rightarrow> cipher \<Rightarrow> int \<Rightarrow> string \<Rightarrow> os \<Rightarrow> unit res \<times> os" where
  "DecryptFile g c now path s =
     (case ReadFile path s of
        (Inl e, s1) \<Rightarrow> (Inl (Wrap ''read file'' e), s1)
      | (Inr ciphertext, s1) \<Rightarrow>
          case Decrypt g c ciphertext of
            Inl e \<Rightarrow> (Inl (Wrap ''decrypt'' e), s1)
          | Inr plaintext \<Rightarrow>
              case WriteFile now path plaintext s1 of (r, s2) \<Rightarrow> (wrap_err ''write file'' r, s2))"

definition EncryptCopy :: "gcm \<Rightarrow> cipher \<Rightarrow> int \<Rightarrow> string \<Rightarrow> string \<Rightarrow> os \<Rightarrow> unit res \<times> os" where
  "EncryptCopy g c now src dst s =
     (case ReadFile src s of
        (Inl e, s1) \<Rightarrow> (Inl (Wrap ''read source'' e), s1)
      | (Inr plaintext, s1) \<Rightarrow>
          case Encrypt g c plaintext s1 of
            (Inl e, s2) \<Rightarrow> (Inl (Wrap ''encrypt'' e), s2)
          | (Inr ciphertext, s2) \<Rightarrow>
              case WriteFile now dst ciphertext s2 of (r, s3) \<Rightarrow> (wrap_err ''write destination'' r, s3))"

definition DecryptCopy :: "gcm \<Rightarrow> cipher \<Rightarrow> int \<Rightarrow> string \<Rightarrow> string \<Rightarrow> os \<Rightarrow> unit res \<times> os" where
  "DecryptCopy g c now src dst s =
     (case ReadFile src s of
        (Inl e, s1) \<Rightarrow> (Inl (Wrap ''read source'' e), s1)
      | (Inr ciphertext, s1) \<Rightarrow>
          case Decrypt g c ciphertext of
            Inl e \<Rightarrow> (Inl (Wrap ''decrypt'' e), s1)
          | Inr plaintext \<Rightarrow>
              case WriteFile now dst plaintext s1 of (r, s2) \<Rightarrow> (wrap_err ''write destination'' r, s2))"

text \<open>The reader's data, or its error, is an argument.\<close>

definition EncryptReader :: "gcm \<Rightarrow> cipher \<Rightarrow> string res \<Rightarrow> os \<Rightarrow> string res \<times> os" where
  "EncryptReader g c r s =
     (case r of
        Inl e \<Rightarrow> (Inl (Wrap ''read input'' e), s)
      | Inr plaintext \<Rightarrow> Encrypt g c plaintext s)"

text \<open>\<open>env\<close> is the value of \<open>SPARKDB_ENCRYPTION_KEY\<close>, empty if unset.\<close>

definition GetCipher :: "string \<Rightarrow> string \<Rightarrow> string \<Rightarrow> os \<Rightarrow> cipher res \<times> os" where
  "GetCipher env key keyFile s =
     (let finish = (\<lambda>k s. let k = (if k = [] then env else k)
                    in (if k = [] then Inl (Err ''no encryption key found'') else NewCipherFromHex k, s))
      in if key = [] \<and> keyFile \<noteq> []
         then (case ReadFile keyFile s of
                 (Inl e, s1) \<Rightarrow> (Inl (Wrap ''read key file'' e), s1)
               | (Inr data, s1) \<Rightarrow> finish data s1)
         else finish key s)"

section \<open>Lemmas\<close>

lemma NewCipher_iff: "NewCipher key = Inr c \<longleftrightarrow> length key \<in> {16, 24, 32} \<and> c = \<lparr>ci_key = key\<rparr>"
  by (auto simp: NewCipher_def)

lemma rand_read_Some [simp]:
  "os_rand s = Some b # rs \<Longrightarrow> length b = n \<Longrightarrow> rand_read n s = (Inr b, s\<lparr>os_rand := rs\<rparr>)"
  by (simp add: rand_read_def)

lemma rand_read_Inr:
  "rand_read n s = (Inr b, s') \<Longrightarrow> length b = n \<and> (\<exists>rs. s' = s\<lparr>os_rand := rs\<rparr>)"
  by (auto simp: rand_read_def split: list.splits option.splits if_splits)

lemma rand_read_frame: "\<exists>rs. snd (rand_read n s) = s\<lparr>os_rand := rs\<rparr>"
proof -
  have same: "s = s\<lparr>os_rand := os_rand s\<rparr>" by simp
  show ?thesis
    by (auto simp: rand_read_def split: list.split option.split intro: same exI)
qed

lemma Decrypt_sealed:
  "gcm_ok g \<Longrightarrow> length n = NonceSize \<Longrightarrow>
     Decrypt g c (n @ g_seal g (ci_key c) n p) = Inr p"
  by (simp add: Decrypt_def gcm_ok_def)

text \<open>Whatever \<open>Encrypt\<close> returns, \<open>Decrypt\<close> under the same key returns what went in.\<close>

lemma Decrypt_Encrypt:
  assumes "gcm_ok g" and "Encrypt g c p s = (Inr d, s')" and "ci_key c' = ci_key c"
  shows "Decrypt g c' d = Inr p" and "length d = length p + 28"
proof -
  obtain n where n: "length n = NonceSize" "d = n @ g_seal g (ci_key c) n p"
    using assms(2) by (auto simp: Encrypt_def split: prod.splits sum.splits dest: rand_read_Inr)
  show "Decrypt g c' d = Inr p"
    using Decrypt_sealed [of g n c' p] assms(1,3) n by simp
  show "length d = length p + 28"
    using assms(1) n by (simp add: gcm_ok_def NonceSize_def)
qed

lemma ReadFile_ok [simp]:
  "os_faults s = [] \<Longrightarrow> \<not> is_dir p s \<Longrightarrow> content p s = Some d \<Longrightarrow> ReadFile p s = (Inr d, s)"
  by (simp add: ReadFile_def)

lemma WriteFile_ok [simp]:
  "os_faults s = [] \<Longrightarrow> \<not> is_dir p s \<Longrightarrow> WriteFile now p d s = (Inr (), write_main now p d s)"
  by (simp add: WriteFile_def)

lemma Encrypt_Some:
  "os_rand s = Some n # rs \<Longrightarrow> length n = NonceSize \<Longrightarrow>
     Encrypt g c p s = (Inr (n @ g_seal g (ci_key c) n p), s\<lparr>os_rand := rs\<rparr>)"
  by (simp add: Encrypt_def)

lemma EncryptFile_ok:
  assumes "os_faults s = []" and "\<not> is_dir p s" and "content p s = Some d"
    and "os_rand s = Some n # rs" and "length n = NonceSize"
  shows "EncryptFile g c now p s =
     (Inr (), write_main now p (n @ g_seal g (ci_key c) n d) (s\<lparr>os_rand := rs\<rparr>))"
  using assms by (simp add: EncryptFile_def Encrypt_Some)

lemma EncryptCopy_ok:
  assumes "os_faults s = []" and "\<not> is_dir p s" and "\<not> is_dir q s" and "content p s = Some d"
    and "os_rand s = Some n # rs" and "length n = NonceSize"
  shows "EncryptCopy g c now p q s =
     (Inr (), write_main now q (n @ g_seal g (ci_key c) n d) (s\<lparr>os_rand := rs\<rparr>))"
  using assms by (simp add: EncryptCopy_def Encrypt_Some)

lemma DecryptCopy_ok:
  assumes "os_faults s = []" and "\<not> is_dir p s" and "\<not> is_dir q s" and "content p s = Some d"
    and "Decrypt g c d = Inr x"
  shows "DecryptCopy g c now p q s = (Inr (), write_main now q x s)"
  using assms by (simp add: DecryptCopy_def)

lemma DecryptFile_ok:
  assumes "os_faults s = []" and "\<not> is_dir p s" and "content p s = Some d"
    and "Decrypt g c d = Inr x"
  shows "DecryptFile g c now p s = (Inr (), write_main now p x s)"
  using assms by (simp add: DecryptFile_def)

text \<open>Encrypting a file in place and decrypting it leaves the bytes it had, and no other file changed.\<close>

lemma file_roundtrip:
  assumes "gcm_ok g" and "os_ok s" and "os_faults s = []" and "\<not> is_dir p s"
    and "content p s = Some d" and "EncryptFile g c now p s = (Inr (), s1)"
  shows "fst (DecryptFile g c now' p s1) = Inr () \<and>
     content q (snd (DecryptFile g c now' p s1)) = content q s"
proof -
  obtain n rs where n: "length n = NonceSize"
    "s1 = write_main now p (n @ g_seal g (ci_key c) n d) (s\<lparr>os_rand := rs\<rparr>)"
    using assms(3-6)
    by (auto simp: EncryptFile_def Encrypt_def split: prod.splits sum.splits dest!: rand_read_Inr)
  have "content p s1 = Some (n @ g_seal g (ci_key c) n d)"
    using n assms(2) by (simp add: content_write_main)
  then have "DecryptFile g c now' p s1 = (Inr (), write_main now' p d s1)"
    using n assms(1,3,4) by (intro DecryptFile_ok) (auto simp: Decrypt_sealed)
  moreover have "path_clean q = path_clean p \<Longrightarrow> content q s = Some d"
    using assms(5) by (simp add: content_def find_file_def)
  moreover have "os_ok s1" using n(2) assms(2) by simp
  ultimately show ?thesis using n(2) assms(2) by (auto simp: content_write_main)
qed

end
