(* ===== verification/DbManager.thy ===== *)
theory DbManager
  imports Cipher
begin

text \<open>
  The manager of user databases, \<open>internal/database/sqlite.go\<close>: the map of open databases, opening
  with the connection's pragmas, decryption into a scratch directory before opening and encryption
  after closing, and the listing of the data directory. SQLite is a parameter: functions on a
  session, which is the file a connection has open, the copy a transaction works on, and the
  statements the connection has run. Go's pool keeps one connection here.
\<close>

section \<open>The engine\<close>

datatype sqlval = VNull | VInt int | VReal string | VText string | VBlob string

record session =
  se_disk :: inode
  se_tx :: "inode option"
  se_log :: "string list"

text \<open>
  The rows a query yields: the columns, then one entry per \<open>rows.Next()\<close>, an error where \<open>Scan\<close>
  fails; \<open>cu_err\<close> is what \<open>rows.Err()\<close> would report after the last one.
\<close>

record cursor =
  cu_columns :: "string list res"
  cu_rows :: "sqlval list res list"
  cu_err :: "gerr option"

record engine =
  sq_exec :: "string \<Rightarrow> sqlval list \<Rightarrow> session \<Rightarrow> (int \<times> int) res \<times> session"
  sq_query :: "string \<Rightarrow> sqlval list \<Rightarrow> session \<Rightarrow> cursor res \<times> session"
  sq_begin :: "session \<Rightarrow> unit res \<times> session"
  sq_commit :: "session \<Rightarrow> unit res \<times> session"
  sq_rollback :: "session \<Rightarrow> unit res \<times> session"
  sq_close :: "session \<Rightarrow> unit res \<times> session"

text \<open>An open database: the inode its connection holds, whatever name that still has.\<close>

record handle =
  h_inode :: nat
  h_tx :: "inode option"
  h_log :: "string list"

definition on_handle :: "(session \<Rightarrow> 'a \<times> session) \<Rightarrow> handle \<Rightarrow> os \<Rightarrow> 'a \<times> handle \<times> os" where
  "on_handle f h s =
     (case f \<lparr>se_disk = os_data s (h_inode h), se_tx = h_tx h, se_log = h_log h\<rparr> of
        (r, se) \<Rightarrow> (r, h\<lparr>h_tx := se_tx se, h_log := se_log se\<rparr>,
                    s\<lparr>os_data := (os_data s)(h_inode h := se_disk se)\<rparr>))"

section \<open>State\<close>

record manager =
  m_dbs :: "(string \<times> handle) list"
  m_dataDir :: string
  m_walMode :: bool
  m_maxConns :: int
  m_cipher :: "cipher option"
  m_decDir :: string

record db_env =
  de_engine :: engine
  de_gcm :: gcm

definition NewManager :: "string \<Rightarrow> bool \<Rightarrow> int \<Rightarrow> manager" where
  "NewManager dataDir walMode maxConns =
     \<lparr>m_dbs = [], m_dataDir = dataDir, m_walMode = walMode, m_maxConns = maxConns,
      m_cipher = None, m_decDir = []\<rparr>"

text \<open>\<open>tmp\<close> is the directory \<open>os.MkdirTemp\<close> made, empty if that failed. WAL is always off.\<close>

definition NewEncryptedManager :: "string \<Rightarrow> bool \<Rightarrow> int \<Rightarrow> cipher \<Rightarrow> string \<Rightarrow> manager" where
  "NewEncryptedManager dataDir walMode maxConns c tmp =
     \<lparr>m_dbs = [], m_dataDir = dataDir, m_walMode = False, m_maxConns = maxConns,
      m_cipher = Some c, m_decDir = tmp\<rparr>"

definition resolvePath :: "manager \<Rightarrow> string \<Rightarrow> string" where
  "resolvePath m name = m_dataDir m @ ''/'' @ name"

definition isEncrypted :: "string \<Rightarrow> os \<Rightarrow> bool \<times> os" where
  "isEncrypted path s =
     (case Stat path s of (Inl _, s1) \<Rightarrow> (False, s1) | (Inr info, s1) \<Rightarrow> (0 < fi_size info, s1))"

section \<open>Opening\<close>

text \<open>\<open>sql.Open\<close> opens no file; the first statement makes the connection, creating the file.\<close>

definition connect :: "int \<Rightarrow> string \<Rightarrow> os \<Rightarrow> handle res \<times> os" where
  "connect now path = plain_call (\<lambda>s.
     if is_dir path s then (Inl (Err ''unable to open database file''), s)
     else case creat now path s of (i, s1) \<Rightarrow> (Inr \<lparr>h_inode = i, h_tx = None, h_log = []\<rparr>, s1))"

text \<open>The pragmas of a new connection with the message of each error; WAL only if configured.\<close>

definition open_pragmas :: "bool \<Rightarrow> (string \<times> string) list" where
  "open_pragmas wal =
     (if wal then [(''PRAGMA journal_mode=WAL'', ''enable WAL'')] else []) @
     [(''PRAGMA busy_timeout=5000'', ''set busy timeout''),
      (''PRAGMA foreign_keys=ON'', ''enable foreign keys''),
      (''PRAGMA synchronous=NORMAL'', ''set synchronous mode'')]"

fun run_pragmas :: "engine \<Rightarrow> (string \<times> string) list \<Rightarrow> handle \<Rightarrow> os \<Rightarrow> unit res \<times> handle \<times> os" where
  "run_pragmas eng [] h s = (Inr (), h, s)"
| "run_pragmas eng ((q, msg) # ps) h s =
     (case on_handle (sq_exec eng q []) h s of
        (Inl e, h1, s1) \<Rightarrow> (Inl (Wrap msg e), h1, s1)
      | (Inr _, h1, s1) \<Rightarrow> run_pragmas eng ps h1 s1)"

definition open_at :: "db_env \<Rightarrow> int \<Rightarrow> string \<Rightarrow> string \<Rightarrow> manager \<Rightarrow> os \<Rightarrow> unit res \<times> manager \<times> os" where
  "open_at d now name path m s =
     (case connect now path s of
        (Inl e, s1) \<Rightarrow> (Inl (Wrap (snd (hd (open_pragmas (m_walMode m)))) e), m, s1)
      | (Inr h, s1) \<Rightarrow>
          case run_pragmas (de_engine d) (open_pragmas (m_walMode m)) h s1 of
            (Inl e, h2, s2) \<Rightarrow>
              (case on_handle (sq_close (de_engine d)) h2 s2 of (_, _, s3) \<Rightarrow> (Inl e, m, s3))
          | (Inr _, h2, s2) \<Rightarrow> (Inr (), m\<lparr>m_dbs := (name, h2) # m_dbs m\<rparr>, s2))"

text \<open>The decrypted copy is removed when \<open>Open\<close> returns, by the deferred call.\<close>

definition Open :: "db_env \<Rightarrow> int \<Rightarrow> string \<Rightarrow> manager \<Rightarrow> os \<Rightarrow> unit res \<times> manager \<times> os" where
  "Open d now name m s =
     (if map_of (m_dbs m) name \<noteq> None then (Inr (), m, s)
      else let path = resolvePath m name in
      case m_cipher m of
        None \<Rightarrow> open_at d now name path m s
      | Some c \<Rightarrow>
          case isEncrypted path s of
            (False, s1) \<Rightarrow> open_at d now name path m s1
          | (True, s1) \<Rightarrow>
              let decPath = path_join [m_decDir m, name] in
              case DecryptCopy (de_gcm d) c now path decPath s1 of
                (Inl e, s2) \<Rightarrow> (Inl (Wrap (''decrypt database '' @ name) e), m, s2)
              | (Inr _, s2) \<Rightarrow>
                  case open_at d now name decPath m s2 of
                    (r, m3, s3) \<Rightarrow> (r, m3, snd (Remove decPath s3)))"

section \<open>Closing\<close>

text \<open>Errors of \<open>reencrypt\<close> go to the standard error output and nowhere else.\<close>

definition reencrypt :: "db_env \<Rightarrow> int \<Rightarrow> string \<Rightarrow> manager \<Rightarrow> os \<Rightarrow> os" where
  "reencrypt d now name m s =
     (case m_cipher m of
        None \<Rightarrow> s
      | Some c \<Rightarrow>
          let origPath = resolvePath m name; decPath = path_join [m_decDir m, name] in
          case Stat decPath s of
            (Inr _, s1) \<Rightarrow> snd (EncryptCopy (de_gcm d) c now decPath origPath s1)
          | (Inl _, s1) \<Rightarrow>
              case Stat origPath s1 of
                (Inl _, s2) \<Rightarrow> s2
              | (Inr info, s2) \<Rightarrow>
                  if 0 < fi_size info then snd (EncryptFile (de_gcm d) c now origPath s2) else s2)"

definition cleanupDecrypted :: "string \<Rightarrow> manager \<Rightarrow> os \<Rightarrow> os" where
  "cleanupDecrypted name m s =
     (if m_decDir m = [] then s else snd (Remove (path_join [m_decDir m, name]) s))"

definition drop_db :: "string \<Rightarrow> manager \<Rightarrow> manager" where
  "drop_db name m = m\<lparr>m_dbs := filter (\<lambda>e. fst e \<noteq> name) (m_dbs m)\<rparr>"

definition Close :: "db_env \<Rightarrow> int \<Rightarrow> string \<Rightarrow> manager \<Rightarrow> os \<Rightarrow> unit res \<times> manager \<times> os" where
  "Close d now name m s =
     (case map_of (m_dbs m) name of
        None \<Rightarrow> (Inr (), m, s)
      | Some h \<Rightarrow>
          case on_handle (sq_close (de_engine d)) h s of
            (Inl e, h1, s1) \<Rightarrow> (Inl e, m, s1)
          | (Inr _, h1, s1) \<Rightarrow>
              let m1 = drop_db name m
              in (Inr (), m1, cleanupDecrypted name m1 (reencrypt d now name m1 s1)))"

text \<open>The loop of \<open>CloseAll\<close>, in some order of the map.\<close>

fun close_loop ::
  "db_env \<Rightarrow> int \<Rightarrow> (string \<times> handle) list \<Rightarrow> gerr option \<Rightarrow> manager \<Rightarrow> os \<Rightarrow> gerr option \<times> manager \<times> os" where
  "close_loop d now [] lastErr m s = (lastErr, m, s)"
| "close_loop d now ((name, h) # hs) lastErr m s =
     (case on_handle (sq_close (de_engine d)) h s of
        (r, _, s1) \<Rightarrow>
          let lastErr' = (case r of Inl e \<Rightarrow> Some e | Inr _ \<Rightarrow> lastErr); m1 = drop_db name m
          in close_loop d now hs lastErr' m1 (cleanupDecrypted name m1 (reencrypt d now name m1 s1)))"

definition CloseAll :: "db_env \<Rightarrow> int \<Rightarrow> manager \<Rightarrow> os \<Rightarrow> unit res \<times> manager \<times> os" where
  "CloseAll d now m s =
     (case close_loop d now (m_dbs m) None m s of
        (lastErr, m1, s1) \<Rightarrow>
          ((case lastErr of None \<Rightarrow> Inr () | Some e \<Rightarrow> Inl e), m1,
           if m_decDir m1 = [] then s1 else snd (RemoveAll (m_decDir m1) s1)))"

section \<open>Listing\<close>

definition DataDir :: "manager \<Rightarrow> string" where
  "DataDir m = m_dataDir m"

definition ListOpen :: "manager \<Rightarrow> string list" where
  "ListOpen m = map fst (m_dbs m)"

definition sqliteMagic :: string where
  "sqliteMagic = ''SQLite format 3'' @ [CHR 0x00]"

definition isSQLiteFile :: "string \<Rightarrow> os \<Rightarrow> bool \<times> os" where
  "isSQLiteFile path s =
     (case ReadFile path s of
        (Inl _, s1) \<Rightarrow> (False, s1)
      | (Inr d, s1) \<Rightarrow> (16 \<le> length d \<and> take 16 d = sqliteMagic, s1))"

definition skipExts :: "string list" where
  "skipExts =
     [''.go'', ''.md'', ''.txt'', ''.json'', ''.yml'', ''.yaml'', ''.toml'', ''.mod'', ''.sum'',
      ''.crt'', ''.key'', ''.pem'', ''.js'', ''.css'', ''.html'', ''.xml'', ''.zip'', ''.tar'',
      ''.gz'', ''.png'', ''.jpg'', ''.jpeg'', ''.gif'', ''.svg'', ''.ico'', ''.pdf'', ''.log'',
      ''.bak'']"

text \<open>The names the loop over the directory skips before it looks at the file.\<close>

definition skip_name :: "string \<Rightarrow> bool" where
  "skip_name name \<longleftrightarrow>
     name \<in> {''sparkdb_system.db'', ''sparkdb_system.db-wal'', ''sparkdb_system.db-shm''} \<or>
     prefix ''.'' name \<or>
     suffix ''-wal'' name \<or> suffix ''-shm'' name \<or> suffix ''-journal'' name \<or>
     (let ext = path_ext name
      in ext \<noteq> [] \<and> ext \<noteq> ''.db'' \<and> ext \<noteq> ''.sqlite'' \<and> ext \<noteq> ''.sqlite3'' \<and> ext \<in> set skipExts)"

fun list_loop :: "string \<Rightarrow> (string \<times> nat option) list \<Rightarrow> string list \<Rightarrow> os \<Rightarrow> string list \<times> os" where
  "list_loop dir [] seen s = (seen, s)"
| "list_loop dir ((name, i) # es) seen s =
     (if i = None \<or> skip_name name then list_loop dir es seen s
      else case isSQLiteFile (dir @ ''/'' @ name) s of
        (b, s1) \<Rightarrow> list_loop dir es (if b then List.insert name seen else seen) s1)"

text \<open>The order of the names is that of a Go map: none in particular.\<close>

definition ListAll :: "manager \<Rightarrow> os \<Rightarrow> string list \<times> os" where
  "ListAll m s =
     (let seen = remdups (map fst (m_dbs m)) in
      case ReadDir (m_dataDir m) s of
        (Inl _, s1) \<Rightarrow> (seen, s1)
      | (Inr es, s1) \<Rightarrow> list_loop (m_dataDir m) es seen s1)"

definition ActivePath :: "manager \<Rightarrow> string \<Rightarrow> os \<Rightarrow> string \<times> os" where
  "ActivePath m name s =
     (if m_cipher m \<noteq> None \<and> m_decDir m \<noteq> [] then
        (let decPath = path_join [m_decDir m, name] in
         case Stat decPath s of
           (Inr _, s1) \<Rightarrow> (decPath, s1)
         | (Inl _, s1) \<Rightarrow> (resolvePath m name, s1))
      else (resolvePath m name, s))"

end
