(* ===== verification/Monitor.thy ===== *)
theory Monitor
  imports DbManager Complex_Main
begin

text \<open>
  The monitor, \<open>internal/monitor/monitor.go\<close>: query counters and the latencies of the last 10000
  queries, from which averages and the 99th percentile are computed. Floating-point numbers are
  rationals here, without rounding, except for the index of the percentile, where
  \<open>int(float64(n) * 0.99)\<close> equals \<open>99 * n div 100\<close> for every \<open>n\<close> up to the cap. Uptime, memory
  and the number of goroutines are read from the runtime and are not modelled.
\<close>

section \<open>Recording\<close>

record monitor =
  mo_startTime :: int
  mo_totalQueries :: int
  mo_failedLogins :: int
  mo_latencies :: "int list"
  mo_latCap :: nat

definition NewMonitor :: "int \<Rightarrow> monitor" where
  "NewMonitor now =
     \<lparr>mo_startTime = now, mo_totalQueries = 0, mo_failedLogins = 0, mo_latencies = [],
      mo_latCap = 10000\<rparr>"

definition RecordQuery :: "int \<Rightarrow> monitor \<Rightarrow> monitor" where
  "RecordQuery duration m =
     (let lats = mo_latencies m @ [duration];
          lats' = (if mo_latCap m < length lats then drop (length lats - mo_latCap m) lats else lats)
      in m\<lparr>mo_totalQueries := mo_totalQueries m + 1, mo_latencies := lats'\<rparr>)"

definition RecordFailedLogin :: "monitor \<Rightarrow> monitor" where
  "RecordFailedLogin m = m\<lparr>mo_failedLogins := mo_failedLogins m + 1\<rparr>"

section \<open>Statistics\<close>

record stats =
  st_TotalQueries :: int
  st_FailedLogins :: int
  st_ActiveConns :: nat
  st_AvgLatencyMs :: rat
  st_P99LatencyMs :: rat
  st_NumDatabases :: nat
  st_Databases :: "(string \<times> nat) list"

text \<open>\<open>Duration.Microseconds\<close>; a division of integers truncates toward zero in Go.\<close>

definition microseconds :: "int \<Rightarrow> int" where
  "microseconds d = (if d < 0 then - ((- d) div 1000) else d div 1000)"

definition avg_latency :: "int list \<Rightarrow> rat" where
  "avg_latency lats =
     (if lats = [] then 0
      else of_int (microseconds (sum_list lats)) / of_nat (length lats) / 1000)"

definition p99_index :: "nat \<Rightarrow> nat" where
  "p99_index n = (let i = 99 * n div 100 in if n \<le> i then n - 1 else i)"

definition p99_latency :: "int list \<Rightarrow> rat" where
  "p99_latency lats =
     (if lats = [] then 0
      else of_int (microseconds (sort lats ! p99_index (length lats))) / 1000)"

text \<open>The size of a database: its file and those of the suffixes that exist beside it.\<close>

fun stat_size :: "string list \<Rightarrow> nat \<Rightarrow> os \<Rightarrow> nat \<times> os" where
  "stat_size [] sz s = (sz, s)"
| "stat_size (p # ps) sz s =
     (case Stat p s of
        (Inl _, s1) \<Rightarrow> stat_size ps sz s1
      | (Inr info, s1) \<Rightarrow> stat_size ps (sz + fi_size info) s1)"

fun db_stats :: "string \<Rightarrow> string list \<Rightarrow> os \<Rightarrow> (string \<times> nat) list \<times> os" where
  "db_stats dir [] s = ([], s)"
| "db_stats dir (name # ns) s =
     (let path = dir @ ''/'' @ name in
      case Stat path s of
        (Inl _, s1) \<Rightarrow> db_stats dir ns s1
      | (Inr info, s1) \<Rightarrow>
          case stat_size (map (\<lambda>x. path @ x) [''-wal'', ''-shm'', ''-journal'']) (fi_size info) s1 of
            (sz, s2) \<Rightarrow>
              case db_stats dir ns s2 of (ds, s3) \<Rightarrow> ((name, sz) # ds, s3))"

definition Monitor_Stats :: "monitor \<Rightarrow> manager \<Rightarrow> os \<Rightarrow> stats \<times> os" where
  "Monitor_Stats mo m s =
     (case ListAll m s of
        (names, s1) \<Rightarrow>
          case db_stats (DataDir m) names s1 of
            (dbs, s2) \<Rightarrow>
              (\<lparr>st_TotalQueries = mo_totalQueries mo, st_FailedLogins = mo_failedLogins mo,
                st_ActiveConns = length names, st_AvgLatencyMs = avg_latency (mo_latencies mo),
                st_P99LatencyMs = p99_latency (mo_latencies mo), st_NumDatabases = length names,
                st_Databases = dbs\<rparr>, s2))"

section \<open>Lemmas\<close>

text \<open>After any queries, the latencies kept are the last \<open>latCap\<close> of them, in order.\<close>

fun record_all :: "int list \<Rightarrow> monitor \<Rightarrow> monitor" where
  "record_all [] m = m"
| "record_all (d # ds) m = record_all ds (RecordQuery d m)"

definition last_n :: "nat \<Rightarrow> 'a list \<Rightarrow> 'a list" where
  "last_n n xs = drop (length xs - n) xs"

lemma last_n_snoc: "last_n n (last_n n xs @ [x]) = last_n n (xs @ [x])"
  by (cases "length xs \<le> n") (auto simp: last_n_def Suc_diff_le)

lemma RecordQuery_latencies:
  "mo_latencies (RecordQuery d m) = last_n (mo_latCap m) (mo_latencies m @ [d])"
  by (auto simp: RecordQuery_def last_n_def Let_def)

lemma RecordQuery_frame [simp]:
  "mo_latCap (RecordQuery d m) = mo_latCap m" "mo_totalQueries (RecordQuery d m) = mo_totalQueries m + 1"
  "mo_failedLogins (RecordQuery d m) = mo_failedLogins m"
  by (simp_all add: RecordQuery_def Let_def)

lemma record_all_latencies:
  "mo_latencies m = last_n (mo_latCap m) xs \<Longrightarrow>
     mo_latencies (record_all ds m) = last_n (mo_latCap m) (xs @ ds) \<and>
     mo_totalQueries (record_all ds m) = mo_totalQueries m + int (length ds)"
proof (induction ds arbitrary: m xs)
  case (Cons d ds)
  have "mo_latencies (RecordQuery d m) = last_n (mo_latCap (RecordQuery d m)) (xs @ [d])"
    using Cons.prems by (simp add: RecordQuery_latencies last_n_snoc)
  from Cons.IH [OF this] show ?case by simp
qed simp

lemma p99_index_less: "0 < n \<Longrightarrow> p99_index n < n"
  by (auto simp: p99_index_def Let_def)

text \<open>At least 99 of 100 latencies are not above the percentile's entry.\<close>

lemma sorted_below:
  fixes xs :: "int list"
  assumes "sorted xs" and "i < length xs"
  shows "i + 1 \<le> length (filter (\<lambda>x. x \<le> xs ! i) xs)"
proof -
  have "\<forall>x\<in>set (take (Suc i) xs). x \<le> xs ! i"
    using assms by (auto simp: in_set_conv_nth sorted_iff_nth_mono)
  then have "filter (\<lambda>x. x \<le> xs ! i) (take (Suc i) xs) = take (Suc i) xs" by (simp add: filter_id_conv)
  then have "length (filter (\<lambda>x. x \<le> xs ! i) (take (Suc i) xs)) = Suc i"
    using assms(2) by simp
  moreover have "length (filter (\<lambda>x. x \<le> xs ! i) xs) =
      length (filter (\<lambda>x. x \<le> xs ! i) (take (Suc i) xs)) + length (filter (\<lambda>x. x \<le> xs ! i) (drop (Suc i) xs))"
    by (metis append_take_drop_id filter_append length_append)
  ultimately show ?thesis by linarith
qed

lemma length_filter_sort: "length (filter P (sort xs)) = length (filter P (xs :: int list))"
  by (simp add: filter_sort)

lemma p99_covers:
  fixes lats :: "int list"
  assumes "lats \<noteq> []"
  shows "99 * length lats \<le> 100 * length (filter (\<lambda>x. x \<le> sort lats ! p99_index (length lats)) lats)"
proof -
  let ?n = "length lats"
  have "p99_index ?n < ?n" using assms by (intro p99_index_less) simp
  then have "p99_index ?n + 1 \<le> length (filter (\<lambda>x. x \<le> sort lats ! p99_index ?n) (sort lats))"
    by (intro sorted_below) auto
  then have "p99_index ?n + 1 \<le> length (filter (\<lambda>x. x \<le> sort lats ! p99_index ?n) lats)"
    by (simp only: length_filter_sort)
  moreover have "99 * ?n < 100 * (p99_index ?n + 1)"
    using assms by (auto simp: p99_index_def Let_def)
  moreover have "\<And>a b n :: nat. a + 1 \<le> b \<Longrightarrow> 99 * n < 100 * (a + 1) \<Longrightarrow> 99 * n \<le> 100 * b"
    by (rule order_trans [OF less_imp_le], assumption, rule mult_le_mono2)
  ultimately show ?thesis by blast
qed

end
