(* ===== verification/Executor.thy ===== *)
theory Executor
  imports Monitor
begin

text \<open>
  Running queries, \<open>internal/database/executor.go\<close>: single statements and transactions on a user
  database. Statements that begin with \<open>SELECT\<close>, \<open>PRAGMA\<close> or \<open>EXPLAIN\<close> are run as queries with
  rows, all others as statements with a result. The wrappers without a context pass the background
  context on and are the same operations. \<open>dur\<close> is what \<open>time.Since(start)\<close> reads.
\<close>

section \<open>Responses\<close>

record query_response =
  qr_Columns :: "string list"
  qr_Rows :: "sqlval list list"
  qr_Error :: string
  qr_Time :: "int option"

definition error_response :: "string \<Rightarrow> query_response" where
  "error_response msg = \<lparr>qr_Columns = [], qr_Rows = [], qr_Error = msg, qr_Time = None\<rparr>"

record transaction_response =
  tr_Results :: "query_response list"
  tr_Error :: string

definition is_read_query :: "string \<Rightarrow> bool" where
  "is_read_query q \<longleftrightarrow>
     (let upper = to_upper q
      in prefix ''SELECT'' upper \<or> prefix ''PRAGMA'' upper \<or> prefix ''EXPLAIN'' upper)"

section \<open>Single statements\<close>

text \<open>The loop over \<open>rows.Next()\<close> with \<open>rows.Scan\<close>; \<open>rows.Err()\<close> is not looked at.\<close>

fun scan_rows :: "sqlval list res list \<Rightarrow> sqlval list list \<Rightarrow> sqlval list list res" where
  "scan_rows [] allRows = Inr allRows"
| "scan_rows (Inl e # rs) allRows = Inl e"
| "scan_rows (Inr values # rs) allRows = scan_rows rs (allRows @ [values])"

text \<open>Both functions that run a query, on the database and inside a transaction, do this.\<close>

definition read_cursor :: "int \<Rightarrow> cursor res \<Rightarrow> query_response res" where
  "read_cursor dur r =
     (case r of
        Inl e \<Rightarrow> Inr (error_response (err_text e))
      | Inr c \<Rightarrow>
          case cu_columns c of
            Inl e \<Rightarrow> Inr (error_response (err_text e))
          | Inr columns \<Rightarrow>
              case scan_rows (cu_rows c) [] of
                Inl e \<Rightarrow> Inr (error_response (err_text e))
              | Inr allRows \<Rightarrow>
                  Inr \<lparr>qr_Columns = columns, qr_Rows = allRows, qr_Error = [], qr_Time = Some dur\<rparr>)"

definition executeQueryContext ::
  "engine \<Rightarrow> int \<Rightarrow> string \<Rightarrow> sqlval list \<Rightarrow> session \<Rightarrow> query_response res \<times> session" where
  "executeQueryContext eng dur query params se =
     (case sq_query eng query params se of (r, se') \<Rightarrow> (read_cursor dur r, se'))"

definition read_result :: "int \<Rightarrow> (int \<times> int) res \<Rightarrow> query_response res" where
  "read_result dur r =
     (case r of
        Inl e \<Rightarrow> Inr (error_response (err_text e))
      | Inr (lastID, rowsAff) \<Rightarrow>
          Inr \<lparr>qr_Columns = [''last_insert_id'', ''rows_affected''],
               qr_Rows = [[VInt lastID, VInt rowsAff]], qr_Error = [], qr_Time = Some dur\<rparr>)"

definition executeExecContext ::
  "engine \<Rightarrow> int \<Rightarrow> string \<Rightarrow> sqlval list \<Rightarrow> session \<Rightarrow> query_response res \<times> session" where
  "executeExecContext eng dur query params se =
     (case sq_exec eng query params se of (r, se') \<Rightarrow> (read_result dur r, se'))"

definition executeQueryTxContext ::
  "engine \<Rightarrow> int \<Rightarrow> string \<Rightarrow> session \<Rightarrow> query_response res \<times> session" where
  "executeQueryTxContext eng dur query se =
     (case sq_query eng query [] se of (r, se') \<Rightarrow> (read_cursor dur r, se'))"

definition executeExecTxContext ::
  "engine \<Rightarrow> int \<Rightarrow> string \<Rightarrow> session \<Rightarrow> query_response res \<times> session" where
  "executeExecTxContext eng dur query se =
     (case sq_exec eng query [] se of (r, se') \<Rightarrow> (read_result dur r, se'))"

section \<open>The executor\<close>

text \<open>The manager it works on, and the monitor if it has one.\<close>

record executor =
  ex_manager :: manager
  ex_mon :: "monitor option"

definition NewExecutor :: "manager \<Rightarrow> executor" where
  "NewExecutor m = \<lparr>ex_manager = m, ex_mon = None\<rparr>"

definition NewExecutorWithMonitor :: "manager \<Rightarrow> monitor \<Rightarrow> executor" where
  "NewExecutorWithMonitor m mon = \<lparr>ex_manager = m, ex_mon = Some mon\<rparr>"

definition Executor_ListDatabases :: "executor \<Rightarrow> os \<Rightarrow> string list \<times> os" where
  "Executor_ListDatabases ex = ListAll (ex_manager ex)"

text \<open>Run on the connection of an open database and keep what it leaves.\<close>

definition on_db :: "(session \<Rightarrow> 'a \<times> session) \<Rightarrow> string \<Rightarrow> manager \<Rightarrow> os \<Rightarrow> 'a option \<times> manager \<times> os" where
  "on_db f name m s =
     (case map_of (m_dbs m) name of
        None \<Rightarrow> (None, m, s)
      | Some h \<Rightarrow>
          case on_handle f h s of
            (r, h', s') \<Rightarrow> (Some r, m\<lparr>m_dbs := (name, h') # filter (\<lambda>e. fst e \<noteq> name) (m_dbs m)\<rparr>, s'))"

definition record_query :: "int \<Rightarrow> executor \<Rightarrow> executor" where
  "record_query dur ex = ex\<lparr>ex_mon := map_option (RecordQuery dur) (ex_mon ex)\<rparr>"

text \<open>
  The statement runs on the file of the database's name. That this is not the file of the system
  database, which the code does not check, is assumed where both matter (\<open>spares_system\<close> in \<open>ServerInv\<close>).
\<close>

definition ExecuteContext ::
  "db_env \<Rightarrow> int \<Rightarrow> int \<Rightarrow> string \<Rightarrow> string \<Rightarrow> sqlval list \<Rightarrow> executor \<Rightarrow> os \<Rightarrow>
   query_response res \<times> executor \<times> os" where
  "ExecuteContext d now dur dbName query params ex s =
     (case Open d now dbName (ex_manager ex) s of
        (Inl e, m, s1) \<Rightarrow> (Inl (Wrap ''open database'' e), ex\<lparr>ex_manager := m\<rparr>, s1)
      | (Inr _, m, s1) \<Rightarrow>
          let q = trim_space query in
          if q = [] then (Inr (error_response ''empty query''), ex\<lparr>ex_manager := m\<rparr>, s1)
          else case on_db (if is_read_query q then executeQueryContext (de_engine d) dur q params
                           else executeExecContext (de_engine d) dur q params) dbName m s1 of
            (None, m2, s2) \<Rightarrow> (Inl (Panic ''nil database''), ex\<lparr>ex_manager := m2\<rparr>, s2)
          | (Some r, m2, s2) \<Rightarrow> (r, record_query dur (ex\<lparr>ex_manager := m2\<rparr>), s2))"

section \<open>Transactions\<close>

text \<open>The loop over the statements, blank ones skipped; an error value ends it.\<close>

fun tx_loop :: "engine \<Rightarrow> int \<Rightarrow> string list \<Rightarrow> query_response list \<Rightarrow> session \<Rightarrow>
    (query_response list \<times> gerr option) \<times> session" where
  "tx_loop eng dur [] results se = ((results, None), se)"
| "tx_loop eng dur (q0 # qs) results se =
     (let q = trim_space q0 in
      if q = [] then tx_loop eng dur qs results se
      else case (if is_read_query q then executeQueryTxContext eng dur q se
                 else executeExecTxContext eng dur q se) of
        (Inl e, se1) \<Rightarrow> ((results, Some e), se1)
      | (Inr res, se1) \<Rightarrow> tx_loop eng dur qs (results @ [res]) se1)"

text \<open>
  Begin, the loop, then commit. The deferred rollback acts only where the function returns before
  \<open>Commit\<close> is called; after that the transaction is done for \<open>database/sql\<close>.
\<close>

definition run_transaction ::
  "engine \<Rightarrow> int \<Rightarrow> string list \<Rightarrow> session \<Rightarrow> transaction_response res \<times> session" where
  "run_transaction eng dur queries se =
     (case sq_begin eng se of
        (Inl e, se1) \<Rightarrow> (Inl (Wrap ''begin transaction'' e), se1)
      | (Inr _, se1) \<Rightarrow>
          case tx_loop eng dur queries [] se1 of
            ((results, Some e), se2) \<Rightarrow>
              (Inr \<lparr>tr_Results = results, tr_Error = ''query failed: '' @ err_text e\<rparr>,
               snd (sq_rollback eng se2))
          | ((results, None), se2) \<Rightarrow>
              case sq_commit eng se2 of
                (Inl e, se3) \<Rightarrow> (Inl (Wrap ''commit transaction'' e), se3)
              | (Inr _, se3) \<Rightarrow> (Inr \<lparr>tr_Results = results, tr_Error = []\<rparr>, se3))"

definition ExecuteTransactionContext ::
  "db_env \<Rightarrow> int \<Rightarrow> int \<Rightarrow> string \<Rightarrow> string list \<Rightarrow> executor \<Rightarrow> os \<Rightarrow>
   transaction_response res \<times> executor \<times> os" where
  "ExecuteTransactionContext d now dur dbName queries ex s =
     (case Open d now dbName (ex_manager ex) s of
        (Inl e, m, s1) \<Rightarrow> (Inl (Wrap ''open database'' e), ex\<lparr>ex_manager := m\<rparr>, s1)
      | (Inr _, m, s1) \<Rightarrow>
          case on_db (run_transaction (de_engine d) dur queries) dbName m s1 of
            (None, m2, s2) \<Rightarrow> (Inl (Panic ''nil database''), ex\<lparr>ex_manager := m2\<rparr>, s2)
          | (Some r, m2, s2) \<Rightarrow> (r, ex\<lparr>ex_manager := m2\<rparr>, s2))"

section \<open>Lemmas on statements\<close>

lemma scan_rows_eq:
  "scan_rows rs acc =
     (if \<exists>e. Inl e \<in> set rs then Inl (projl (hd (filter (\<lambda>r. \<exists>e. r = Inl e) rs)))
      else Inr (acc @ map projr rs))"
  by (induction rs acc rule: scan_rows.induct) auto

lemma statements_never_fail:
  "fst (executeQueryContext eng dur q ps se) \<noteq> Inl e"
  "fst (executeExecContext eng dur q ps se) \<noteq> Inl e"
  "fst (executeQueryTxContext eng dur q se) \<noteq> Inl e"
  "fst (executeExecTxContext eng dur q se) \<noteq> Inl e"
  by (auto simp: executeQueryContext_def executeExecContext_def executeQueryTxContext_def
      executeExecTxContext_def read_cursor_def read_result_def split: prod.splits sum.splits)

text \<open>One statement of a transaction, as a function of the session: its response and the session after.\<close>

definition tx_stmt :: "engine \<Rightarrow> int \<Rightarrow> string \<Rightarrow> session \<Rightarrow> query_response \<times> session" where
  "tx_stmt eng dur q se =
     (case (if is_read_query q then executeQueryTxContext eng dur q se
            else executeExecTxContext eng dur q se) of
        (r, se') \<Rightarrow> (projr r, se'))"

fun tx_stmts :: "engine \<Rightarrow> int \<Rightarrow> string list \<Rightarrow> session \<Rightarrow> query_response list \<times> session" where
  "tx_stmts eng dur [] se = ([], se)"
| "tx_stmts eng dur (q # qs) se =
     (case tx_stmt eng dur q se of
        (r, se1) \<Rightarrow> case tx_stmts eng dur qs se1 of (rs, se2) \<Rightarrow> (r # rs, se2))"

definition statements_of :: "string list \<Rightarrow> string list" where
  "statements_of queries = filter (\<lambda>q. q \<noteq> []) (map trim_space queries)"

text \<open>The loop runs every statement, whatever the earlier ones returned.\<close>

lemma tx_loop_runs_all:
  "tx_loop eng dur queries results se =
     (case tx_stmts eng dur (statements_of queries) se of
        (rs, se') \<Rightarrow> ((results @ rs, None), se'))"
proof (induction queries arbitrary: results se)
  case Nil
  then show ?case by (simp add: statements_of_def)
next
  case (Cons q0 qs)
  let ?q = "trim_space q0"
  let ?x = "if is_read_query ?q then executeQueryTxContext eng dur ?q se
            else executeExecTxContext eng dur ?q se"
  show ?case
  proof (cases "?q = []")
    case True
    with Cons show ?thesis by (simp add: statements_of_def)
  next
    case False
    obtain r se1 where x: "?x = (r, se1)" by fastforce
    moreover have "\<And>e. fst ?x \<noteq> Inl e" using statements_never_fail by auto
    ultimately obtain res where r: "r = Inr res" by (cases r) auto
    have "tx_stmt eng dur ?q se = (res, se1)"
      using x r by (simp add: tx_stmt_def)
    moreover have "statements_of (q0 # qs) = ?q # statements_of qs"
      using False by (simp add: statements_of_def)
    moreover have "tx_loop eng dur (q0 # qs) results se = tx_loop eng dur qs (results @ [res]) se1"
      using x r False by (simp only: tx_loop.simps Let_def) simp
    ultimately show ?thesis
      using Cons [of "results @ [res]" se1] by (simp split: prod.split)
  qed
qed

text \<open>So a transaction that begins is always taken to its commit, and never rolled back.\<close>

lemma run_transaction_eq:
  "run_transaction eng dur queries se =
     (case sq_begin eng se of
        (Inl e, se1) \<Rightarrow> (Inl (Wrap ''begin transaction'' e), se1)
      | (Inr _, se1) \<Rightarrow>
          let (rs, se2) = tx_stmts eng dur (statements_of queries) se1; (c, se3) = sq_commit eng se2
          in ((case c of Inl e \<Rightarrow> Inl (Wrap ''commit transaction'' e)
                       | Inr _ \<Rightarrow> Inr \<lparr>tr_Results = rs, tr_Error = []\<rparr>), se3))"
  by (simp add: run_transaction_def tx_loop_runs_all Let_def split: prod.split sum.split)

lemma length_tx_stmts: "length (fst (tx_stmts eng dur qs se)) = length qs"
  by (induction qs arbitrary: se) (simp_all add: case_prod_beta)

section \<open>Lemmas on opening and closing\<close>

text \<open>No name has two handles. Two spellings of one path, as \<open>main\<close> and \<open>./main\<close>, are two names to the code.\<close>

definition manager_ok :: "manager \<Rightarrow> bool" where
  "manager_ok m \<longleftrightarrow> distinct (map fst (m_dbs m))"

lemma manager_ok_new [simp]: "manager_ok (NewManager dir wal n)" "manager_ok (NewEncryptedManager dir wal n c tmp)"
  by (simp_all add: manager_ok_def NewManager_def NewEncryptedManager_def)

lemma open_at_ok:
  "manager_ok m \<Longrightarrow> map_of (m_dbs m) name = None \<Longrightarrow> manager_ok (fst (snd (open_at d now name path m s)))"
  by (auto simp: open_at_def manager_ok_def map_of_eq_None_iff split: prod.split sum.split)

lemma Open_ok [inv_rules]: "manager_ok m \<Longrightarrow> manager_ok (fst (snd (Open d now name m s)))"
  by (simp add: Open_def Let_def case_prod_beta open_at_ok split: option.split bool.split sum.split)

lemma drop_db_ok [inv_rules]: "manager_ok m \<Longrightarrow> manager_ok (drop_db name m)"
  by (simp add: manager_ok_def drop_db_def distinct_map_filter)

lemma Close_ok [inv_rules]: "manager_ok m \<Longrightarrow> manager_ok (fst (snd (Close d now name m s)))"
  by (simp add: Close_def Let_def case_prod_beta drop_db_ok split: option.split sum.split)

lemma on_db_ok [inv_rules]: "manager_ok m \<Longrightarrow> manager_ok (fst (snd (on_db f name m s)))"
  by (auto simp: on_db_def manager_ok_def distinct_map_filter split: option.split prod.split)

lemma Open_registers:
  assumes "fst (Open d now name m s) = Inr ()"
  shows "map_of (m_dbs (fst (snd (Open d now name m s)))) name \<noteq> None"
proof -
  have "fst (open_at d now name path m s) = Inr () \<Longrightarrow>
      map_of (m_dbs (fst (snd (open_at d now name path m s)))) name \<noteq> None" for path s
    by (auto simp: open_at_def split: prod.splits sum.splits)
  with assms show ?thesis
    by (auto simp: Open_def Let_def case_prod_beta split: if_splits option.splits bool.splits sum.splits)
qed

text \<open>So the case that would use a database that is not there never occurs.\<close>

lemma ExecuteContext_no_panic:
  "fst (ExecuteContext d now dur dbName query params ex s) \<noteq> Inl (Panic ''nil database'')"
proof (cases "Open d now dbName (ex_manager ex) s")
  case (fields r m s1)
  show ?thesis
  proof (cases r)
    case (Inl e)
    with fields show ?thesis by (simp add: ExecuteContext_def)
  next
    case (Inr u)
    have "map_of (m_dbs m) dbName \<noteq> None"
      using Open_registers [of d now dbName "ex_manager ex" s] fields Inr by simp
    then show ?thesis
      using fields Inr statements_never_fail
      by (auto simp: ExecuteContext_def Let_def on_db_def on_handle_def case_prod_beta)
  qed
qed

end
