(* ===== verification/Rbac.thy ===== *)
theory Rbac
  imports Prelude
begin

text \<open>
  Role-based access control, \<open>internal/rbac/rbac.go\<close>. A role is the string stored with the
  user, which need not be one of the four roles the program knows; the permissions are the
  constants of the Go type \<open>Permission\<close>.
\<close>

section \<open>Roles and permissions\<close>

type_synonym role = string

definition RoleAdmin :: role where "RoleAdmin = ''admin''"
definition RoleDeveloper :: role where "RoleDeveloper = ''developer''"
definition RoleReadOnly :: role where "RoleReadOnly = ''readonly''"
definition RoleAuditor :: role where "RoleAuditor = ''auditor''"

lemmas role_defs = RoleAdmin_def RoleDeveloper_def RoleReadOnly_def RoleAuditor_def

datatype permission =
    PermQuery | PermWrite | PermCreate | PermAlter | PermDrop | PermDelete
  | PermCreateUser | PermBackup | PermRestore | PermAuditLog

definition rolePermissions :: "role \<Rightarrow> permission list option" where
  "rolePermissions =
     [RoleAdmin \<mapsto> [PermQuery, PermWrite, PermCreate, PermAlter, PermDrop, PermDelete,
                   PermCreateUser, PermBackup, PermRestore, PermAuditLog],
      RoleDeveloper \<mapsto> [PermQuery, PermWrite, PermCreate, PermAlter, PermDelete],
      RoleReadOnly \<mapsto> [PermQuery],
      RoleAuditor \<mapsto> [PermAuditLog]]"

text \<open>The loop over a role's permissions.\<close>

fun perm_listed :: "permission list \<Rightarrow> permission \<Rightarrow> bool" where
  "perm_listed [] perm = False"
| "perm_listed (p # ps) perm = (if p = perm then True else perm_listed ps perm)"

definition HasPermission :: "role \<Rightarrow> permission \<Rightarrow> bool" where
  "HasPermission r perm =
     (case rolePermissions r of
        None \<Rightarrow> False
      | Some perms \<Rightarrow> perm_listed perms perm)"

definition ParseRole :: "string \<Rightarrow> role option" where
  "ParseRole s =
     (if s = RoleAdmin \<or> s = RoleDeveloper \<or> s = RoleReadOnly \<or> s = RoleAuditor then Some s
      else None)"

definition ValidRoles :: "role list" where
  "ValidRoles = [RoleAdmin, RoleDeveloper, RoleReadOnly, RoleAuditor]"

section \<open>Lemmas\<close>

lemma perm_listed_iff [simp]: "perm_listed ps p \<longleftrightarrow> p \<in> set ps"
  by (induction ps) auto

lemma roles_distinct [simp]: "distinct ValidRoles"
  by (simp add: ValidRoles_def role_defs)

lemma HasPermission_admin [simp]: "HasPermission RoleAdmin p"
  by (cases p) (simp_all add: HasPermission_def rolePermissions_def role_defs)

lemma HasPermission_developer [simp]:
  "HasPermission RoleDeveloper p \<longleftrightarrow>
     p \<in> {PermQuery, PermWrite, PermCreate, PermAlter, PermDelete}"
  by (auto simp: HasPermission_def rolePermissions_def role_defs)

lemma HasPermission_readonly [simp]: "HasPermission RoleReadOnly p \<longleftrightarrow> p = PermQuery"
  by (auto simp: HasPermission_def rolePermissions_def role_defs)

lemma HasPermission_auditor [simp]: "HasPermission RoleAuditor p \<longleftrightarrow> p = PermAuditLog"
  by (auto simp: HasPermission_def rolePermissions_def role_defs)

lemma HasPermission_unknown: "r \<notin> set ValidRoles \<Longrightarrow> \<not> HasPermission r p"
  by (auto simp: HasPermission_def rolePermissions_def ValidRoles_def)

text \<open>The permissions that only administrators hold.\<close>

lemma admin_only_permission:
  assumes "p \<in> {PermDrop, PermCreateUser, PermBackup, PermRestore}"
  shows "HasPermission r p \<longleftrightarrow> r = RoleAdmin"
proof (cases "r \<in> set ValidRoles")
  case True
  then show ?thesis using assms
    by (auto simp: ValidRoles_def)
next
  case False
  then show ?thesis using assms HasPermission_unknown [OF False]
    by (auto simp: ValidRoles_def)
qed

lemma ParseRole_Some_iff: "ParseRole s = Some r \<longleftrightarrow> s = r \<and> r \<in> set ValidRoles"
  by (auto simp: ParseRole_def ValidRoles_def)

end
