(* ===== verification/QueryValidator.thy ===== *)
theory QueryValidator
  imports GoStrings Rbac
begin

text \<open>
  The query validator of \<open>internal/query/validator.go\<close>: the type of a statement, read off its
  first word, the permission that type needs, the patterns of dangerous statements and the
  analysis that extracts a table name. The validator has no state.
\<close>

section \<open>Statement types\<close>

datatype query_type =
    TypeSelect | TypeInsert | TypeUpdate | TypeDelete | TypeCreate | TypeDrop | TypeAlter
  | TypePragma | TypeExplain | TypeOther

text \<open>The string behind each constant, which the handlers put into messages.\<close>

fun query_type_text :: "query_type \<Rightarrow> string" where
  "query_type_text TypeSelect = ''SELECT''"
| "query_type_text TypeInsert = ''INSERT''"
| "query_type_text TypeUpdate = ''UPDATE''"
| "query_type_text TypeDelete = ''DELETE''"
| "query_type_text TypeCreate = ''CREATE''"
| "query_type_text TypeDrop = ''DROP''"
| "query_type_text TypeAlter = ''ALTER''"
| "query_type_text TypePragma = ''PRAGMA''"
| "query_type_text TypeExplain = ''EXPLAIN''"
| "query_type_text TypeOther = ''OTHER''"

definition IdentifyType :: "string \<Rightarrow> query_type" where
  "IdentifyType query =
     (let q = trim_space query; upper = to_upper q
      in if prefix ''SELECT'' upper then TypeSelect
         else if prefix ''INSERT'' upper then TypeInsert
         else if prefix ''UPDATE'' upper then TypeUpdate
         else if prefix ''DELETE'' upper then TypeDelete
         else if prefix ''CREATE'' upper then TypeCreate
         else if prefix ''DROP'' upper then TypeDrop
         else if prefix ''ALTER'' upper then TypeAlter
         else if prefix ''PRAGMA'' upper then TypePragma
         else if prefix ''EXPLAIN'' upper then TypeExplain
         else TypeOther)"

text \<open>The second result of the Go function, \<open>false\<close> for no permission, is \<open>None\<close>.\<close>

fun RequiredPermission :: "query_type \<Rightarrow> permission option" where
  "RequiredPermission TypeSelect = Some PermQuery"
| "RequiredPermission TypePragma = Some PermQuery"
| "RequiredPermission TypeExplain = Some PermQuery"
| "RequiredPermission TypeInsert = Some PermWrite"
| "RequiredPermission TypeUpdate = Some PermWrite"
| "RequiredPermission TypeCreate = Some PermCreate"
| "RequiredPermission TypeAlter = Some PermAlter"
| "RequiredPermission TypeDrop = Some PermDrop"
| "RequiredPermission TypeDelete = Some PermDelete"
| "RequiredPermission TypeOther = None"

section \<open>Dangerous statements\<close>

datatype danger_level = DangerNone | DangerWarning | DangerBlock

fun danger_num :: "danger_level \<Rightarrow> nat" where
  "danger_num DangerNone = 0"
| "danger_num DangerWarning = 1"
| "danger_num DangerBlock = 2"

text \<open>The levels are the integers 0, 1 and 2 in Go, and ordered as such.\<close>

instantiation danger_level :: linorder
begin

definition less_eq_danger_level :: "danger_level \<Rightarrow> danger_level \<Rightarrow> bool" where
  "less_eq_danger_level a b \<longleftrightarrow> danger_num a \<le> danger_num b"

definition less_danger_level :: "danger_level \<Rightarrow> danger_level \<Rightarrow> bool" where
  "less_danger_level a b \<longleftrightarrow> danger_num a < danger_num b"

instance
proof
  fix a b :: danger_level
  show "a \<le> b \<Longrightarrow> b \<le> a \<Longrightarrow> a = b"
    by (cases a; cases b) (simp_all add: less_eq_danger_level_def)
qed (auto simp: less_eq_danger_level_def less_danger_level_def)

end

record danger_pattern =
  dp_pattern :: string
  dp_level :: danger_level
  dp_description :: string

definition dangerPatterns :: "danger_pattern list" where
  "dangerPatterns =
     [\<lparr>dp_pattern = ''DROP DATABASE'', dp_level = DangerBlock,
        dp_description = ''dropping databases is not allowed''\<rparr>,
      \<lparr>dp_pattern = ''DROP TABLE'', dp_level = DangerBlock,
        dp_description = ''dropping tables requires admin role''\<rparr>,
      \<lparr>dp_pattern = ''DELETE FROM SQLITE_MASTER'', dp_level = DangerBlock,
        dp_description = ''modifying system tables is not allowed''\<rparr>,
      \<lparr>dp_pattern = ''DROP INDEX'', dp_level = DangerWarning,
        dp_description = ''dropping indexes requires caution''\<rparr>,
      \<lparr>dp_pattern = ''DROP VIEW'', dp_level = DangerWarning,
        dp_description = ''dropping views requires caution''\<rparr>,
      \<lparr>dp_pattern = ''DROP TRIGGER'', dp_level = DangerWarning,
        dp_description = ''dropping triggers requires caution''\<rparr>,
      \<lparr>dp_pattern = ''VACUUM'', dp_level = DangerWarning,
        dp_description = ''vacuum may lock the database''\<rparr>,
      \<lparr>dp_pattern = ''ATTACH DATABASE'', dp_level = DangerBlock,
        dp_description = ''attaching databases is not allowed''\<rparr>,
      \<lparr>dp_pattern = ''DETACH DATABASE'', dp_level = DangerBlock,
        dp_description = ''detaching databases is not allowed''\<rparr>]"

text \<open>The loop over the patterns: the first blocking one that occurs decides.\<close>

fun check_patterns :: "string \<Rightarrow> danger_pattern list \<Rightarrow> bool \<times> string" where
  "check_patterns upper [] = (False, [])"
| "check_patterns upper (dp # dps) =
     (if contains upper (dp_pattern dp) \<and> dp_level dp = DangerBlock
      then (True, dp_description dp)
      else check_patterns upper dps)"

definition CheckDangerous :: "string \<Rightarrow> bool \<times> string" where
  "CheckDangerous query = check_patterns (to_upper (trim_space query)) dangerPatterns"

section \<open>Analysis\<close>

record query_mapping =
  qm_type :: query_type
  qm_table :: string

text \<open>
  The loop over the words: the word after the first \<open>FROM\<close>, \<open>INTO\<close>, \<open>TABLE\<close> or \<open>UPDATE\<close>,
  without the semicolons at its end; nothing when that is the last word.
\<close>

fun table_after :: "string list \<Rightarrow> string" where
  "table_after [] = []"
| "table_after (p # ps) =
     (if p = ''FROM'' \<or> p = ''INTO'' \<or> p = ''TABLE'' \<or> p = ''UPDATE''
      then (case ps of [] \<Rightarrow> [] | t # _ \<Rightarrow> trim_right_set t '';'')
      else table_after ps)"

definition Analyze :: "string \<Rightarrow> query_mapping res" where
  "Analyze query =
     (let q = trim_space query
      in if q = [] then Inl (Err ''empty query'')
         else let qt = IdentifyType q; upper = to_upper q
              in Inr \<lparr>qm_type = qt,
                      qm_table = (if qt \<in> {TypeDelete, TypeInsert, TypeSelect, TypeUpdate}
                                  then table_after (go_fields upper) else [])\<rparr>)"

section \<open>Lemmas\<close>

lemma IdentifyType_trim [simp]: "IdentifyType (trim_space q) = IdentifyType q"
  by (simp add: IdentifyType_def)

lemma CheckDangerous_trim [simp]: "CheckDangerous (trim_space q) = CheckDangerous q"
  by (simp add: CheckDangerous_def)

text \<open>No keyword of a type is the beginning of another.\<close>

lemma prefix_ConsD: "prefix (a # p) u \<Longrightarrow> u \<noteq> [] \<and> hd u = a"
  by (cases u) auto

lemma IdentifyType_iff:
  "IdentifyType q = TypeSelect \<longleftrightarrow> prefix ''SELECT'' (to_upper (trim_space q))"
  "IdentifyType q = TypePragma \<longleftrightarrow> prefix ''PRAGMA'' (to_upper (trim_space q))"
  "IdentifyType q = TypeExplain \<longleftrightarrow> prefix ''EXPLAIN'' (to_upper (trim_space q))"
  by (simp_all add: IdentifyType_def Let_def) (auto dest!: prefix_ConsD)

text \<open>The types that need only the permission to query.\<close>

definition reads_only :: "query_type \<Rightarrow> bool" where
  "reads_only qt \<longleftrightarrow> qt = TypeSelect \<or> qt = TypePragma \<or> qt = TypeExplain"

lemma RequiredPermission_query_iff:
  "RequiredPermission qt = Some PermQuery \<longleftrightarrow> reads_only qt"
  by (cases qt) (simp_all add: reads_only_def)

lemma RequiredPermission_None_iff: "RequiredPermission qt = None \<longleftrightarrow> qt = TypeOther"
  by (cases qt) simp_all

lemma check_patterns_iff:
  "fst (check_patterns u dps) \<longleftrightarrow>
     (\<exists>dp\<in>set dps. contains u (dp_pattern dp) \<and> dp_level dp = DangerBlock)"
  by (induction dps) auto

text \<open>
  The danger of a statement as the greatest level among the patterns that occur in it. The
  check blocks a statement exactly when its danger is \<open>DangerBlock\<close>.
\<close>

definition danger_of :: "string \<Rightarrow> danger_level" where
  "danger_of query =
     Max (insert DangerNone
       (dp_level ` {dp \<in> set dangerPatterns. contains (to_upper (trim_space query)) (dp_pattern dp)}))"

lemma danger_le_Block [simp]: "l \<le> DangerBlock"
  by (cases l) (simp_all add: less_eq_danger_level_def)

lemma danger_of_Block_iff:
  "danger_of q = DangerBlock \<longleftrightarrow>
     (\<exists>dp\<in>set dangerPatterns.
        contains (to_upper (trim_space q)) (dp_pattern dp) \<and> dp_level dp = DangerBlock)"
    (is "?l \<longleftrightarrow> ?r")
proof -
  let ?M = "{dp \<in> set dangerPatterns. contains (to_upper (trim_space q)) (dp_pattern dp)}"
  let ?L = "insert DangerNone (dp_level ` ?M)"
  have fin: "finite ?L" by simp
  have "?l \<longleftrightarrow> DangerBlock \<in> ?L"
  proof
    assume ?l
    then show "DangerBlock \<in> ?L"
      using Max_in [OF fin] by (simp add: danger_of_def)
  next
    assume "DangerBlock \<in> ?L"
    then have "DangerBlock \<le> danger_of q"
      unfolding danger_of_def using fin by (rule Max_ge [rotated])
    then show ?l by (simp add: antisym)
  qed
  also have "\<dots> \<longleftrightarrow> ?r"
    by (simp add: image_iff) metis
  finally show ?thesis .
qed

text \<open>The words that block a statement, written out.\<close>

lemma CheckDangerous_words:
  "fst (CheckDangerous q) \<longleftrightarrow>
     (\<exists>w u v. w \<in> {''DROP DATABASE'', ''DROP TABLE'', ''DELETE FROM SQLITE_MASTER'', ''ATTACH DATABASE'',
                    ''DETACH DATABASE''} \<and> to_upper (trim_space q) = u @ w @ v)"
proof -
  have words: "(\<exists>dp\<in>set dangerPatterns. P (dp_pattern dp) \<and> dp_level dp = DangerBlock) \<longleftrightarrow>
      (\<exists>w\<in>{''DROP DATABASE'', ''DROP TABLE'', ''DELETE FROM SQLITE_MASTER'', ''ATTACH DATABASE'',
           ''DETACH DATABASE''}. P w)" for P
    unfolding dangerPatterns_def by simp
  have flat: "(\<exists>w\<in>ws. \<exists>u v. x = u @ w @ v) \<longleftrightarrow> (\<exists>w u v. w \<in> ws \<and> x = u @ w @ v)" for ws and x :: string
    by blast
  show ?thesis
    unfolding CheckDangerous_def check_patterns_iff contains_iff_sublist sublist_def
      words [of "\<lambda>w. \<exists>u v. to_upper (trim_space q) = u @ w @ v"] by (rule flat)
qed

end
