(* ===== verification/Replication.thy ===== *)
theory Replication
  imports Executor SystemDbInv QueryValidator
begin

text \<open>
  Replication, \<open>internal/replication/replication.go\<close>: a replica polls the primary's log over HTTP,
  500 entries at a time, and executes the statements in order. The network is an input: one
  function from URL and API key to a reply for each request to come; a used-up list fails like
  a connection that is refused. So the recursion of \<open>pollOnce\<close> is over the requests it makes.
\<close>

section \<open>The engine\<close>

definition IsWriteQuery :: "string \<Rightarrow> bool" where
  "IsWriteQuery query \<longleftrightarrow>
     (let upper = to_upper (trim_space query)
      in \<not> prefix ''SELECT'' upper \<and> \<not> prefix ''PRAGMA'' upper \<and> \<not> prefix ''EXPLAIN'' upper)"

record repl_engine =
  rp_role :: string
  rp_primaryURL :: string
  rp_apiKey :: string
  rp_pollIntvl :: int

definition NewEngine :: "string \<Rightarrow> string \<Rightarrow> string \<Rightarrow> int \<Rightarrow> repl_engine" where
  "NewEngine role primaryURL apiKey pollInterval =
     \<lparr>rp_role = role, rp_primaryURL = trim_right_set primaryURL ''/'', rp_apiKey = apiKey,
      rp_pollIntvl = pollInterval * 10 ^ 9\<rparr>"

text \<open>A replica's loop is started for the role \<open>replica\<close> only.\<close>

definition starts_loop :: "repl_engine \<Rightarrow> bool" where
  "starts_loop e \<longleftrightarrow> rp_role e = ''replica''"

section \<open>Polling\<close>

datatype reply =
    NetError
  | Status int
  | Body "repl_entry list option"

type_synonym network = "string \<Rightarrow> string \<Rightarrow> reply"

text \<open>What polling works on: the position, the executor and the files, the system database.\<close>

record replica =
  re_lastID :: int
  re_executor :: executor
  re_os :: os
  re_db :: sysdb

record run_env =
  rn_db_env :: db_env
  rn_now :: int
  rn_dur :: int

definition log_url :: "repl_engine \<Rightarrow> int \<Rightarrow> string" where
  "log_url e lastID = rp_primaryURL e @ ''/replication/log?since='' @ dec_int lastID @ ''&limit=500''"

definition applyEntry :: "run_env \<Rightarrow> repl_entry \<Rightarrow> replica \<Rightarrow> unit res \<times> replica" where
  "applyEntry rn entry r =
     (case ExecuteContext (rn_db_env rn) (rn_now rn) (rn_dur rn) (re_database entry) (re_query entry) []
             (re_executor r) (re_os r) of
        (Inl e, ex, s) \<Rightarrow>
          (Inl (Wrap (''execute on '' @ re_database entry) e), r\<lparr>re_executor := ex, re_os := s\<rparr>)
      | (Inr _, ex, s) \<Rightarrow> (Inr (), r\<lparr>re_executor := ex, re_os := s\<rparr>))"

text \<open>The loop over a page: \<open>False\<close> when an entry failed, where \<open>pollOnce\<close> returns.\<close>

fun apply_entries :: "run_env \<Rightarrow> repl_entry list \<Rightarrow> replica \<Rightarrow> bool \<times> replica" where
  "apply_entries rn [] r = (True, r)"
| "apply_entries rn (entry # es) r =
     (case applyEntry rn entry r of
        (Inl _, r1) \<Rightarrow> (False, r1)
      | (Inr _, r1) \<Rightarrow> apply_entries rn es (r1\<lparr>re_lastID := re_id entry\<rparr>))"

fun pollOnce :: "run_env \<Rightarrow> repl_engine \<Rightarrow> network list \<Rightarrow> replica \<Rightarrow> replica" where
  "pollOnce rn e [] r = r"
| "pollOnce rn e (net # nets) r =
     (case net (log_url e (re_lastID r)) (rp_apiKey e) of
        NetError \<Rightarrow> r
      | Status _ \<Rightarrow> r
      | Body None \<Rightarrow> r
      | Body (Some es) \<Rightarrow>
          if es = [] then r
          else case apply_entries rn es r of
            (False, r1) \<Rightarrow> r1
          | (True, r1) \<Rightarrow>
              let r2 = r1\<lparr>re_db := snd (UpdateReplicationAppliedID (rn_now rn) (re_lastID r1) (re_db r1))\<rparr>
              in if 500 \<le> length es then pollOnce rn e nets r2 else r2)"

text \<open>
  \<open>replicaLoop\<close>: load the position, poll, then poll at each tick until the stop channel is closed.
  A run is given by its ticks, each with the network it finds.
\<close>

definition replica_start :: "run_env \<Rightarrow> repl_engine \<Rightarrow> network list \<Rightarrow> replica \<Rightarrow> replica option" where
  "replica_start rn e nets r =
     (case GetReplicationState (re_db r) of
        (Inl _, db) \<Rightarrow> None
      | (Inr st, db) \<Rightarrow> Some (pollOnce rn e nets (r\<lparr>re_lastID := rs_last_applied st, re_db := db\<rparr>)))"

fun replica_ticks :: "run_env \<Rightarrow> repl_engine \<Rightarrow> network list list \<Rightarrow> replica \<Rightarrow> replica" where
  "replica_ticks rn e [] r = r"
| "replica_ticks rn e (nets # ticks) r = replica_ticks rn e ticks (pollOnce rn e nets r)"

section \<open>Reads are not logged\<close>

lemma IsWriteQuery_iff: "IsWriteQuery q \<longleftrightarrow> \<not> reads_only (IdentifyType q)"
  by (auto simp: IsWriteQuery_def reads_only_def IdentifyType_iff Let_def)

lemma is_read_query_iff: "is_read_query (trim_space q) \<longleftrightarrow> \<not> IsWriteQuery q"
  by (auto simp: is_read_query_def IsWriteQuery_def Let_def)

section \<open>Catching up\<close>

lemma apply_entries_append:
  "apply_entries rn (xs @ ys) r =
     (case apply_entries rn xs r of (False, r1) \<Rightarrow> (False, r1) | (True, r1) \<Rightarrow> apply_entries rn ys r1)"
  by (induction xs arbitrary: r) (auto split: prod.split sum.split)

lemma apply_entries_lastID:
  "apply_entries rn es r = (True, r') \<Longrightarrow> es \<noteq> [] \<Longrightarrow> re_lastID r' = re_id (last es)"
proof (induction es arbitrary: r)
  case (Cons x es)
  then show ?case by (cases "es = []") (auto split: prod.splits sum.splits)
qed simp

lemma apply_entries_db: "re_db (snd (apply_entries rn es r)) = re_db r"
  by (induction es arbitrary: r) (auto simp: applyEntry_def split: prod.split sum.split)

text \<open>A primary that answers each request with the page of its log that was asked for.\<close>

definition serves :: "repl_engine \<Rightarrow> repl_entry list \<Rightarrow> network \<Rightarrow> bool" where
  "serves e l net \<longleftrightarrow> (\<forall>since. int64 since \<longrightarrow>
     net (log_url e since) (rp_apiKey e) = Body (Some (repl_page since 500 l)))"

definition pending :: "int \<Rightarrow> repl_entry list \<Rightarrow> repl_entry list" where
  "pending since l = filter (\<lambda>x. since < re_id x) l"

lemma repl_page_pending: "repl_page since 500 l = take 500 (pending since l)"
  by (simp add: repl_page_def pending_def)

lemma pending_after:
  assumes "sorted_wrt (<) (map re_id l)" and "take n (pending since l) \<noteq> []"
  shows "pending (re_id (last (take n (pending since l)))) l = drop n (pending since l)"
proof -
  let ?p = "pending since l" and ?x = "last (take n (pending since l))"
  have srt: "sorted_wrt (<) (map re_id ?p)"
    using assms(1) by (auto simp: pending_def sorted_wrt_map sorted_wrt_filter)
  have xin: "?x \<in> set (take n ?p)" using assms(2) by (rule last_in_set)
  then have "?x \<in> set ?p" by (meson in_set_takeD)
  then have big: "since < re_id ?x" by (simp add: pending_def)
  then have "pending (re_id ?x) l = filter (\<lambda>y. re_id ?x < re_id y) ?p"
    by (auto simp: pending_def intro: filter_cong)
  also have "\<dots> = filter (\<lambda>y. re_id ?x < re_id y) (take n ?p) @ filter (\<lambda>y. re_id ?x < re_id y) (drop n ?p)"
    by (metis append_take_drop_id filter_append)
  also have "filter (\<lambda>y. re_id ?x < re_id y) (take n ?p) = []"
  proof -
    obtain ys where ys: "take n ?p = ys @ [?x]" using assms(2) by (metis append_butlast_last_id)
    have "sorted_wrt (<) (map re_id (take n ?p))"
      using srt by (metis append_take_drop_id map_append sorted_wrt_append)
    then have "\<forall>y\<in>set ys. re_id y < re_id ?x" by (subst (asm) ys) (auto simp: sorted_wrt_append)
    then show ?thesis by (subst ys) (auto simp: filter_empty_conv)
  qed
  also have "filter (\<lambda>y. re_id ?x < re_id y) (drop n ?p) = drop n ?p"
  proof -
    have "sorted_wrt (<) (map re_id (take n ?p) @ map re_id (drop n ?p))"
      using srt by (metis append_take_drop_id map_append)
    then have "\<forall>y\<in>set (drop n ?p). re_id ?x < re_id y"
      using xin by (auto simp: sorted_wrt_append)
    then show ?thesis by (auto intro: filter_True)
  qed
  finally show ?thesis by simp
qed

text \<open>
  Polling page by page has the effect of applying everything pending in one go: the same
  statements, in the order of the log, up to the first that fails to run.
\<close>

definition same_run :: "replica \<Rightarrow> replica \<Rightarrow> bool" where
  "same_run r r' \<longleftrightarrow> re_lastID r = re_lastID r' \<and> re_executor r = re_executor r' \<and> re_os r = re_os r'"

lemma apply_entries_cong:
  "apply_entries rn es (r\<lparr>re_db := db\<rparr>) =
     (fst (apply_entries rn es r), (snd (apply_entries rn es r))\<lparr>re_db := db\<rparr>)"
proof (induction es arbitrary: r)
  case (Cons x es)
  have one: "applyEntry rn x (r\<lparr>re_db := db\<rparr>) = (fst (applyEntry rn x r), (snd (applyEntry rn x r))\<lparr>re_db := db\<rparr>)"
    by (simp add: applyEntry_def split: prod.split sum.split)
  show ?case
  proof (cases "applyEntry rn x r")
    case (Pair o1 r1)
    show ?thesis
    proof (cases o1)
      case (Inr u)
      have swap: "r1\<lparr>re_db := db, re_lastID := re_id x\<rparr> = r1\<lparr>re_lastID := re_id x, re_db := db\<rparr>" by simp
      have "apply_entries rn (x # es) (r\<lparr>re_db := db\<rparr>) =
          apply_entries rn es (r1\<lparr>re_lastID := re_id x, re_db := db\<rparr>)"
        using Pair one Inr by (simp only: apply_entries.simps fst_conv snd_conv prod.case sum.case swap)
      then show ?thesis using Cons [of "r1\<lparr>re_lastID := re_id x\<rparr>"] Pair Inr by simp
    qed (use Pair one in simp)
  qed
qed simp

lemma pollOnce_all:
  assumes "\<forall>net\<in>set nets. serves e l net" and "sorted_wrt (<) (map re_id l)"
    and "length (pending (re_lastID r) l) < 500 * length nets"
    and "int64 (re_lastID r)" and "\<forall>x\<in>set l. int64 (re_id x)"
  shows "same_run (pollOnce rn e nets r) (snd (apply_entries rn (pending (re_lastID r) l) r))"
  using assms
proof (induction nets arbitrary: r)
  case (Cons net nets)
  let ?p = "pending (re_lastID r) l"
  have page: "net (log_url e (re_lastID r)) (rp_apiKey e) = Body (Some (take 500 ?p))"
    using Cons.prems(1,4) by (simp add: serves_def repl_page_pending)
  obtain b r1 where a: "apply_entries rn (take 500 ?p) r = (b, r1)" by fastforce
  have whole: "apply_entries rn ?p r =
      (case apply_entries rn (take 500 ?p) r of (False, r1) \<Rightarrow> (False, r1)
       | (True, r1) \<Rightarrow> apply_entries rn (drop 500 ?p) r1)"
    by (subst apply_entries_append [symmetric]) simp
  show ?case
  proof (cases "?p = []")
    case True
    then show ?thesis using page by (simp add: same_run_def)
  next
    case False
    then have ne: "take 500 ?p \<noteq> []" by simp
    show ?thesis
    proof (cases b)
      case False
      then show ?thesis using page ne a whole by (simp add: same_run_def)
    next
      case True
      let ?r2 = "r1\<lparr>re_db := snd (UpdateReplicationAppliedID (rn_now rn) (re_lastID r1) (re_db r1))\<rparr>"
      have last: "re_lastID r1 = re_id (last (take 500 ?p))"
        using apply_entries_lastID [of rn "take 500 ?p" r r1] a True ne by simp
      have rest: "pending (re_lastID r1) l = drop 500 ?p"
        using pending_after [OF Cons.prems(2) ne] last by simp
      show ?thesis
      proof (cases "500 \<le> length ?p")
        case long: True
        have "length (pending (re_lastID ?r2) l) < 500 * length nets"
          using Cons.prems(3) rest long by simp
        moreover have "int64 (re_lastID r1)"
          using last_in_set [OF ne] Cons.prems(5) last by (auto simp: pending_def dest: in_set_takeD)
        ultimately have "same_run (pollOnce rn e nets ?r2) (snd (apply_entries rn (drop 500 ?p) ?r2))"
          using Cons.IH [of ?r2] Cons.prems(1,2,5) rest by simp
        moreover have "same_run (snd (apply_entries rn (drop 500 ?p) ?r2)) (snd (apply_entries rn (drop 500 ?p) r1))"
          by (simp add: apply_entries_cong same_run_def)
        moreover have "500 \<le> length (take 500 ?p)" using long by simp
        ultimately show ?thesis using page ne a True whole by (simp add: same_run_def Let_def)
      next
        case False
        then have "take 500 ?p = ?p" by simp
        then have "apply_entries rn ?p r = (True, r1)" using a True by (simp only:)
        then show ?thesis using page ne a True False by (simp add: same_run_def Let_def)
      qed
    qed
  qed
qed simp

text \<open>When nothing failed, the position is the last id of the log and has been stored.\<close>

lemma pollOnce_position:
  assumes "\<forall>net\<in>set nets. serves e l net" and "sorted_wrt (<) (map re_id l)"
    and "length (pending (re_lastID r) l) < 500 * length nets"
    and "fst (apply_entries rn (pending (re_lastID r) l) r)" and "pending (re_lastID r) l \<noteq> []"
    and "int64 (re_lastID r)" and "\<forall>x\<in>set l. int64 (re_id x)"
  shows "re_lastID (pollOnce rn e nets r) = re_id (last l) \<and> pending (re_lastID (pollOnce rn e nets r)) l = []"
proof -
  let ?p = "pending (re_lastID r) l"
  obtain r1 where r1: "apply_entries rn ?p r = (True, r1)"
    using assms(4) by (metis prod.collapse)
  have id: "re_lastID (pollOnce rn e nets r) = re_id (last ?p)"
    using pollOnce_all [OF assms(1-3,6,7), of rn] apply_entries_lastID [OF r1 assms(5)] r1
    by (simp add: same_run_def)
  have "pending (re_id (last ?p)) l = []"
    using pending_after [OF assms(2), of "length ?p" "re_lastID r"] assms(5) by simp
  moreover have "last ?p = last l"
  proof -
    have ne: "l \<noteq> []" using assms(5) by (auto simp: pending_def)
    then obtain ys where ys: "l = ys @ [last l]" by (metis append_butlast_last_id)
    obtain x where x: "x \<in> set l" "re_lastID r < re_id x"
      using assms(5) by (auto simp: pending_def filter_empty_conv)
    have "\<forall>y\<in>set ys. re_id y < re_id (last l)"
      using assms(2) by (subst (asm) ys) (auto simp: sorted_wrt_append)
    moreover have "x \<in> set ys \<or> x = last l" using x(1) by (subst (asm) ys) auto
    ultimately have "re_lastID r < re_id (last l)" using x(2) by auto
    then have "?p = pending (re_lastID r) ys @ [last l]"
      by (subst ys) (simp add: pending_def)
    then show ?thesis by simp
  qed
  ultimately show ?thesis using id by simp
qed

end
