(* ===== verification/DatabaseLife.thy ===== *)
theory DatabaseLife
  imports Executor
begin

text \<open>
  The life of a user database through \<open>Open\<close>, any use of its connection, and \<open>Close\<close>: what is in
  the data directory afterwards. Without encryption it is the file as the engine left it; with
  encryption a database made since the start is encrypted once; but one that was encrypted before
  it was opened is encrypted a second time, and what was written to it is lost, because its
  decrypted copy has already been removed when \<open>Close\<close> looks for it.
\<close>

section \<open>What the use of a connection changes\<close>

text \<open>Only the data of one inode.\<close>

definition touches :: "nat \<Rightarrow> os \<Rightarrow> os \<Rightarrow> bool" where
  "touches i s s' \<longleftrightarrow> (\<exists>x. s' = s\<lparr>os_data := (os_data s)(i := x)\<rparr>)"

lemma touches_trans: "touches i s t \<Longrightarrow> touches i t u \<Longrightarrow> touches i s u"
  by (auto simp: touches_def)

lemma touches_frame:
  assumes "touches i s s'"
  shows "os_names s' = os_names s" and "os_dirs s' = os_dirs s" and "os_faults s' = os_faults s"
    and "os_rand s' = os_rand s" and "os_next s' = os_next s" and "find_file p s' = find_file p s"
    and "is_dir p s' = is_dir p s" and "os_ok s' = os_ok s"
    and "find_file p s \<noteq> Some i \<Longrightarrow> content p s' = content p s"
proof -
  obtain x where x: "s' = s\<lparr>os_data := (os_data s)(i := x)\<rparr>" using assms by (auto simp: touches_def)
  then show "os_names s' = os_names s" and "os_dirs s' = os_dirs s" and "os_faults s' = os_faults s"
    and "os_rand s' = os_rand s" and "os_next s' = os_next s" and find: "find_file p s' = find_file p s"
    and "is_dir p s' = is_dir p s" and "os_ok s' = os_ok s"
    by (simp_all add: find_file_def is_dir_def os_ok_def)
  show "find_file p s \<noteq> Some i \<Longrightarrow> content p s' = content p s"
    using find x by (cases "find_file p s") (auto simp: content_def)
qed

lemma on_handle_touches:
  assumes "on_handle f h s = (r, h', s')"
  shows "touches (h_inode h) s s'" and "h_inode h' = h_inode h"
  using assms by (auto simp: on_handle_def touches_def split: prod.splits)

lemma run_pragmas_touches:
  "run_pragmas eng ps h s = (r, h', s') \<Longrightarrow> (s' = s \<or> touches (h_inode h) s s') \<and> h_inode h' = h_inode h"
proof (induction eng ps h s rule: run_pragmas.induct)
  case (2 eng q msg ps h s)
  obtain r1 h1 s1 where x: "on_handle (sq_exec eng q []) h s = (r1, h1, s1)" by (metis prod_cases3)
  note t = on_handle_touches [OF x]
  show ?case
  proof (cases r1)
    case (Inl e)
    with 2 x t show ?thesis by auto
  next
    case (Inr v)
    with 2 x have "(s' = s1 \<or> touches (h_inode h1) s1 s') \<and> h_inode h' = h_inode h1" by auto
    with t show ?thesis by (auto intro: touches_trans)
  qed
qed auto

lemma touches_or_same:
  assumes "s' = s \<or> touches i s s'"
  shows "touches i s s'"
proof -
  have "touches i s s" by (auto simp: touches_def intro: exI [of _ "os_data s i"])
  with assms show ?thesis by auto
qed

text \<open>Opening a path: the handle has the file's inode, made if there was none.\<close>

lemma open_at_effect:
  assumes "open_at d now name path m s = (Inr (), m', s')" and "os_faults s = []"
  obtains h s1 where "m' = m\<lparr>m_dbs := (name, h) # m_dbs m\<rparr>" and "creat now path s = (h_inode h, s1)"
    and "touches (h_inode h) s1 s'"
proof -
  obtain i s1 where c: "creat now path s = (i, s1)" by fastforce
  with assms obtain h2 where p: "run_pragmas (de_engine d) (open_pragmas (m_walMode m))
        \<lparr>h_inode = i, h_tx = None, h_log = []\<rparr> s1 = (Inr (), h2, s')"
    and m': "m' = m\<lparr>m_dbs := (name, h2) # m_dbs m\<rparr>"
    by (auto simp: open_at_def connect_def split: prod.splits sum.splits if_splits)
  from run_pragmas_touches [OF p] have "touches i s1 s'" and "h_inode h2 = i"
    by (auto intro: touches_or_same)
  with m' c that show ?thesis by auto
qed

lemma creat_existing: "find_file p s = Some i \<Longrightarrow> creat now p s = (i, s)"
  by (simp add: creat_def)

lemma find_file_cong: "path_clean p = path_clean q \<Longrightarrow> find_file p s = find_file q s"
  by (simp add: find_file_def)

section \<open>A database that was encrypted before it was opened\<close>

text \<open>
  The situation: a cipher and a scratch directory, the database closed and its file sealed under
  the cipher's key, no copy in the scratch directory, no failing system call.
\<close>

definition sealed_db :: "db_env \<Rightarrow> string \<Rightarrow> manager \<Rightarrow> os \<Rightarrow> cipher \<Rightarrow> string \<Rightarrow> string \<Rightarrow> bool" where
  "sealed_db d name m s c enc plain \<longleftrightarrow>
     m_cipher m = Some c \<and> m_decDir m \<noteq> [] \<and> map_of (m_dbs m) name = None \<and>
     content (resolvePath m name) s = Some enc \<and> Decrypt (de_gcm d) c enc = Inr plain \<and>
     content (path_join [m_decDir m, name]) s = None \<and>
     \<not> is_dir (resolvePath m name) s \<and> \<not> is_dir (path_join [m_decDir m, name]) s \<and>
     os_faults s = [] \<and> os_ok s"

lemma sealed_nonempty: "Decrypt g c enc = Inr p \<Longrightarrow> 0 < length enc"
  by (auto simp: Decrypt_def NonceSize_def split: if_splits)

lemma Stat_file:
  "os_faults s = [] \<Longrightarrow> \<not> is_dir p s \<Longrightarrow> content p s = Some x \<Longrightarrow>
     \<exists>info. Stat p s = (Inr info, s) \<and> fi_size info = length x \<and> \<not> fi_dir info"
  by (auto simp: Stat_def content_def)

lemma Stat_none:
  "os_faults s = [] \<Longrightarrow> \<not> is_dir p s \<Longrightarrow> content p s = None \<Longrightarrow> Stat p s = (Inl ErrNotExist, s)"
  by (auto simp: Stat_def content_def)

text \<open>
  After opening, the handle's inode has no name any more: the decrypted copy is gone, and the
  sealed file is as it was.
\<close>

lemma sealed_open:
  assumes sealed: "sealed_db d name m s c enc plain"
    and opened: "Open d now name m s = (Inr (), m1, s1)"
  shows "\<exists>h. map_of (m_dbs m1) name = Some h \<and> (\<forall>p. find_file p s1 \<noteq> Some (h_inode h)) \<and>
     content (resolvePath m name) s1 = Some enc \<and> content (path_join [m_decDir m, name]) s1 = None \<and>
     (\<forall>p. is_dir p s1 = is_dir p s) \<and> os_faults s1 = [] \<and> os_rand s1 = os_rand s \<and> os_ok s1 \<and>
     m1 = m\<lparr>m_dbs := (name, h) # m_dbs m\<rparr>"
proof -
  let ?orig = "resolvePath m name" and ?dec = "path_join [m_decDir m, name]"
  note S = sealed [unfolded sealed_db_def]
  have ne: "path_clean ?orig \<noteq> path_clean ?dec" using S find_file_cong
    by (metis content_def option.distinct(1))
  obtain info where info: "Stat ?orig s = (Inr info, s)" "0 < fi_size info"
    using Stat_file [of s ?orig enc] S sealed_nonempty by fastforce
  let ?s2 = "write_main now ?dec plain s"
  have dc: "DecryptCopy (de_gcm d) c now ?orig ?dec s = (Inr (), ?s2)"
    using S by (intro DecryptCopy_ok) auto
  obtain m3 s3 r where o: "open_at d now name ?dec m ?s2 = (r, m3, s3)" by (metis prod_cases3)
  with opened S info dc have r: "r = Inr ()" "m1 = m3" "s1 = snd (Remove ?dec s3)"
    by (simp_all add: Open_def isEncrypted_def Let_def)
  obtain h s4 where h: "m3 = m\<lparr>m_dbs := (name, h) # m_dbs m\<rparr>" "creat now ?dec ?s2 = (h_inode h, s4)"
    "touches (h_inode h) s4 s3"
    using open_at_effect [of d now name ?dec m ?s2 m3 s3] o r S by auto
  have new: "find_file ?dec s = None" using S by (simp add: content_def)
  have found: "find_file ?dec ?s2 = Some (os_next s)" using new by (simp add: find_write_main)
  with h(2) have i: "h_inode h = os_next s" "s4 = ?s2" by (simp_all add: creat_existing)
  note t = touches_frame [OF h(3)]
  have ok3: "os_ok s3" "os_faults s3 = []" "\<not> is_dir ?dec s3" using t i S by simp_all
  have rm: "s1 = unlink ?dec s3"
    using r(3) ok3 t(6) [of ?dec] i found by (simp add: Remove_def)
  have named: "find_file p s3 = Some (h_inode h) \<Longrightarrow> path_clean p = path_clean ?dec" for p
    using find_file_inj [OF ok3(1), of p "h_inode h" ?dec] t(6) i found by simp
  have orig3: "find_file ?orig s3 \<noteq> Some (h_inode h)" using named ne by blast
  have "content ?orig s3 = Some enc"
    using t(9) [of ?orig] t(6) [of ?orig] orig3 i S ne by (simp add: content_write_main)
  then have c1: "content ?orig s1 = Some enc" "content ?dec s1 = None" using ne by (simp_all add: rm)
  have "find_file p s1 \<noteq> Some (h_inode h)" for p using named [of p] by (auto simp: rm)
  moreover have "is_dir p s1 = is_dir p s" for p
  proof -
    have "is_dir p s3 = is_dir p ?s2" using t(7) [of p] unfolding i(2) .
    then show ?thesis unfolding rm by simp
  qed
  moreover have "os_rand s1 = os_rand s" using t(4) unfolding i(2) rm by simp
  moreover have "map_of (m_dbs m1) name = Some h" using h(1) r(2) by simp
  moreover have "os_faults s1 = []" "os_ok s1" using ok3 by (simp_all add: rm)
  ultimately show ?thesis using c1 h(1) r(2) by blast
qed

text \<open>A statement, or anything else done on the connection, reaches only the nameless inode.\<close>

lemma on_db_effect:
  assumes "map_of (m_dbs m) name = Some h" and "on_db f name m s = (r, m', s')"
  shows "\<exists>h'. map_of (m_dbs m') name = Some h' \<and> h_inode h' = h_inode h \<and> touches (h_inode h) s s' \<and>
     m_cipher m' = m_cipher m \<and> m_decDir m' = m_decDir m \<and> m_dataDir m' = m_dataDir m"
proof -
  obtain r1 h1 s1 where x: "on_handle f h s = (r1, h1, s1)" by (metis prod_cases3)
  then have "m' = m\<lparr>m_dbs := (name, h1) # filter (\<lambda>e. fst e \<noteq> name) (m_dbs m)\<rparr>" "s' = s1"
    using assms by (simp_all add: on_db_def)
  with on_handle_touches [OF x] show ?thesis by simp
qed

lemma sealed_close:
  assumes m: "m_cipher m = Some c" "m_decDir m \<noteq> []" "map_of (m_dbs m) name = Some h"
    and s: "\<forall>p. find_file p s \<noteq> Some (h_inode h)" "content (resolvePath m name) s = Some enc"
      "content (path_join [m_decDir m, name]) s = None" "\<not> is_dir (resolvePath m name) s"
      "\<not> is_dir (path_join [m_decDir m, name]) s" "os_faults s = []" "os_ok s" "0 < length enc"
    and rnd: "os_rand s = Some n # rs" "length n = NonceSize"
    and closed: "Close d now name m s = (Inr (), m', s')"
  shows "content (resolvePath m name) s' = Some (n @ g_seal (de_gcm d) (ci_key c) n enc)"
proof -
  let ?orig = "resolvePath m name" and ?dec = "path_join [m_decDir m, name]"
  have ne: "path_clean ?orig \<noteq> path_clean ?dec" using s find_file_cong
    by (metis content_def option.distinct(1))
  obtain r h1 s1 where x: "on_handle (sq_close (de_engine d)) h s = (r, h1, s1)" by (metis prod_cases3)
  with closed m have s': "s' = cleanupDecrypted name (drop_db name m) (reencrypt d now name (drop_db name m) s1)"
    by (cases r) (auto simp: Close_def Let_def)
  note t = touches_frame [OF on_handle_touches(1) [OF x]]
  have c1: "content p s1 = content p s" for p using t(9) s(1) by blast
  have st: "Stat ?dec s1 = (Inl ErrNotExist, s1)"
    using s t c1 by (intro Stat_none) auto
  obtain info where st2: "Stat ?orig s1 = (Inr info, s1)" "0 < fi_size info"
    using Stat_file [of s1 ?orig enc] s t c1 by fastforce
  let ?x = "n @ g_seal (de_gcm d) (ci_key c) n enc"
  have "EncryptFile (de_gcm d) c now ?orig s1 = (Inr (), write_main now ?orig ?x (s1\<lparr>os_rand := rs\<rparr>))"
    using s t c1 rnd by (intro EncryptFile_ok) auto
  then have re: "reencrypt d now name (drop_db name m) s1 = write_main now ?orig ?x (s1\<lparr>os_rand := rs\<rparr>)"
    using m st st2 by (simp add: reencrypt_def drop_db_def resolvePath_def Let_def)
  let ?w = "write_main now ?orig ?x (s1\<lparr>os_rand := rs\<rparr>)"
  have ok1: "os_ok (s1\<lparr>os_rand := rs\<rparr>)" using s t by simp
  have "content ?dec ?w = None" using content_write_main [OF ok1, of ?dec now ?orig ?x] ne c1 s by simp
  then have "Remove ?dec ?w = (Inl ErrNotExist, ?w)"
    using s t by (simp add: Remove_def content_def)
  then have "s' = ?w" using s' re m(2) by (simp add: cleanupDecrypted_def drop_db_def)
  then show ?thesis using content_write_main [OF ok1] by simp
qed

lemma sealed_life:
  assumes sealed: "sealed_db d name m s c enc plain"
    and opened: "Open d now name m s = (Inr (), m1, s1)"
    and used: "on_db f name m1 s1 = (r, m2, s2)"
    and rnd: "os_rand s = Some n # rs" "length n = NonceSize"
    and closed: "Close d now' name m2 s2 = (Inr (), m3, s3)"
  shows "content (resolvePath m name) s3 = Some (n @ g_seal (de_gcm d) (ci_key c) n enc)"
proof -
  note S = sealed [unfolded sealed_db_def]
  obtain h where h: "map_of (m_dbs m1) name = Some h" "\<forall>p. find_file p s1 \<noteq> Some (h_inode h)"
    "content (resolvePath m name) s1 = Some enc" "content (path_join [m_decDir m, name]) s1 = None"
    "\<forall>p. is_dir p s1 = is_dir p s" "os_faults s1 = []" "os_rand s1 = os_rand s" "os_ok s1"
    "m1 = m\<lparr>m_dbs := (name, h) # m_dbs m\<rparr>"
    using sealed_open [OF sealed opened] by blast
  obtain h' where h': "map_of (m_dbs m2) name = Some h'" "h_inode h' = h_inode h"
    "touches (h_inode h) s1 s2" "m_cipher m2 = m_cipher m" "m_decDir m2 = m_decDir m"
    "m_dataDir m2 = m_dataDir m"
    using on_db_effect [OF h(1) used] h(9) by auto
  note t = touches_frame [OF h'(3)]
  have res: "resolvePath m2 name = resolvePath m name" using h'(6) by (simp add: resolvePath_def)
  have c2: "content p s2 = content p s1" for p using t(9) h(2) by blast
  have "content (resolvePath m2 name) s3 = Some (n @ g_seal (de_gcm d) (ci_key c) n enc)"
  proof (rule sealed_close [OF _ _ h'(1) _ _ _ _ _ _ _ _ _ rnd(2) closed])
    show "0 < length enc" using S sealed_nonempty by blast
    show "os_rand s2 = Some n # rs" using t(4) h(7) rnd(1) by simp
  qed (use S h h' t c2 res in auto)
  then show ?thesis using res by simp
qed

section \<open>A database made since the start, and databases without encryption\<close>

lemma find_creat:
  "creat now p s = (i, s1) \<Longrightarrow> find_file p s1 = Some i"
  by (auto simp: creat_def find_file_def map_add_def split: option.splits)

lemma creat_frame:
  assumes "creat now p s = (i, s1)"
  shows "os_faults s1 = os_faults s" and "os_dirs s1 = os_dirs s" and "os_rand s1 = os_rand s"
    and "os_ok s \<Longrightarrow> os_ok s1"
    and "path_clean q \<noteq> path_clean p \<Longrightarrow> find_file q s1 = find_file q s"
proof -
  show "os_faults s1 = os_faults s" and "os_dirs s1 = os_dirs s" and "os_rand s1 = os_rand s"
    using assms by (auto simp: creat_def split: option.splits)
  show "os_ok s \<Longrightarrow> os_ok s1"
    using assms os_ok_write_main [of s now p "[]"]
    by (auto simp: creat_def write_main_def put_main_def os_ok_def split: option.splits)
  show "path_clean q \<noteq> path_clean p \<Longrightarrow> find_file q s1 = find_file q s"
    using assms by (auto simp: creat_def find_file_def map_add_def split: option.splits)
qed

text \<open>Opening the file of the data directory itself: the handle keeps the inode of that name.\<close>

lemma plain_open:
  assumes "os_faults s = []" and "os_ok s" and "open_at d now name (resolvePath m name) m s = (Inr (), m1, s1)"
  shows "\<exists>h. map_of (m_dbs m1) name = Some h \<and> find_file (resolvePath m name) s1 = Some (h_inode h) \<and>
     os_faults s1 = [] \<and> os_rand s1 = os_rand s \<and> os_dirs s1 = os_dirs s \<and> os_ok s1 \<and>
     (\<forall>q. path_clean q \<noteq> path_clean (resolvePath m name) \<longrightarrow> find_file q s1 = find_file q s) \<and>
     m1 = m\<lparr>m_dbs := (name, h) # m_dbs m\<rparr>"
proof -
  obtain h s4 where h: "m1 = m\<lparr>m_dbs := (name, h) # m_dbs m\<rparr>"
    "creat now (resolvePath m name) s = (h_inode h, s4)" "touches (h_inode h) s4 s1"
    using open_at_effect [OF assms(3,1)] by blast
  show ?thesis
    using h find_creat [OF h(2)] creat_frame [OF h(2)] touches_frame [OF h(3)] assms by auto
qed

text \<open>The bytes the engine leaves in the file when the connection is closed.\<close>

definition closed_main :: "engine \<Rightarrow> handle \<Rightarrow> os \<Rightarrow> string" where
  "closed_main eng h s = (case on_handle (sq_close eng) h s of (_, _, s') \<Rightarrow> i_main (os_data s' (h_inode h)))"

lemma plain_close:
  assumes "m_cipher m = None" and "m_decDir m = []" and "map_of (m_dbs m) name = Some h"
    and "find_file (resolvePath m name) s = Some (h_inode h)"
    and "Close d now name m s = (Inr (), m', s')"
  shows "content (resolvePath m name) s' = Some (closed_main (de_engine d) h s)"
proof -
  obtain r h1 s1 where x: "on_handle (sq_close (de_engine d)) h s = (r, h1, s1)" by (metis prod_cases3)
  with assms have "s' = s1"
    by (cases r) (auto simp: Close_def Let_def reencrypt_def cleanupDecrypted_def drop_db_def)
  moreover have "find_file (resolvePath m name) s1 = Some (h_inode h)"
    using touches_frame(6) [OF on_handle_touches(1) [OF x]] assms(4) by simp
  ultimately show ?thesis using x by (simp add: content_def closed_main_def)
qed

lemma fresh_close:
  assumes m: "m_cipher m = Some c" "m_decDir m \<noteq> []" "map_of (m_dbs m) name = Some h"
    and s: "find_file (resolvePath m name) s = Some (h_inode h)"
      "content (path_join [m_decDir m, name]) s = None" "\<not> is_dir (resolvePath m name) s"
      "\<not> is_dir (path_join [m_decDir m, name]) s" "os_faults s = []" "os_ok s"
    and main: "closed_main (de_engine d) h s \<noteq> []"
    and rnd: "os_rand s = Some n # rs" "length n = NonceSize"
    and closed: "Close d now name m s = (Inr (), m', s')"
  shows "content (resolvePath m name) s' =
     Some (n @ g_seal (de_gcm d) (ci_key c) n (closed_main (de_engine d) h s))"
proof -
  let ?orig = "resolvePath m name" and ?dec = "path_join [m_decDir m, name]"
  have ne: "path_clean ?orig \<noteq> path_clean ?dec" using s(1,2) find_file_cong [of ?orig ?dec s]
    by (auto simp: content_def)
  obtain r h1 s1 where x: "on_handle (sq_close (de_engine d)) h s = (r, h1, s1)" by (metis prod_cases3)
  with closed m have s': "s' = cleanupDecrypted name (drop_db name m) (reencrypt d now name (drop_db name m) s1)"
    by (cases r) (auto simp: Close_def Let_def)
  note t = touches_frame [OF on_handle_touches(1) [OF x]]
  let ?main = "closed_main (de_engine d) h s"
  have orig: "content ?orig s1 = Some ?main" using t(6) s(1) x by (simp add: content_def closed_main_def)
  have dec: "content ?dec s1 = None" using t(6) [of ?dec] s(2) by (simp add: content_def)
  have st: "Stat ?dec s1 = (Inl ErrNotExist, s1)" using s t dec by (intro Stat_none) auto
  obtain info where st2: "Stat ?orig s1 = (Inr info, s1)" "0 < fi_size info"
    using Stat_file [of s1 ?orig ?main] s t orig main by fastforce
  let ?x = "n @ g_seal (de_gcm d) (ci_key c) n ?main"
  have "EncryptFile (de_gcm d) c now ?orig s1 = (Inr (), write_main now ?orig ?x (s1\<lparr>os_rand := rs\<rparr>))"
    using s t orig rnd by (intro EncryptFile_ok) auto
  then have re: "reencrypt d now name (drop_db name m) s1 = write_main now ?orig ?x (s1\<lparr>os_rand := rs\<rparr>)"
    using m st st2 by (simp add: reencrypt_def drop_db_def resolvePath_def Let_def)
  let ?w = "write_main now ?orig ?x (s1\<lparr>os_rand := rs\<rparr>)"
  have ok1: "os_ok (s1\<lparr>os_rand := rs\<rparr>)" using s t by simp
  have "content ?dec ?w = None" using content_write_main [OF ok1, of ?dec now ?orig ?x] ne dec by simp
  then have "Remove ?dec ?w = (Inl ErrNotExist, ?w)"
    using s t by (simp add: Remove_def content_def)
  then have "s' = ?w" using s' re m(2) by (simp add: cleanupDecrypted_def drop_db_def)
  then show ?thesis using content_write_main [OF ok1] by simp
qed

text \<open>The whole life of a database whose file did not exist: it ends up encrypted once.\<close>

lemma fresh_life:
  assumes m: "m_cipher m = Some c" "m_decDir m \<noteq> []" "map_of (m_dbs m) name = None"
    and s: "content (resolvePath m name) s = None" "content (path_join [m_decDir m, name]) s = None"
      "\<not> is_dir (resolvePath m name) s" "\<not> is_dir (path_join [m_decDir m, name]) s"
      "path_clean (resolvePath m name) \<noteq> path_clean (path_join [m_decDir m, name])"
      "os_faults s = []" "os_ok s"
    and opened: "Open d now name m s = (Inr (), m1, s1)"
    and used: "on_db f name m1 s1 = (r, m2, s2)"
    and h: "map_of (m_dbs m2) name = Some h" "closed_main (de_engine d) h s2 \<noteq> []"
    and rnd: "os_rand s = Some n # rs" "length n = NonceSize"
    and closed: "Close d now' name m2 s2 = (Inr (), m3, s3)"
  shows "content (resolvePath m name) s3 =
     Some (n @ g_seal (de_gcm d) (ci_key c) n (closed_main (de_engine d) h s2))"
proof -
  let ?orig = "resolvePath m name" and ?dec = "path_join [m_decDir m, name]"
  have "isEncrypted ?orig s = (False, s)"
    using Stat_none [OF s(6,3,1)] by (simp add: isEncrypted_def)
  then have o: "open_at d now name ?orig m s = (Inr (), m1, s1)"
    using opened m by (simp add: Open_def Let_def)
  obtain h1 where h1: "map_of (m_dbs m1) name = Some h1" "find_file ?orig s1 = Some (h_inode h1)"
    "os_faults s1 = []" "os_rand s1 = os_rand s" "os_dirs s1 = os_dirs s" "os_ok s1"
    "\<forall>q. path_clean q \<noteq> path_clean ?orig \<longrightarrow> find_file q s1 = find_file q s"
    "m1 = m\<lparr>m_dbs := (name, h1) # m_dbs m\<rparr>"
    using plain_open [OF s(6,7) o] by blast
  obtain h2 where h2: "map_of (m_dbs m2) name = Some h2" "h_inode h2 = h_inode h1"
    "touches (h_inode h1) s1 s2" "m_cipher m2 = m_cipher m1" "m_decDir m2 = m_decDir m1"
    "m_dataDir m2 = m_dataDir m1"
    using on_db_effect [OF h1(1) used] by auto
  note t = touches_frame [OF h2(3)]
  have res: "resolvePath m2 name = ?orig" using h2(6) h1(8) by (simp add: resolvePath_def)
  have dec: "find_file ?dec s1 = None"
    using h1(7) [rule_format, of ?dec] s(2,5) by (auto simp: content_def)
  have "content (resolvePath m2 name) s3 =
      Some (n @ g_seal (de_gcm d) (ci_key c) n (closed_main (de_engine d) h s2))"
  proof (rule fresh_close [OF _ _ h(1) _ _ _ _ _ _ h(2) _ rnd(2) closed])
    show "os_rand s2 = Some n # rs" using t(4) h1(4) rnd(1) by simp
    show "find_file (resolvePath m2 name) s2 = Some (h_inode h)"
      using t(6) [of ?orig] h1(2) h2(1,2) h(1) res by simp
  qed (use m s h1 h2 t res dec in \<open>auto simp: content_def is_dir_def\<close>)
  then show ?thesis using res by simp
qed

end
