(* ===== verification/Backup.thy ===== *)
theory Backup
  imports DatabaseLife
begin

text \<open>
  Backups, \<open>internal/backup/backup.go\<close>, with the scheduled backups and the pruning of old ones of
  \<open>internal/server/server.go\<close>. The time stamp in a file name, a formatted local time, is an
  argument.
\<close>

section \<open>State\<close>

record backup_info =
  bi_Name :: string
  bi_Path :: string
  bi_Size :: nat
  bi_CreatedAt :: int
  bi_Database :: string

record backup_manager =
  bm_backupDir :: string
  bm_dataDir :: string
  bm_cipher :: "cipher option"

definition NewBackupManager :: "string \<Rightarrow> string \<Rightarrow> cipher option \<Rightarrow> backup_manager" where
  "NewBackupManager backupDir dataDir c =
     \<lparr>bm_backupDir = backupDir, bm_dataDir = dataDir, bm_cipher = c\<rparr>"

section \<open>Copying a file\<close>

text \<open>\<open>os.Open\<close>: the inode, or \<open>None\<close> for a directory, which opens but cannot be read.\<close>

definition open_read :: "string \<Rightarrow> os \<Rightarrow> nat option res \<times> os" where
  "open_read p = plain_call (\<lambda>s.
     if is_dir p s then (Inr None, s)
     else case find_file p s of None \<Rightarrow> (Inl ErrNotExist, s) | Some i \<Rightarrow> (Inr (Some i), s))"

text \<open>\<open>os.Create\<close> truncates a file that is there.\<close>

definition os_Create :: "int \<Rightarrow> string \<Rightarrow> os \<Rightarrow> nat res \<times> os" where
  "os_Create now p = plain_call (\<lambda>s.
     if is_dir p s then (Inl (Err ''is a directory''), s)
     else case creat now p s of (i, s1) \<Rightarrow> (Inr i, put_main i now [] s1))"

definition io_Copy :: "int \<Rightarrow> nat \<Rightarrow> nat option \<Rightarrow> os \<Rightarrow> unit res \<times> os" where
  "io_Copy now dst src =
     sys_call (\<lambda>n s. case src of None \<Rightarrow> s | Some i \<Rightarrow> put_main dst now (take n (i_main (os_data s i))) s)
       (\<lambda>s. case src of
          None \<Rightarrow> (Inl (Err ''is a directory''), s)
        | Some i \<Rightarrow> (Inr (), put_main dst now (i_main (os_data s i)) s))"

definition copyFile :: "int \<Rightarrow> string \<Rightarrow> string \<Rightarrow> os \<Rightarrow> unit res \<times> os" where
  "copyFile now src dst s =
     (case open_read src s of
        (Inl e, s1) \<Rightarrow> (Inl (Wrap ''open source'' e), s1)
      | (Inr i, s1) \<Rightarrow>
          case os_Create now dst s1 of
            (Inl e, s2) \<Rightarrow> (Inl (Wrap ''create destination'' e), s2)
          | (Inr j, s2) \<Rightarrow>
              case io_Copy now j i s2 of
                (Inl e, s3) \<Rightarrow> (Inl (Wrap ''copy data'' e), s3)
              | (Inr _, s3) \<Rightarrow> plain_call (\<lambda>s. (Inr (), s)) s3)"

section \<open>Creating and restoring\<close>

definition backup_name :: "string \<Rightarrow> string \<Rightarrow> string" where
  "backup_name dbName timestamp = dbName @ ''_'' @ timestamp @ ''.db.backup''"

definition CreateBackup ::
  "db_env \<Rightarrow> int \<Rightarrow> string \<Rightarrow> string \<Rightarrow> backup_manager \<Rightarrow> manager \<Rightarrow> os \<Rightarrow> backup_info res \<times> manager \<times> os" where
  "CreateBackup d now timestamp dbName bm m s =
     (case MkdirAll (bm_backupDir bm) s of
        (Inl e, s1) \<Rightarrow> (Inl (Wrap ''create backup dir'' e), m, s1)
      | (Inr _, s1) \<Rightarrow>
          let filename = backup_name dbName timestamp;
              backupPath = path_join [bm_backupDir bm, filename]
          in case Open d now dbName m s1 of
            (Inl e, m2, s2) \<Rightarrow> (Inl (Wrap ''open database'' e), m2, s2)
          | (Inr _, m2, s2) \<Rightarrow>
              case on_db (sq_exec (de_engine d) ''PRAGMA wal_checkpoint(TRUNCATE)'' []) dbName m2 s2 of
                (_, m3, s3) \<Rightarrow>
                  case (if bm_cipher bm \<noteq> None then ActivePath m3 dbName s3
                        else (bm_dataDir bm @ ''/'' @ dbName, s3)) of
                    (srcPath, s4) \<Rightarrow>
                      let tmpPath = backupPath @ ''.tmp'' in
                      case copyFile now srcPath tmpPath s4 of
                        (Inl e, s5) \<Rightarrow> (Inl (Wrap ''copy backup'' e), m3, snd (Remove tmpPath s5))
                      | (Inr _, s5) \<Rightarrow>
                          case Rename tmpPath backupPath s5 of
                            (Inl e, s6) \<Rightarrow> (Inl (Wrap ''atomic rename'' e), m3, snd (Remove tmpPath s6))
                          | (Inr _, s6) \<Rightarrow>
                              case Stat backupPath s6 of
                                (Inl e, s7) \<Rightarrow> (Inl (Wrap ''stat backup'' e), m3, s7)
                              | (Inr info, s7) \<Rightarrow>
                                  (Inr \<lparr>bi_Name = filename, bi_Path = backupPath,
                                        bi_Size = fi_size info, bi_CreatedAt = fi_mtime info,
                                        bi_Database = dbName\<rparr>, m3, s7))"

text \<open>Which file a name means: itself if there is one, else one in the backup directory.\<close>

definition resolve_backup :: "string \<Rightarrow> backup_manager \<Rightarrow> os \<Rightarrow> string \<times> os" where
  "resolve_backup backupFile bm s =
     (case Stat backupFile s of
        (Inl e, s1) \<Rightarrow>
          if e = ErrNotExist then
            (let resolved = path_join [bm_backupDir bm, backupFile] in
             case Stat resolved s1 of
               (Inr _, s2) \<Rightarrow> (resolved, s2)
             | (Inl _, s2) \<Rightarrow> (backupFile, s2))
          else (backupFile, s1)
      | (Inr _, s1) \<Rightarrow> (backupFile, s1))"

definition RestoreBackup ::
  "db_env \<Rightarrow> int \<Rightarrow> string \<Rightarrow> string \<Rightarrow> backup_manager \<Rightarrow> manager \<Rightarrow> os \<Rightarrow> unit res \<times> manager \<times> os" where
  "RestoreBackup d now backupFile0 dbName bm m s =
     (case resolve_backup backupFile0 bm s of
        (backupFile, s1) \<Rightarrow>
          case Stat backupFile s1 of
            (Inl e, s2) \<Rightarrow> (Inl (Wrap ''backup file not found'' e), m, s2)
          | (Inr info, s2) \<Rightarrow>
              if fi_dir info then (Inl (Err ''backup path is a directory''), m, s2)
              else case Close d now dbName m s2 of
                (_, m3, s3) \<Rightarrow>
                  case copyFile now backupFile (bm_dataDir bm @ ''/'' @ dbName) s3 of
                    (Inl e, s4) \<Rightarrow> (Inl (Wrap ''restore file'' e), m3, s4)
                  | (Inr _, s4) \<Rightarrow>
                      case Open d now dbName m3 s4 of
                        (Inl e, m5, s5) \<Rightarrow> (Inl (Wrap ''reopen after restore'' e), m5, s5)
                      | (Inr _, m5, s5) \<Rightarrow> (Inr (), m5, s5))"

section \<open>Listing, deleting, pruning\<close>

fun backup_loop :: "string \<Rightarrow> (string \<times> nat option) list \<Rightarrow> backup_info list \<Rightarrow> os \<Rightarrow> backup_info list \<times> os" where
  "backup_loop dir [] backups s = (backups, s)"
| "backup_loop dir ((name, i) # es) backups s =
     (if i = None \<or> \<not> suffix ''.backup'' name then backup_loop dir es backups s
      else case Stat (path_join [dir, name]) s of
        (Inl _, s1) \<Rightarrow> backup_loop dir es backups s1
      | (Inr fi, s1) \<Rightarrow>
          backup_loop dir es (backups @ [\<lparr>bi_Name = name, bi_Path = path_join [dir, name],
             bi_Size = fi_size fi, bi_CreatedAt = fi_mtime fi,
             bi_Database = hd (split_n2 CHR ''_'' name)\<rparr>]) s1)"

text \<open>Newest first; \<open>sort.Slice\<close> leaves the order of equal times open, here it is that of the names.\<close>

definition ListBackups :: "backup_manager \<Rightarrow> os \<Rightarrow> backup_info list res \<times> os" where
  "ListBackups bm s =
     (case MkdirAll (bm_backupDir bm) s of
        (Inl e, s1) \<Rightarrow> (Inl (Wrap ''ensure backup dir'' e), s1)
      | (Inr _, s1) \<Rightarrow>
          case ReadDir (bm_backupDir bm) s1 of
            (Inl e, s2) \<Rightarrow> (Inl (Wrap ''read backup dir'' e), s2)
          | (Inr es, s2) \<Rightarrow>
              case backup_loop (bm_backupDir bm) es [] s2 of
                (backups, s3) \<Rightarrow> (Inr (sort_key (\<lambda>b. - bi_CreatedAt b) backups), s3))"

definition DeleteBackup :: "string \<Rightarrow> os \<Rightarrow> unit res \<times> os" where
  "DeleteBackup backupFile = Remove backupFile"

fun delete_all :: "backup_info list \<Rightarrow> os \<Rightarrow> os" where
  "delete_all [] s = s"
| "delete_all (b # bs) s = delete_all bs (snd (DeleteBackup (bi_Path b) s))"

definition pruneOldBackups :: "nat \<Rightarrow> backup_manager \<Rightarrow> os \<Rightarrow> os" where
  "pruneOldBackups keep bm s =
     (case ListBackups bm s of
        (Inl _, s1) \<Rightarrow> s1
      | (Inr all, s1) \<Rightarrow> if length all \<le> keep then s1 else delete_all (drop keep all) s1)"

text \<open>One tick of \<open>scheduledBackupLoop\<close>, for its fixed list of databases, and its interval.\<close>

definition backup_tick ::
  "db_env \<Rightarrow> int \<Rightarrow> string \<Rightarrow> int \<Rightarrow> backup_manager \<Rightarrow> manager \<Rightarrow> os \<Rightarrow> manager \<times> os" where
  "backup_tick d now timestamp keepCount bm m s =
     (case CreateBackup d now timestamp ''main'' bm m s of
        (_, m1, s1) \<Rightarrow> (m1, if 0 < keepCount then pruneOldBackups (nat keepCount) bm s1 else s1))"

definition backup_interval :: "int \<Rightarrow> int" where
  "backup_interval dur = (if dur < 60 * 10 ^ 9 then 60 * 10 ^ 9 else dur)"

section \<open>Lemmas\<close>

lemma put_main_frame [simp]:
  "find_file p (put_main i now d s) = find_file p s" "is_dir p (put_main i now d s) = is_dir p s"
  "os_faults (put_main i now d s) = os_faults s" "os_ok (put_main i now d s) = os_ok s"
  "os_rand (put_main i now d s) = os_rand s" "os_dirs (put_main i now d s) = os_dirs s"
  by (simp_all add: find_file_def is_dir_def put_main_def os_ok_def)

lemma put_main_content:
  assumes "os_ok s" and "find_file p s = Some i"
  shows "content q (put_main i now d s) = (if path_clean q = path_clean p then Some d else content q s)"
  using content_write_main [OF assms(1), of q now p d] assms(2) by (simp add: write_existing)

lemma creat_is_dir: "creat now p s = (i, s1) \<Longrightarrow> is_dir q s1 = is_dir q s"
  by (simp add: is_dir_def creat_frame(2))

lemma creat_content:
  assumes "os_ok s" and "creat now p s = (i, s1)"
  shows "path_clean q \<noteq> path_clean p \<Longrightarrow> content q s1 = content q s"
  using assms find_file_less [OF assms(1), of q]
  by (cases "find_file q s") (auto simp: creat_def content_def find_file_def map_add_def split: option.splits)

text \<open>Copying between two names stores the bytes of the first under the second, and nothing else.\<close>

lemma copyFile_ok:
  assumes "os_ok s" and "os_faults s = []" and "content src s = Some x" and "\<not> is_dir src s"
    and "\<not> is_dir dst s" and "path_clean src \<noteq> path_clean dst"
  shows "\<exists>s'. copyFile now src dst s = (Inr (), s') \<and> os_ok s' \<and> os_faults s' = [] \<and>
     (\<forall>q. content q s' = (if path_clean q = path_clean dst then Some x else content q s)) \<and>
     (\<forall>q. is_dir q s' = is_dir q s)"
proof -
  obtain i where i: "find_file src s = Some i" "i_main (os_data s i) = x"
    using assms(3) by (auto simp: content_def)
  obtain j s1 where c: "creat now dst s = (j, s1)" by fastforce
  note f = creat_frame [OF c] and g = find_creat [OF c] and h = creat_content [OF assms(1) c]
    and dir = creat_is_dir [OF c]
  have src1: "find_file src s1 = Some i" using f(5) [of src] i(1) assms(6) by simp
  have ok1: "os_ok s1" "os_faults s1 = []" using f assms by simp_all
  have ne: "j \<noteq> i" using find_file_inj [OF ok1(1) g, of src] src1 assms(6) by auto
  let ?s2 = "put_main j now [] s1"
  have "content src s1 = Some x" using h [of src] assms(3,6) by simp
  then have x2: "i_main (os_data ?s2 i) = x" using src1 ne by (simp add: content_def put_main_def)
  let ?s3 = "put_main j now x ?s2"
  have run: "copyFile now src dst s = (Inr (), ?s3)"
    using assms i c x2 ok1
    by (simp add: copyFile_def open_read_def os_Create_def io_Copy_def)
  have "content q ?s3 = (if path_clean q = path_clean dst then Some x else content q s)" for q
    using put_main_content [of ?s2 dst j q now x] put_main_content [OF ok1(1) g, of q now "[]"]
      ok1 g h [of q] by simp
  moreover have "is_dir q ?s3 = is_dir q s" for q using dir [of q] by simp
  ultimately show ?thesis using run ok1 by auto
qed

text \<open>
  Whatever the system calls do, a copy changes the bytes under no name but its destination's, and
  so does a backup: it writes to its temporary file, and the backup itself changes by a rename.
\<close>

lemma sys_callI:
  assumes "\<And>fs. P (f (s\<lparr>os_faults := fs\<rparr>))" and "\<And>e fs. P (Inl e, s\<lparr>os_faults := fs\<rparr>)"
    and "\<And>e n fs. P (Inl e, part n (s\<lparr>os_faults := fs\<rparr>))"
  shows "P (sys_call part f s)"
proof (cases "os_faults s = []")
  case True
  then have "s = s\<lparr>os_faults := []\<rparr>" by simp
  then show ?thesis using True assms(1) [of "[]"] by (metis sys_call_ok)
next
  case False
  then show ?thesis using assms by (auto simp: sys_call_def split: list.split option.split)
qed

definition changes_only :: "string \<Rightarrow> os \<Rightarrow> os \<Rightarrow> bool" where
  "changes_only dst s s' \<longleftrightarrow> os_ok s' \<and> (\<forall>q. path_clean q \<noteq> path_clean dst \<longrightarrow> content q s' = content q s)"

lemma changes_only_trans: "changes_only p s t \<Longrightarrow> changes_only p t u \<Longrightarrow> changes_only p s u"
  by (auto simp: changes_only_def)

lemma changes_only_frame [simp]:
  "changes_only p s (t\<lparr>os_faults := fs\<rparr>) = changes_only p s t"
  "changes_only p (s\<lparr>os_faults := fs\<rparr>) t = changes_only p s t"
  by (simp_all add: changes_only_def)

lemma changes_only_refl: "os_ok s \<Longrightarrow> changes_only p s s"
  by (simp add: changes_only_def)

lemma put_main_changes:
  assumes "os_ok s" and "find_file p s = Some i"
  shows "changes_only p s (put_main i now d s)"
  using assms put_main_content [OF assms] by (simp add: changes_only_def)

lemma open_read_state: "\<exists>fs. snd (open_read p s) = s\<lparr>os_faults := fs\<rparr>"
  unfolding open_read_def by (rule sys_callI) (auto split: option.split)

lemma os_Create_changes:
  assumes "os_ok s"
  shows "case os_Create now dst s of (r, t) \<Rightarrow>
     changes_only dst s t \<and> (\<forall>j. r = Inr j \<longrightarrow> find_file dst t = Some j)"
  unfolding os_Create_def
proof (rule sys_callI)
  fix fs
  let ?s = "s\<lparr>os_faults := fs\<rparr>"
  have ok: "os_ok ?s" using assms by simp
  obtain i t where c: "creat now dst ?s = (i, t)" by fastforce
  have "changes_only dst ?s t"
    using creat_frame(4) [OF c ok] creat_content [OF ok c] by (simp add: changes_only_def)
  then have "changes_only dst ?s (put_main i now [] t)"
    using put_main_changes [OF _ find_creat [OF c]] creat_frame(4) [OF c ok]
    by (blast intro: changes_only_trans)
  then show "case (if is_dir dst ?s then (Inl (Err ''is a directory''), ?s)
      else case creat now dst ?s of (i, s1) \<Rightarrow> (Inr i, put_main i now [] s1)) of (r, t) \<Rightarrow>
      changes_only dst s t \<and> (\<forall>j. r = Inr j \<longrightarrow> find_file dst t = Some j)"
    using c find_creat [OF c] assms by (simp add: changes_only_refl)
qed (use assms in \<open>simp_all add: changes_only_refl\<close>)

lemma io_Copy_changes:
  assumes "os_ok s" and "find_file dst s = Some j"
  shows "changes_only dst s (snd (io_Copy now j i s))"
proof -
  have put: "changes_only dst s (put_main j now d (s\<lparr>os_faults := fs\<rparr>))" for d fs
    using put_main_changes [of "s\<lparr>os_faults := fs\<rparr>" dst j] assms by simp
  show ?thesis
    unfolding io_Copy_def
    by (rule sys_callI) (use assms put in \<open>auto simp: changes_only_refl split: option.split\<close>)
qed

lemma copyFile_changes:
  assumes "os_ok s"
  shows "changes_only dst s (snd (copyFile now src dst s))"
proof -
  obtain r1 s1 where a: "open_read src s = (r1, s1)" by fastforce
  then have s1: "changes_only dst s s1" "os_ok s1"
    using open_read_state [of src s] assms by (auto simp: changes_only_refl)
  obtain r2 s2 where b: "os_Create now dst s1 = (r2, s2)" by fastforce
  then have s2: "changes_only dst s s2" "os_ok s2" "\<And>j. r2 = Inr j \<Longrightarrow> find_file dst s2 = Some j"
    using os_Create_changes [OF s1(2), of dst now] s1(1)
    by (auto simp: changes_only_def)
  have s3: "r2 = Inr j \<Longrightarrow> changes_only dst s (snd (io_Copy now j i s2))" for i j
    using io_Copy_changes [OF s2(2,3)] s2(1) by (blast intro: changes_only_trans)
  have s4: "\<exists>fs. snd (plain_call (\<lambda>s. (Inr (), s)) t) = t\<lparr>os_faults := fs\<rparr>" for t :: os
    by (rule sys_callI) auto
  show ?thesis
  proof (cases "r1")
    case (Inl e)
    then show ?thesis using a s1 by (simp add: copyFile_def)
  next
    case r1: (Inr i)
    show ?thesis
    proof (cases r2)
      case (Inl e)
      then show ?thesis using a b s2 r1 by (simp add: copyFile_def)
    next
      case (Inr j)
      obtain r3 t where c: "io_Copy now j i s2 = (r3, t)" by fastforce
      with s3 [OF Inr, of i] have t: "changes_only dst s t" by simp
      obtain fs where "snd (plain_call (\<lambda>s. (Inr () :: unit res, s)) t) = t\<lparr>os_faults := fs\<rparr>"
        using s4 by blast
      then show ?thesis
        using a b c r1 Inr t by (cases r3) (simp_all add: copyFile_def)
    qed
  qed
qed

end
