(* ===== verification/Handlers.thy ===== *)
theory Handlers
  imports AuthSteps AuditQueue Replication Backup
begin

text \<open>
  The request handlers of \<open>internal/server/routes.go\<close>. A handler gets the request with the user
  its middleware put into the context, and the decoded JSON body; it returns a response, or a
  panic that leaves it, and the server's state. Encoding and decoding of JSON is done by Go's
  library: a body is the outcome of \<open>Decode\<close> with the fields it set, by their JSON names.
\<close>

section \<open>Requests and responses\<close>

record request =
  rq_method :: string
  rq_path :: string
  rq_headers :: headers
  rq_remote :: string
  rq_pathval :: "string \<Rightarrow> string"
  rq_query :: "string \<Rightarrow> string"
  rq_user :: "AuthUser option"

record body =
  b_ok :: bool
  b_str :: "string \<Rightarrow> string"
  b_list :: "string \<Rightarrow> string list"
  b_params :: "sqlval list"
  b_size :: int

datatype payload =
    ErrorResponse string int
  | MessageResponse string
  | QueryResponse query_response
  | TransactionResponse transaction_response
  | LoginResponse login_response
  | CreateUserResponse int string string
  | UsersResponse "(int \<times> string \<times> string \<times> int \<times> int option) list"
  | APIKeyListResponse "api_key list"
  | APIKeyResponse string string
  | AuditLogsResponse "audit_row list"
  | BackupInfo backup_info
  | BackupsResponse "backup_info list"
  | RestoreResponse string string
  | ReplicationLogResponse "repl_entry list"
  | DatabasesResponse "string list"
  | StatsResponse stats
  | PrometheusText stats
  | WebFile string string
  | MuxError string
  | HealthResponse string "(string \<times> string) list"
  | NoContent

record response =
  rs_status :: int
  rs_payload :: payload
  rs_headers :: "(string \<times> string) list"

definition writeJSON :: "int \<Rightarrow> payload \<Rightarrow> response" where
  "writeJSON status p = \<lparr>rs_status = status, rs_payload = p,
     rs_headers = [(''Content-Type'', ''application/json'')]\<rparr>"

definition write_error :: "int \<Rightarrow> string \<Rightarrow> response" where
  "write_error code msg = writeJSON code (ErrorResponse msg code)"

section \<open>State\<close>

text \<open>
  The struct \<open>Handler\<close>, with the files it works on. The monitor is the executor's; the system
  database is the authenticator's; the database manager of the backups is the executor's.
\<close>

record handler =
  hd_executor :: executor
  hd_auth :: authenticator
  hd_os :: os
  hd_backup :: backup_manager
  hd_repl :: "repl_engine option"

text \<open>What one call reads from its surroundings: clocks, random bytes, the time stamp.\<close>

record call_env =
  ce_auth :: auth_env
  ce_db :: db_env
  ce_now :: int
  ce_dur :: int
  ce_rnd :: "string option"
  ce_nonce :: "string option"
  ce_stamp :: string

type_synonym handle_fun = "call_env \<Rightarrow> request \<Rightarrow> body \<Rightarrow> handler \<Rightarrow> response res \<times> handler"

definition with_auth :: "(authenticator \<Rightarrow> 'a \<times> authenticator) \<Rightarrow> handler \<Rightarrow> 'a \<times> handler" where
  "with_auth f h = (case f (hd_auth h) of (r, a) \<Rightarrow> (r, h\<lparr>hd_auth := a\<rparr>))"

definition with_sysdb :: "(sysdb \<Rightarrow> 'a \<times> sysdb) \<Rightarrow> handler \<Rightarrow> 'a \<times> handler" where
  "with_sysdb f = with_auth (\<lambda>a. case f (a_db a) of (r, db) \<Rightarrow> (r, a\<lparr>a_db := db\<rparr>))"

definition with_dbs :: "(manager \<Rightarrow> os \<Rightarrow> 'a \<times> manager \<times> os) \<Rightarrow> handler \<Rightarrow> 'a \<times> handler" where
  "with_dbs f h =
     (case f (ex_manager (hd_executor h)) (hd_os h) of
        (r, m, s) \<Rightarrow> (r, h\<lparr>hd_executor := (hd_executor h)\<lparr>ex_manager := m\<rparr>, hd_os := s\<rparr>))"

definition with_executor :: "(executor \<Rightarrow> os \<Rightarrow> 'a \<times> executor \<times> os) \<Rightarrow> handler \<Rightarrow> 'a \<times> handler" where
  "with_executor f h =
     (case f (hd_executor h) (hd_os h) of (r, ex, s) \<Rightarrow> (r, h\<lparr>hd_executor := ex, hd_os := s\<rparr>))"

definition with_os :: "(os \<Rightarrow> 'a \<times> os) \<Rightarrow> handler \<Rightarrow> 'a \<times> handler" where
  "with_os f h = (case f (hd_os h) of (r, s) \<Rightarrow> (r, h\<lparr>hd_os := s\<rparr>))"

definition logAudit ::
  "AuthUser option \<Rightarrow> request \<Rightarrow> string \<Rightarrow> string \<Rightarrow> string \<Rightarrow> handler \<Rightarrow> unit res \<times> handler" where
  "logAudit user rq query endpoint status =
     (let username = (case user of None \<Rightarrow> ''anonymous'' | Some u \<Rightarrow> AU_Username u);
          userID = map_option AU_ID user
      in with_sysdb (LogAudit userID username (rq_remote rq) query endpoint status))"

text \<open>Log, then answer; a panic while logging (a send on a closed channel) leaves the handler.\<close>

definition log_respond ::
  "AuthUser option \<Rightarrow> request \<Rightarrow> string \<Rightarrow> string \<Rightarrow> string \<Rightarrow> response \<Rightarrow> handler \<Rightarrow> response res \<times> handler" where
  "log_respond user rq query endpoint status resp h =
     (case logAudit user rq query endpoint status h of
        (Inl e, h1) \<Rightarrow> (Inl e, h1)
      | (Inr _, h1) \<Rightarrow> (Inr resp, h1))"

text \<open>Answer with an error of an operation; a panic of the operation leaves the handler.\<close>

definition fail_with :: "int \<Rightarrow> gerr \<Rightarrow> response res" where
  "fail_with code e = (if is_panic e then Inl e else Inr (write_error code (err_text e)))"

definition may :: "AuthUser option \<Rightarrow> permission \<Rightarrow> bool" where
  "may user p = (case user of None \<Rightarrow> False | Some u \<Rightarrow> HasPermission (AU_Role u) p)"

definition bad_body :: "response res" where
  "bad_body = Inr (write_error 400 ''invalid request body'')"

section \<open>Queries\<close>

definition denied_text :: "AuthUser \<Rightarrow> query_type \<Rightarrow> string" where
  "denied_text u qt =
     ''role '' @ [CHR 0x27] @ AU_Role u @ [CHR 0x27] @ '' does not have permission for ''
     @ query_type_text qt @ '' queries''"

text \<open>
  The guard both handlers run on a statement: \<open>None\<close> to go on, else the audit endpoint and the
  response. \<open>sfx\<close> is empty for a query and \<open>_tx\<close> for a transaction.
\<close>

definition query_guard :: "string \<Rightarrow> AuthUser option \<Rightarrow> string \<Rightarrow> (string \<times> response) option" where
  "query_guard sfx user q =
     (case CheckDangerous q of
        (True, reason) \<Rightarrow> Some (''dangerous_query'' @ sfx, write_error 403 reason)
      | (False, _) \<Rightarrow>
          let qt = IdentifyType q in
          case (RequiredPermission qt, user) of
            (Some perm, Some u) \<Rightarrow>
              if \<not> HasPermission (AU_Role u) perm
              then Some (''permission_denied'' @ sfx, write_error 403 (denied_text u qt)) else None
          | _ \<Rightarrow> None)"

definition db_name :: "string \<Rightarrow> string" where
  "db_name d = (if d = [] then ''main'' else d)"

text \<open>Write the replication log before the statement runs; a failure is only audited.\<close>

definition replicate_query ::
  "call_env \<Rightarrow> AuthUser option \<Rightarrow> request \<Rightarrow> string \<Rightarrow> string \<Rightarrow> string \<Rightarrow> handler \<Rightarrow> unit res \<times> handler" where
  "replicate_query c user rq endpoint dbName q h =
     (if hd_repl h \<noteq> None \<and> IsWriteQuery q
      then (case with_sysdb (LogReplication (ce_now c) dbName q) h of
              (Inl _, h1) \<Rightarrow> logAudit user rq q endpoint ''failed'' h1
            | (Inr _, h1) \<Rightarrow> (Inr (), h1))
      else (Inr (), h))"

definition HandleQuery :: handle_fun where
  "HandleQuery c rq b h =
     (let q = b_str b ''query''; user = rq_user rq in
      if \<not> b_ok b then (bad_body, h)
      else if q = [] then (Inr (write_error 400 ''query is required''), h)
      else case query_guard [] user q of
        Some (endpoint, resp) \<Rightarrow> log_respond user rq q endpoint ''blocked'' resp h
      | None \<Rightarrow>
          let dbName = db_name (b_str b ''database'') in
          case replicate_query c user rq ''replication_log'' dbName q h of
            (Inl e, h1) \<Rightarrow> (Inl e, h1)
          | (Inr _, h1) \<Rightarrow>
              case with_executor (ExecuteContext (ce_db c) (ce_now c) (ce_dur c) dbName q (b_params b)) h1 of
                (Inl e, h2) \<Rightarrow>
                  log_respond user rq q ''query_error'' ''failed'' (write_error 500 (err_text e)) h2
              | (Inr res, h2) \<Rightarrow>
                  log_respond user rq q ''/query'' ''success'' (writeJSON 200 (QueryResponse res)) h2)"

text \<open>The loops over the statements of a transaction.\<close>

fun guard_all :: "AuthUser option \<Rightarrow> string list \<Rightarrow> (string \<times> string \<times> response) option" where
  "guard_all user [] = None"
| "guard_all user (q0 # qs) =
     (let q = trim_space q0 in
      if q = [] then guard_all user qs
      else case query_guard ''_tx'' user q of
        Some (endpoint, resp) \<Rightarrow> Some (q, endpoint, resp)
      | None \<Rightarrow> guard_all user qs)"

fun replicate_all ::
  "call_env \<Rightarrow> AuthUser option \<Rightarrow> request \<Rightarrow> string \<Rightarrow> string list \<Rightarrow> handler \<Rightarrow> unit res \<times> handler" where
  "replicate_all c user rq dbName [] h = (Inr (), h)"
| "replicate_all c user rq dbName (q0 # qs) h =
     (let q = trim_space q0 in
      if q = [] then replicate_all c user rq dbName qs h
      else case replicate_query c user rq ''replication_log_tx'' dbName q h of
        (Inl e, h1) \<Rightarrow> (Inl e, h1)
      | (Inr _, h1) \<Rightarrow> replicate_all c user rq dbName qs h1)"

definition HandleTransaction :: handle_fun where
  "HandleTransaction c rq b h =
     (let queries = b_list b ''queries''; user = rq_user rq in
      if \<not> b_ok b then (bad_body, h)
      else if queries = [] then (Inr (write_error 400 ''queries are required''), h)
      else case guard_all user queries of
        Some (q, endpoint, resp) \<Rightarrow> log_respond user rq q endpoint ''blocked'' resp h
      | None \<Rightarrow>
          let dbName = db_name (b_str b ''database'') in
          case replicate_all c user rq dbName queries h of
            (Inl e, h1) \<Rightarrow> (Inl e, h1)
          | (Inr _, h1) \<Rightarrow>
              case with_executor (ExecuteTransactionContext (ce_db c) (ce_now c) (ce_dur c) dbName queries) h1 of
                (Inl e, h2) \<Rightarrow>
                  log_respond user rq (join ''; '' queries) ''tx_error'' ''failed''
                    (write_error 500 (err_text e)) h2
              | (Inr res, h2) \<Rightarrow>
                  log_respond user rq (join ''; '' queries) ''/transaction'' ''success''
                    (writeJSON 200 (TransactionResponse res)) h2)"

section \<open>Login and passwords\<close>

definition HandleChangePassword :: handle_fun where
  "HandleChangePassword c rq b h =
     (case rq_user rq of
        None \<Rightarrow> (Inr (write_error 401 ''unauthorized''), h)
      | Some user \<Rightarrow>
          let old = b_str b ''old_password''; new = b_str b ''new_password'' in
          if \<not> b_ok b then (bad_body, h)
          else if old = [] \<or> new = []
          then (Inr (write_error 400 ''old_password and new_password are required''), h)
          else case with_auth (ChangeOwnPassword (ce_auth c) (ce_rnd c) (AU_ID user) old new) h of
            (Inl e, h1) \<Rightarrow> (fail_with 400 e, h1)
          | (Inr _, h1) \<Rightarrow> (Inr (writeJSON 200 (MessageResponse ''password changed'')), h1))"

definition HandleLogin :: handle_fun where
  "HandleLogin c rq b h =
     (let username = b_str b ''username''; password = b_str b ''password'' in
      if \<not> b_ok b then (bad_body, h)
      else if username = [] \<or> password = []
      then (Inr (write_error 400 ''username and password are required''), h)
      else case with_auth (Login (ce_auth c) (ce_now c) username password) h of
        (Inl e, h1) \<Rightarrow> (fail_with 401 e, h1)
      | (Inr res, h1) \<Rightarrow> (Inr (writeJSON 200 (LoginResponse res)), h1))"

section \<open>Users\<close>

definition created_response :: "int \<Rightarrow> user \<Rightarrow> response" where
  "created_response status u =
     writeJSON status (CreateUserResponse (User_ID u) (User_Username u) (User_Role u))"

definition invalid_role :: "response res" where
  "invalid_role =
     Inr (write_error 400 ''invalid role; must be one of: admin, developer, readonly, auditor'')"

definition HandleCreateUser :: handle_fun where
  "HandleCreateUser c rq b h =
     (let username = b_str b ''username''; password = b_str b ''password''; role = b_str b ''role'' in
      if \<not> may (rq_user rq) PermCreateUser
      then (Inr (write_error 403 ''only admins can create users''), h)
      else if \<not> b_ok b then (bad_body, h)
      else if username = [] \<or> password = [] \<or> role = []
      then (Inr (write_error 400 ''username, password, and role are required''), h)
      else if ParseRole role = None then (invalid_role, h)
      else case with_auth (Auth_CreateUser (ce_auth c) (ce_rnd c) (ce_now c) username password role) h of
        (Inl e, h1) \<Rightarrow> (fail_with 500 e, h1)
      | (Inr created, h1) \<Rightarrow> (Inr (created_response 201 created), h1))"

definition HandleListUsers :: handle_fun where
  "HandleListUsers c rq b h =
     (if \<not> may (rq_user rq) PermCreateUser
      then (Inr (write_error 403 ''only admins can list users''), h)
      else case with_sysdb ListUsers h of
        (Inl e, h1) \<Rightarrow> (fail_with 500 e, h1)
      | (Inr users, h1) \<Rightarrow>
          (Inr (writeJSON 200 (UsersResponse
             (map (\<lambda>u. (User_ID u, User_Username u, User_Role u, User_CreatedAt u, User_LockedUntil u))
                users))), h1))"

text \<open>The common beginning of the handlers that modify a user: permission, then the id.\<close>

definition on_user ::
  "request \<Rightarrow> string \<Rightarrow> (int \<Rightarrow> handler \<Rightarrow> response res \<times> handler) \<Rightarrow> handler \<Rightarrow> response res \<times> handler" where
  "on_user rq msg f h =
     (if \<not> may (rq_user rq) PermCreateUser then (Inr (write_error 403 msg), h)
      else case sscanf_int64 (rq_pathval rq ''id'') of
        None \<Rightarrow> (Inr (write_error 400 ''invalid user id''), h)
      | Some i \<Rightarrow> f i h)"

definition HandleUpdateUserRole :: handle_fun where
  "HandleUpdateUserRole c rq b = on_user rq ''only admins can modify users'' (\<lambda>i h.
     let role = b_str b ''role'' in
     if \<not> b_ok b then (bad_body, h)
     else if ParseRole role = None then (invalid_role, h)
     else case with_auth (Auth_UpdateUserRole i role) h of
       (Inl e, h1) \<Rightarrow> (fail_with 500 e, h1)
     | (Inr updated, h1) \<Rightarrow> (Inr (created_response 200 updated), h1))"

definition HandleUpdateUsername :: handle_fun where
  "HandleUpdateUsername c rq b = on_user rq ''only admins can modify users'' (\<lambda>i h.
     let username = b_str b ''username'' in
     if \<not> b_ok b then (bad_body, h)
     else if username = [] then (Inr (write_error 400 ''username is required''), h)
     else case with_auth (Auth_UpdateUsername i username) h of
       (Inl e, h1) \<Rightarrow> (fail_with 500 e, h1)
     | (Inr updated, h1) \<Rightarrow> (Inr (created_response 200 updated), h1))"

definition HandleUpdateUserPassword :: handle_fun where
  "HandleUpdateUserPassword c rq b = on_user rq ''only admins can modify users'' (\<lambda>i h.
     let password = b_str b ''password'' in
     if \<not> b_ok b then (bad_body, h)
     else case ValidatePasswordStrength password of
       Inl e \<Rightarrow> (fail_with 400 e, h)
     | Inr _ \<Rightarrow>
         case with_auth (Auth_UpdateUserPassword (ce_auth c) (ce_rnd c) i password) h of
           (Inl e, h1) \<Rightarrow> (fail_with 500 e, h1)
         | (Inr _, h1) \<Rightarrow> (Inr (writeJSON 200 (MessageResponse ''password updated'')), h1))"

definition HandleDeleteUser :: handle_fun where
  "HandleDeleteUser c rq b = on_user rq ''only admins can delete users'' (\<lambda>i h.
     if Some i = map_option AU_ID (rq_user rq)
     then (Inr (write_error 400 ''cannot delete yourself''), h)
     else case with_auth (Auth_DeleteUser i) h of
       (Inl e, h1) \<Rightarrow> (fail_with 500 e, h1)
     | (Inr _, h1) \<Rightarrow> (Inr (writeJSON 200 (MessageResponse ''user deleted'')), h1))"

section \<open>API keys\<close>

definition HandleListAPIKeys :: handle_fun where
  "HandleListAPIKeys c rq b h =
     (if \<not> may (rq_user rq) PermBackup
      then (Inr (write_error 403 ''only admins can list API keys''), h)
      else case with_sysdb ListAPIKeys h of
        (Inl e, h1) \<Rightarrow> (fail_with 500 e, h1)
      | (Inr keys, h1) \<Rightarrow> (Inr (writeJSON 200 (APIKeyListResponse keys)), h1))"

definition HandleDeleteAPIKey :: handle_fun where
  "HandleDeleteAPIKey c rq b h =
     (let idStr = rq_pathval rq ''id'' in
      if \<not> may (rq_user rq) PermBackup
      then (Inr (write_error 403 ''only admins can delete API keys''), h)
      else if idStr = [] then (Inr (write_error 400 ''id is required''), h)
      else case sscanf_int64 idStr of
        None \<Rightarrow> (Inr (write_error 400 ''invalid id''), h)
      | Some i \<Rightarrow>
          case with_sysdb (DeleteAPIKey i) h of
            (Inl e, h1) \<Rightarrow> (fail_with 500 e, h1)
          | (Inr _, h1) \<Rightarrow> (Inr (writeJSON 200 (MessageResponse ''API key deleted'')), h1))"

definition HandleCreateAPIKey :: handle_fun where
  "HandleCreateAPIKey c rq b h =
     (case rq_user rq of
        None \<Rightarrow> (Inr (write_error 403 ''only admins can create API keys''), h)
      | Some user \<Rightarrow>
          let name = b_str b ''name'' in
          if \<not> HasPermission (AU_Role user) PermBackup
          then (Inr (write_error 403 ''only admins can create API keys''), h)
          else if \<not> b_ok b then (bad_body, h)
          else if name = [] then (Inr (write_error 400 ''name is required''), h)
          else case with_auth (GenerateAPIKey (ce_auth c) (ce_rnd c) (ce_nonce c) (ce_now c)
                                 (AU_ID user) name) h of
            (Inl e, h1) \<Rightarrow> (fail_with 500 e, h1)
          | (Inr rawKey, h1) \<Rightarrow> (Inr (writeJSON 201 (APIKeyResponse rawKey name)), h1))"

definition HandleRevealAPIKey :: handle_fun where
  "HandleRevealAPIKey c rq b h =
     (case rq_user rq of
        None \<Rightarrow> (Inr (write_error 401 ''unauthorized''), h)
      | Some user \<Rightarrow>
          case sscanf_int64 (rq_pathval rq ''id'') of
            None \<Rightarrow> (Inr (write_error 400 ''invalid id''), h)
          | Some i \<Rightarrow>
              let password = b_str b ''password'' in
              if \<not> b_ok b then (bad_body, h)
              else if password = [] then (Inr (write_error 400 ''password is required''), h)
              else case with_auth (RevealAPIKey (ce_auth c) i password) h of
                (Inl e, h1) \<Rightarrow> (fail_with 401 e, h1)
              | (Inr rawKey, h1) \<Rightarrow> (Inr (writeJSON 200 (APIKeyResponse rawKey [])), h1))"

section \<open>Audit log, replication log\<close>

definition HandleAuditLogs :: handle_fun where
  "HandleAuditLogs c rq b h =
     (if \<not> may (rq_user rq) PermAuditLog
      then (Inr (write_error 403 ''only admins and auditors can view audit logs''), h)
      else let l = rq_query rq ''limit'';
               limit = (if l = [] then 100
                        else case parse_int64 l of
                          None \<Rightarrow> 100
                        | Some parsed \<Rightarrow> if 0 < parsed \<and> parsed \<le> 5000 then parsed else 100)
      in case with_sysdb (GetAuditLogs limit) h of
        (Inl e, h1) \<Rightarrow> (fail_with 500 e, h1)
      | (Inr logs, h1) \<Rightarrow> (Inr (writeJSON 200 (AuditLogsResponse logs)), h1))"

definition HandleReplicationLog :: handle_fun where
  "HandleReplicationLog c rq b h =
     (if \<not> may (rq_user rq) PermBackup
      then (Inr (write_error 403 ''only admins can access replication log''), h)
      else let sinceStr = (if rq_query rq ''since'' = [] then ''0'' else rq_query rq ''since'') in
      case sscanf_int64 sinceStr of
        None \<Rightarrow> (Inr (write_error 400 ''invalid since parameter''), h)
      | Some since \<Rightarrow>
          let limitStr = rq_query rq ''limit'';
              limit = (if limitStr = [] then Some 500
                       else case sscanf_int64 limitStr of
                         None \<Rightarrow> None
                       | Some l \<Rightarrow> if l < 1 \<or> 5000 < l then None else Some l)
          in case limit of
            None \<Rightarrow> (Inr (write_error 400 ''invalid limit parameter (1-5000)''), h)
          | Some l \<Rightarrow>
              case with_sysdb (GetReplicationLog since l) h of
                (Inl e, h1) \<Rightarrow> (fail_with 500 e, h1)
              | (Inr entries, h1) \<Rightarrow> (Inr (writeJSON 200 (ReplicationLogResponse entries)), h1))"

section \<open>Backups\<close>

text \<open>The error of \<open>Decode\<close> is ignored here.\<close>

definition HandleBackup :: handle_fun where
  "HandleBackup c rq b h =
     (if \<not> may (rq_user rq) PermBackup
      then (Inr (write_error 403 ''only admins can perform backups''), h)
      else let database = db_name (b_str b ''database'') in
      case with_dbs (CreateBackup (ce_db c) (ce_now c) (ce_stamp c) database (hd_backup h)) h of
        (Inl e, h1) \<Rightarrow> (fail_with 500 e, h1)
      | (Inr info, h1) \<Rightarrow>
          log_respond (rq_user rq) rq (''backup:'' @ database) ''/backup'' ''success''
            (writeJSON 201 (BackupInfo info)) h1)"

definition HandleRestore :: handle_fun where
  "HandleRestore c rq b h =
     (if \<not> may (rq_user rq) PermRestore
      then (Inr (write_error 403 ''only admins can perform restores''), h)
      else let file = b_str b ''backup_file''; database = db_name (b_str b ''database'') in
      if \<not> b_ok b then (bad_body, h)
      else if file = [] then (Inr (write_error 400 ''backup_file is required''), h)
      else case with_dbs (RestoreBackup (ce_db c) (ce_now c) file database (hd_backup h)) h of
        (Inl e, h1) \<Rightarrow> (fail_with 500 e, h1)
      | (Inr _, h1) \<Rightarrow>
          log_respond (rq_user rq) rq (''restore:'' @ file) ''/restore'' ''success''
            (writeJSON 200 (RestoreResponse ''restore completed'' database)) h1)"

definition HandleDeleteBackup :: handle_fun where
  "HandleDeleteBackup c rq b h =
     (let name = rq_pathval rq ''name'' in
      if \<not> may (rq_user rq) PermBackup
      then (Inr (write_error 403 ''only admins can delete backups''), h)
      else if name = [] then (Inr (write_error 400 ''backup name is required''), h)
      else case with_os (ListBackups (hd_backup h)) h of
        (Inl e, h1) \<Rightarrow> (fail_with 500 e, h1)
      | (Inr backups, h1) \<Rightarrow>
          case find (\<lambda>bi. bi_Name bi = name) backups of
            None \<Rightarrow> (Inr (write_error 404 ''backup not found''), h1)
          | Some bi \<Rightarrow>
              case with_os (DeleteBackup (bi_Path bi)) h1 of
                (Inl e, h2) \<Rightarrow> (fail_with 500 e, h2)
              | (Inr _, h2) \<Rightarrow>
                  log_respond (rq_user rq) rq (''delete_backup:'' @ name) (''/backups/'' @ name) ''success''
                    (writeJSON 200 (MessageResponse ''backup deleted'')) h2)"

definition HandleListBackups :: handle_fun where
  "HandleListBackups c rq b h =
     (if \<not> may (rq_user rq) PermBackup
      then (Inr (write_error 403 ''only admins can list backups''), h)
      else case with_os (ListBackups (hd_backup h)) h of
        (Inl e, h1) \<Rightarrow> (fail_with 500 e, h1)
      | (Inr backups, h1) \<Rightarrow> (Inr (writeJSON 200 (BackupsResponse backups)), h1))"

section \<open>Databases, statistics, health\<close>

text \<open>\<open>Stats\<close> on the handler's monitor; without one the method's receiver is nil.\<close>

definition monitor_stats :: "handler \<Rightarrow> stats res \<times> handler" where
  "monitor_stats h =
     (case ex_mon (hd_executor h) of
        None \<Rightarrow> (Inl (Panic ''nil pointer dereference''), h)
      | Some mon \<Rightarrow>
          case Monitor_Stats mon (ex_manager (hd_executor h)) (hd_os h) of
            (st, s) \<Rightarrow> (Inr st, h\<lparr>hd_os := s\<rparr>))"

definition HandleStats :: handle_fun where
  "HandleStats c rq b h =
     (if \<not> may (rq_user rq) PermAuditLog
      then (Inr (write_error 403 ''only admins and auditors can view stats''), h)
      else case monitor_stats h of
        (Inl e, h1) \<Rightarrow> (Inl e, h1)
      | (Inr st, h1) \<Rightarrow> (Inr (writeJSON 200 (StatsResponse st)), h1))"

definition HandlePrometheus :: handle_fun where
  "HandlePrometheus c rq b h =
     (case monitor_stats h of
        (Inl e, h1) \<Rightarrow> (Inl e, h1)
      | (Inr st, h1) \<Rightarrow>
          (Inr \<lparr>rs_status = 200, rs_payload = PrometheusText st,
                rs_headers = [(''Content-Type'', ''text/plain; charset=utf-8'')]\<rparr>, h1))"

definition HandleCreateDatabase :: handle_fun where
  "HandleCreateDatabase c rq b h =
     (let name = b_str b ''name''; user = rq_user rq in
      if \<not> b_ok b then (bad_body, h)
      else if name = [] then (Inr (write_error 400 ''database name is required''), h)
      else case with_executor (ExecuteContext (ce_db c) (ce_now c) (ce_dur c) name ''SELECT 1'' []) h of
        (Inl e, h1) \<Rightarrow>
          log_respond user rq name ''create_database'' ''failed'' (write_error 500 (err_text e)) h1
      | (Inr _, h1) \<Rightarrow>
          log_respond user rq name ''/databases'' ''success''
            (writeJSON 201 (MessageResponse ''database created'')) h1)"

definition HandleListDatabases :: handle_fun where
  "HandleListDatabases c rq b h =
     (case with_os (Executor_ListDatabases (hd_executor h)) h of
        (databases, h1) \<Rightarrow> (Inr (writeJSON 200 (DatabasesResponse databases)), h1))"

text \<open>\<open>Ping\<close> is a statement without effect.\<close>

definition HandleHealth :: handle_fun where
  "HandleHealth c rq b h =
     (case with_sysdb (exec (\<lambda>s. s)) h of
        (Inl _, h1) \<Rightarrow> (Inr (writeJSON 503 (HealthResponse ''degraded'' [(''database'', ''unreachable'')])), h1)
      | (Inr _, h1) \<Rightarrow> (Inr (writeJSON 200 (HealthResponse ''ok'' [(''database'', ''ok'')])), h1))"

end
