(* ===== verification/Config.thy ===== *)
theory Config
  imports GoStrings
begin

text \<open>
  The configuration, \<open>internal/config/config.go\<close>: the structure, its defaults, and the checks and
  corrections of \<open>Load\<close>. Reading files and the environment is done by the library viper, a
  parameter: from the path given and the defaults set it gives the unmarshalled structure or an
  error.
\<close>

section \<open>The structure\<close>

record config =
  cf_host :: string
  cf_port :: int
  cf_read_only :: bool
  cf_allowed_origins :: "string list"
  cf_data_dir :: string
  cf_wal_mode :: bool
  cf_max_conns :: int
  cf_auth_enabled :: bool
  cf_jwt_secret :: string
  cf_tls_enabled :: bool
  cf_cert_file :: string
  cf_key_file :: string
  cf_auto_cert :: bool
  cf_enc_enabled :: bool
  cf_enc_key :: string
  cf_enc_key_file :: string
  cf_backup_dir :: string
  cf_backup_schedule :: string
  cf_keep_count :: int
  cf_role :: string
  cf_primary_url :: string
  cf_api_key :: string
  cf_poll_interval :: int

datatype setting = SText string | SInt int | SBool bool

definition config_defaults :: "(string \<times> setting) list" where
  "config_defaults =
     [(''server.host'', SText ''0.0.0.0''), (''server.port'', SInt 9600),
      (''database.data_dir'', SText ''.''), (''database.wal_mode'', SBool True),
      (''database.max_connections'', SInt 100), (''tls.enabled'', SBool False),
      (''tls.auto_cert'', SBool True), (''tls.cert_file'', SText ''sparkdb.crt''),
      (''tls.key_file'', SText ''sparkdb.key''), (''encryption.enabled'', SBool False),
      (''backup.dir'', SText ''backups''), (''backup.schedule'', SText []),
      (''backup.keep_count'', SInt 10), (''replication.role'', SText ''standalone''),
      (''replication.poll_interval'', SInt 5)]"

section \<open>Loading\<close>

definition invalid_port :: "int \<Rightarrow> gerr" where
  "invalid_port p = Err (''invalid server port: '' @ dec_int p @ '' (must be 1-65535)'')"

text \<open>\<open>%q\<close> puts double quotes around the role; escapes inside it are not rendered.\<close>

definition invalid_role_name :: "string \<Rightarrow> gerr" where
  "invalid_role_name r =
     (let quoted = (\<lambda>w. [CHR 0x27] @ w @ [CHR 0x27]) in
      Err (''invalid replication role '' @ [CHR 0x22] @ r @ [CHR 0x22] @ '': must be '' @ quoted ''primary''
           @ '', '' @ quoted ''replica'' @ '', or '' @ quoted ''standalone''))"

definition repl_roles :: "string list" where
  "repl_roles = [''primary'', ''replica'', ''standalone'']"

text \<open>The checks and corrections, in the order of the code.\<close>

definition clamp_limits :: "config \<Rightarrow> config" where
  "clamp_limits cfg =
     (let cfg = (if cf_max_conns cfg < 1 then cfg\<lparr>cf_max_conns := 1\<rparr> else cfg)
      in if cf_keep_count cfg < 0 then cfg\<lparr>cf_keep_count := 0\<rparr> else cfg)"

definition check_role :: "config \<Rightarrow> config res" where
  "check_role cfg =
     (if cf_role cfg \<in> set repl_roles then Inr cfg
      else if cf_role cfg = [] then Inr (cfg\<lparr>cf_role := ''standalone''\<rparr>)
      else Inl (invalid_role_name (cf_role cfg)))"

definition check_config :: "config \<Rightarrow> config res" where
  "check_config cfg0 =
     (if cf_port cfg0 < 1 \<or> 65535 < cf_port cfg0 then Inl (invalid_port (cf_port cfg0))
      else let cfg = clamp_limits cfg0 in
      if cf_tls_enabled cfg \<and> \<not> cf_auto_cert cfg \<and> (cf_cert_file cfg = [] \<or> cf_key_file cfg = [])
      then Inl (Err ''tls enabled without auto_cert: cert_file and key_file must be set'')
      else if cf_enc_enabled cfg \<and> cf_enc_key cfg = [] \<and> cf_enc_key_file cfg = []
      then Inl (Err ''encryption enabled but no key or key_file provided'')
      else case check_role cfg of
        Inl e \<Rightarrow> Inl e
      | Inr cfg1 \<Rightarrow>
          if cf_role cfg1 = ''replica'' \<and> cf_primary_url cfg1 = []
          then Inl (Err ''replica role requires primary_url'')
          else if cf_role cfg1 = ''replica'' \<and> cf_api_key cfg1 = []
          then Inl (Err ''replica role requires api_key for authentication with primary'')
          else Inr (if cf_poll_interval cfg1 < 1 then cfg1\<lparr>cf_poll_interval := 5\<rparr> else cfg1))"

type_synonym viper = "string \<Rightarrow> (string \<times> setting) list \<Rightarrow> config res"

definition Load :: "viper \<Rightarrow> string \<Rightarrow> config res" where
  "Load v path =
     (case v path config_defaults of Inl e \<Rightarrow> Inl e | Inr cfg \<Rightarrow> check_config cfg)"

section \<open>What a loaded configuration satisfies\<close>

definition config_ok :: "config \<Rightarrow> bool" where
  "config_ok cfg \<longleftrightarrow>
     1 \<le> cf_port cfg \<and> cf_port cfg \<le> 65535 \<and> 1 \<le> cf_max_conns cfg \<and> 0 \<le> cf_keep_count cfg \<and>
     (cf_tls_enabled cfg \<longrightarrow> cf_auto_cert cfg \<or> cf_cert_file cfg \<noteq> [] \<and> cf_key_file cfg \<noteq> []) \<and>
     (cf_enc_enabled cfg \<longrightarrow> cf_enc_key cfg \<noteq> [] \<or> cf_enc_key_file cfg \<noteq> []) \<and>
     cf_role cfg \<in> set repl_roles \<and>
     (cf_role cfg = ''replica'' \<longrightarrow> cf_primary_url cfg \<noteq> [] \<and> cf_api_key cfg \<noteq> []) \<and>
     1 \<le> cf_poll_interval cfg"

lemma clamp_limits_simps [simp]:
  "cf_max_conns (clamp_limits c) = max 1 (cf_max_conns c)"
  "cf_keep_count (clamp_limits c) = max 0 (cf_keep_count c)"
  "cf_port (clamp_limits c) = cf_port c" "cf_tls_enabled (clamp_limits c) = cf_tls_enabled c"
  "cf_auto_cert (clamp_limits c) = cf_auto_cert c" "cf_cert_file (clamp_limits c) = cf_cert_file c"
  "cf_key_file (clamp_limits c) = cf_key_file c" "cf_enc_enabled (clamp_limits c) = cf_enc_enabled c"
  "cf_enc_key (clamp_limits c) = cf_enc_key c" "cf_enc_key_file (clamp_limits c) = cf_enc_key_file c"
  "cf_role (clamp_limits c) = cf_role c" "cf_primary_url (clamp_limits c) = cf_primary_url c"
  "cf_api_key (clamp_limits c) = cf_api_key c" "cf_poll_interval (clamp_limits c) = cf_poll_interval c"
  by (auto simp: clamp_limits_def Let_def)

lemma standalone_role: "''standalone'' \<in> set repl_roles" "''standalone'' \<noteq> ''replica''" "[] \<notin> set repl_roles"
  by (simp_all add: repl_roles_def)

lemma check_role_Inr:
  "check_role c = Inr c' \<longleftrightarrow>
     cf_role c \<in> set repl_roles \<and> c' = c \<or> cf_role c = [] \<and> c' = c\<lparr>cf_role := ''standalone''\<rparr>"
  using standalone_role by (auto simp: check_role_def)

lemma check_config_ok:
  assumes "check_config cfg = Inr cfg'"
  shows "config_ok cfg'"
proof -
  obtain c where c: "check_role (clamp_limits cfg) = Inr c"
    and rest: "1 \<le> cf_port cfg" "cf_port cfg \<le> 65535"
      "cf_tls_enabled cfg \<longrightarrow> cf_auto_cert cfg \<or> cf_cert_file cfg \<noteq> [] \<and> cf_key_file cfg \<noteq> []"
      "cf_enc_enabled cfg \<longrightarrow> cf_enc_key cfg \<noteq> [] \<or> cf_enc_key_file cfg \<noteq> []"
      "cf_role c = ''replica'' \<longrightarrow> cf_primary_url c \<noteq> [] \<and> cf_api_key c \<noteq> []"
    and cfg': "cfg' = (if cf_poll_interval c < 1 then c\<lparr>cf_poll_interval := 5\<rparr> else c)"
    using assms by (auto simp: check_config_def Let_def split: if_splits sum.splits)
  have role: "cf_role c \<in> set repl_roles"
    using c standalone_role by (auto simp: check_role_Inr)
  have same: "c = clamp_limits cfg \<or> c = (clamp_limits cfg)\<lparr>cf_role := ''standalone''\<rparr>"
    using c by (auto simp: check_role_Inr)
  show ?thesis
    using rest role same unfolding cfg' config_ok_def by (elim disjE) simp_all
qed

lemma clamp_limits_id: "1 \<le> cf_max_conns c \<Longrightarrow> 0 \<le> cf_keep_count c \<Longrightarrow> clamp_limits c = c"
  by (simp add: clamp_limits_def Let_def)

text \<open>A configuration that satisfies the conditions is taken as it is.\<close>

lemma check_config_id:
  assumes "config_ok cfg"
  shows "check_config cfg = Inr cfg"
proof -
  have "clamp_limits cfg = cfg" "check_role cfg = Inr cfg"
    using assms by (simp_all add: config_ok_def clamp_limits_id check_role_def)
  then show ?thesis using assms by (simp add: check_config_def config_ok_def Let_def)
qed

text \<open>
  When it is refused: the port, the certificate files, the encryption key, the role, or what a
  replica needs. Limits and intervals out of range are corrected instead.
\<close>

lemma check_config_refuses_iff:
  "(\<exists>e. check_config cfg = Inl e) \<longleftrightarrow>
     cf_port cfg < 1 \<or> 65535 < cf_port cfg \<or>
     cf_tls_enabled cfg \<and> \<not> cf_auto_cert cfg \<and> (cf_cert_file cfg = [] \<or> cf_key_file cfg = []) \<or>
     cf_enc_enabled cfg \<and> cf_enc_key cfg = [] \<and> cf_enc_key_file cfg = [] \<or>
     cf_role cfg \<noteq> [] \<and> cf_role cfg \<notin> set repl_roles \<or>
     cf_role cfg = ''replica'' \<and> (cf_primary_url cfg = [] \<or> cf_api_key cfg = [])"
proof -
  have "''replica'' \<in> set repl_roles" by (simp add: repl_roles_def)
  then show ?thesis
    using standalone_role by (auto simp: check_config_def check_role_def Let_def)
qed

end
