(* ===== verification/Server.thy ===== *)
theory Server
  imports Handlers Config
begin

text \<open>
  The HTTP server: the middleware of \<open>internal/server/middleware.go\<close>, the routes and the
  construction of \<open>internal/server/server.go\<close>, and the handler of the web interface,
  \<open>internal/web/web.go\<close>. A request goes through the rate limiter, CORS, the body limit, recovery
  from panics and logging before it is routed; the routes add authentication. TLS, listening and
  the log output are left out.
\<close>

section \<open>State\<close>

record server =
  sv_handler :: handler
  sv_userLimiter :: rate_limiter
  sv_ipLimiter :: rate_limiter
  sv_origins :: "string list"
  sv_stopping :: bool

type_synonym serve = "call_env \<Rightarrow> request \<Rightarrow> body \<Rightarrow> server \<Rightarrow> response res \<times> server"

definition on_handler :: "(handler \<Rightarrow> 'a \<times> handler) \<Rightarrow> server \<Rightarrow> 'a \<times> server" where
  "on_handler f sv = (case f (sv_handler sv) of (r, h) \<Rightarrow> (r, sv\<lparr>sv_handler := h\<rparr>))"

section \<open>Middleware\<close>

text \<open>\<open>responseWriter\<close> only records the status for the log, which is not modelled.\<close>

definition loggingMiddleware :: "serve \<Rightarrow> serve" where
  "loggingMiddleware next = next"

definition recoveryMiddleware :: "serve \<Rightarrow> serve" where
  "recoveryMiddleware next c rq b sv =
     (case next c rq b sv of
        (Inl e, sv1) \<Rightarrow> (Inr (write_error 500 ''internal server error''), sv1)
      | (Inr r, sv1) \<Rightarrow> (Inr r, sv1))"

definition allow_origin :: "string list \<Rightarrow> string \<Rightarrow> string" where
  "allow_origin allowed origin =
     (case allowed of
        [] \<Rightarrow> ''*''
      | a # _ \<Rightarrow>
          if a = ''*'' then ''*''
          else let found = (if origin \<in> set allowed then origin else [])
               in if found = [] then a else found)"

definition cors_headers :: "string \<Rightarrow> (string \<times> string) list" where
  "cors_headers origin =
     [(''Access-Control-Allow-Origin'', origin),
      (''Access-Control-Allow-Methods'', ''GET, POST, OPTIONS, DELETE, PUT''),
      (''Access-Control-Allow-Headers'', ''Content-Type, Authorization, X-API-Key''),
      (''Access-Control-Allow-Credentials'', ''true'')]"

definition add_headers :: "(string \<times> string) list \<Rightarrow> response res \<Rightarrow> response res" where
  "add_headers hs r = map_sum id (\<lambda>x. x\<lparr>rs_headers := hs @ rs_headers x\<rparr>) r"

definition corsMiddleware :: "string list \<Rightarrow> serve \<Rightarrow> serve" where
  "corsMiddleware allowed next c rq b sv =
     (let hs = cors_headers (allow_origin allowed (rq_headers rq ''Origin'')) in
      if rq_method rq = ''OPTIONS''
      then (Inr \<lparr>rs_status = 204, rs_payload = NoContent, rs_headers = hs\<rparr>, sv)
      else case next c rq b sv of (r, sv1) \<Rightarrow> (add_headers hs r, sv1))"

text \<open>Reading past the limit is an error of \<open>Decode\<close>, before it sets any field.\<close>

definition limit_body :: "int \<Rightarrow> body \<Rightarrow> body" where
  "limit_body maxBytes b =
     (if maxBytes < b_size b
      then b\<lparr>b_ok := False, b_str := (\<lambda>_. []), b_list := (\<lambda>_. []), b_params := []\<rparr> else b)"

definition bodyLimitMiddleware :: "int \<Rightarrow> serve \<Rightarrow> serve" where
  "bodyLimitMiddleware maxBytes next c rq b = next c rq (limit_body maxBytes b)"

definition too_many_requests :: "response res" where
  "too_many_requests = Inr (write_error 429 ''rate limit exceeded'')"

definition rateLimitMiddleware :: "serve \<Rightarrow> serve" where
  "rateLimitMiddleware next c rq b sv =
     (case RateLimiter_Allow (ce_now c) (rq_remote rq) (sv_ipLimiter sv) of
        (ok, l) \<Rightarrow>
          let sv1 = sv\<lparr>sv_ipLimiter := l\<rparr> in
          if \<not> ok then (too_many_requests, sv1)
          else let key = (case rq_user rq of None \<Rightarrow> rq_remote rq | Some u \<Rightarrow> AU_Username u) in
          case RateLimiter_Allow (ce_now c) key (sv_userLimiter sv1) of
            (ok2, l2) \<Rightarrow>
              let sv2 = sv1\<lparr>sv_userLimiter := l2\<rparr> in
              if \<not> ok2 then (too_many_requests, sv2) else next c rq b sv2)"

definition authMiddleware :: "serve \<Rightarrow> serve" where
  "authMiddleware next c rq b sv =
     (case on_handler (with_auth (AuthenticateRequest (ce_auth c) (ce_now c) (rq_headers rq))) sv of
        (Inl e, sv1) \<Rightarrow> (fail_with 401 e, sv1)
      | (Inr user, sv1) \<Rightarrow> next c (rq\<lparr>rq_user := Some user\<rparr>) b sv1)"

definition optionalAuthMiddleware :: "serve \<Rightarrow> serve" where
  "optionalAuthMiddleware next c rq b sv =
     (case on_handler (with_auth (AuthenticateRequest (ce_auth c) (ce_now c) (rq_headers rq))) sv of
        (Inl e, sv1) \<Rightarrow> if is_panic e then (Inl e, sv1) else next c rq b sv1
      | (Inr user, sv1) \<Rightarrow> next c (rq\<lparr>rq_user := Some user\<rparr>) b sv1)"

section \<open>The web interface\<close>

text \<open>The embedded files are an argument, a map from names; a path outside them has no file.\<close>

definition content_type :: "string \<Rightarrow> string" where
  "content_type p =
     (if suffix ''.html'' p then ''text/html; charset=utf-8''
      else if suffix ''.css'' p then ''text/css; charset=utf-8''
      else if suffix ''.js'' p then ''application/javascript; charset=utf-8''
      else if suffix ''.png'' p then ''image/png''
      else if suffix ''.ico'' p then ''image/x-icon''
      else if suffix ''.svg'' p then ''image/svg+xml''
      else ''text/plain'')"

definition web_file :: "(string \<Rightarrow> string option) \<Rightarrow> string \<Rightarrow> (string \<times> string) option" where
  "web_file static path =
     (let p0 = trim_prefix path ''/'';
          p = path_clean (if p0 = [] then ''index.html'' else p0)
      in case static p of
           Some data \<Rightarrow> Some (p, data)
         | None \<Rightarrow> map_option (\<lambda>data. (''index.html'', data)) (static ''index.html''))"

definition web_handler :: "(string \<Rightarrow> string option) \<Rightarrow> serve" where
  "web_handler static c rq b sv =
     (case web_file static (rq_path rq) of
        None \<Rightarrow> (Inr \<lparr>rs_status = 404, rs_payload = MuxError ''not found'', rs_headers = []\<rparr>, sv)
      | Some (p, data) \<Rightarrow>
          (Inr \<lparr>rs_status = 200, rs_payload = WebFile p data,
                rs_headers = [(''Content-Type'', content_type p),
                              (''Cache-Control'', ''no-cache, must-revalidate'')]\<rparr>, sv))"

section \<open>Shutdown\<close>

text \<open>The handler only answers; the work is done by a goroutine it starts, \<open>shutdown_work\<close>.\<close>

definition HandleShutdown :: serve where
  "HandleShutdown c rq b sv =
     (if \<not> may (rq_user rq) PermCreateUser
      then (Inr (write_error 403 ''only admins can shutdown''), sv)
      else (Inr (writeJSON 200 (MessageResponse ''shutting down'')), sv\<lparr>sv_stopping := True\<rparr>))"

text \<open>Close all databases, then the audit channel; the worker drains it (see \<open>AuditQueue\<close>).\<close>

definition shutdown_work :: "call_env \<Rightarrow> handler \<Rightarrow> unit res \<times> handler" where
  "shutdown_work c h =
     (case with_dbs (CloseAll (ce_db c) (ce_now c)) h of (_, h1) \<Rightarrow> with_sysdb close_audit h1)"

section \<open>Routes\<close>

datatype guard = RequireAuth | OptionalAuth

datatype seg = Lit string | Wild string

type_synonym route = "string \<times> seg list \<times> guard \<times> serve"

definition plain :: "handle_fun \<Rightarrow> serve" where
  "plain f c rq b = on_handler (f c rq b)"

definition routes :: "route list" where
  "routes =
     [(''POST'', [Lit ''query''], RequireAuth, plain HandleQuery),
      (''POST'', [Lit ''transaction''], RequireAuth, plain HandleTransaction),
      (''POST'', [Lit ''backup''], RequireAuth, plain HandleBackup),
      (''POST'', [Lit ''restore''], RequireAuth, plain HandleRestore),
      (''GET'', [Lit ''backups''], RequireAuth, plain HandleListBackups),
      (''DELETE'', [Lit ''backups'', Wild ''name''], RequireAuth, plain HandleDeleteBackup),
      (''POST'', [Lit ''auth'', Lit ''login''], OptionalAuth, plain HandleLogin),
      (''PUT'', [Lit ''auth'', Lit ''password''], RequireAuth, plain HandleChangePassword),
      (''POST'', [Lit ''auth'', Lit ''api-keys''], RequireAuth, plain HandleCreateAPIKey),
      (''GET'', [Lit ''auth'', Lit ''api-keys''], RequireAuth, plain HandleListAPIKeys),
      (''DELETE'', [Lit ''auth'', Lit ''api-keys'', Wild ''id''], RequireAuth, plain HandleDeleteAPIKey),
      (''POST'', [Lit ''auth'', Lit ''api-keys'', Wild ''id'', Lit ''reveal''], RequireAuth,
         plain HandleRevealAPIKey),
      (''POST'', [Lit ''admin'', Lit ''users''], RequireAuth, plain HandleCreateUser),
      (''GET'', [Lit ''admin'', Lit ''users''], RequireAuth, plain HandleListUsers),
      (''PUT'', [Lit ''admin'', Lit ''users'', Wild ''id'', Lit ''role''], RequireAuth,
         plain HandleUpdateUserRole),
      (''PUT'', [Lit ''admin'', Lit ''users'', Wild ''id'', Lit ''username''], RequireAuth,
         plain HandleUpdateUsername),
      (''PUT'', [Lit ''admin'', Lit ''users'', Wild ''id'', Lit ''password''], RequireAuth,
         plain HandleUpdateUserPassword),
      (''DELETE'', [Lit ''admin'', Lit ''users'', Wild ''id''], RequireAuth, plain HandleDeleteUser),
      (''GET'', [Lit ''admin'', Lit ''audit-logs''], RequireAuth, plain HandleAuditLogs),
      (''GET'', [Lit ''health''], OptionalAuth, plain HandleHealth),
      (''POST'', [Lit ''databases''], RequireAuth, plain HandleCreateDatabase),
      (''GET'', [Lit ''databases''], RequireAuth, plain HandleListDatabases),
      (''GET'', [Lit ''stats''], RequireAuth, plain HandleStats),
      (''GET'', [Lit ''metrics''], OptionalAuth, plain HandlePrometheus),
      (''GET'', [Lit ''replication'', Lit ''log''], RequireAuth, plain HandleReplicationLog),
      (''POST'', [Lit ''shutdown''], RequireAuth, HandleShutdown)]"

text \<open>Matching a cleaned path without escapes, segment by segment; \<open>HEAD\<close> matches \<open>GET\<close>.\<close>

fun match_segs :: "seg list \<Rightarrow> string list \<Rightarrow> (string \<Rightarrow> string) \<Rightarrow> (string \<Rightarrow> string) option" where
  "match_segs [] [] vals = Some vals"
| "match_segs (Lit p # ps) (x # xs) vals = (if p = x then match_segs ps xs vals else None)"
| "match_segs (Wild n # ps) (x # xs) vals = (if x = [] then None else match_segs ps xs (vals(n := x)))"
| "match_segs _ _ vals = None"

definition path_segs :: "string \<Rightarrow> string list" where
  "path_segs path = split_on CHR ''/'' (trim_prefix path ''/'')"

definition method_matches :: "string \<Rightarrow> string \<Rightarrow> bool" where
  "method_matches pat m \<longleftrightarrow> pat = m \<or> pat = ''GET'' \<and> m = ''HEAD''"

fun find_route :: "route list \<Rightarrow> string \<Rightarrow> string list \<Rightarrow> (guard \<times> serve \<times> (string \<Rightarrow> string)) option" where
  "find_route [] m segs = None"
| "find_route ((pm, pat, g, f) # rts) m segs =
     (if method_matches pm m
      then (case match_segs pat segs (\<lambda>_. []) of
              Some vals \<Rightarrow> Some (g, f, vals)
            | None \<Rightarrow> find_route rts m segs)
      else find_route rts m segs)"

definition path_known :: "string list \<Rightarrow> bool" where
  "path_known segs \<longleftrightarrow> (\<exists>(pm, pat, g, f) \<in> set routes. match_segs pat segs (\<lambda>_. []) \<noteq> None)"

definition guarded :: "guard \<Rightarrow> serve \<Rightarrow> serve" where
  "guarded g f = (case g of RequireAuth \<Rightarrow> authMiddleware f | OptionalAuth \<Rightarrow> optionalAuthMiddleware f)"

text \<open>The mux: a route, else for \<open>GET\<close> the web interface, else its own errors.\<close>

definition mux :: "(string \<Rightarrow> string option) \<Rightarrow> serve" where
  "mux static c rq b sv =
     (let segs = path_segs (rq_path rq) in
      case find_route routes (rq_method rq) segs of
        Some (g, f, vals) \<Rightarrow> guarded g f c (rq\<lparr>rq_pathval := vals\<rparr>) b sv
      | None \<Rightarrow>
          if method_matches ''GET'' (rq_method rq) then web_handler static c rq b sv
          else (Inr \<lparr>rs_status = 405, rs_payload = MuxError ''Method Not Allowed'', rs_headers = []\<rparr>, sv))"

definition max_body :: int where
  "max_body = 2 ^ 20"

text \<open>The whole pipeline. A request comes in with no user in its context.\<close>

definition pipeline :: "(string \<Rightarrow> string option) \<Rightarrow> serve" where
  "pipeline static c rq b sv =
     rateLimitMiddleware (corsMiddleware (sv_origins sv)
       (bodyLimitMiddleware max_body (recoveryMiddleware (loggingMiddleware (mux static))))) c rq b sv"

definition incoming :: "request \<Rightarrow> bool" where
  "incoming rq \<longleftrightarrow> rq_user rq = None"

section \<open>Construction\<close>

text \<open>
  What \<open>New\<close> builds from a configuration: \<open>env\<close> is the environment's encryption key, \<open>tmp\<close> the
  scratch directory, and \<open>opened\<close> what opening the system database gives.
\<close>

definition new_cipher :: "string \<Rightarrow> config \<Rightarrow> os \<Rightarrow> cipher option res \<times> os" where
  "new_cipher env cfg s =
     (if cf_enc_enabled cfg
      then (case GetCipher env (cf_enc_key cfg) (cf_enc_key_file cfg) s of
              (Inl e, s1) \<Rightarrow> (Inl (Wrap ''encryption'' e), s1)
            | (Inr ciph, s1) \<Rightarrow> (Inr (Some ciph), s1))
      else (Inr None, s))"

definition new_manager :: "cipher option \<Rightarrow> config \<Rightarrow> string \<Rightarrow> manager" where
  "new_manager ciph cfg tmp =
     (case ciph of
        Some k \<Rightarrow> NewEncryptedManager (cf_data_dir cfg) (cf_wal_mode cfg) (cf_max_conns cfg) k tmp
      | None \<Rightarrow> NewManager (cf_data_dir cfg) (cf_wal_mode cfg) (cf_max_conns cfg))"

definition server_auth_config :: "config \<Rightarrow> authenticator_config" where
  "server_auth_config cfg =
     \<lparr>cfg_JWTSecret = cf_jwt_secret cfg, cfg_SessionTTL = 24 * hour, cfg_LoginLimit = 5,
      cfg_LockoutTime = 15 * minute\<rparr>"

definition system_db_path :: "config \<Rightarrow> string" where
  "system_db_path cfg = cf_data_dir cfg @ ''/sparkdb_system.db''"

definition New ::
  "call_env \<Rightarrow> string \<Rightarrow> string \<Rightarrow> sysdb res \<Rightarrow> string option \<Rightarrow> config \<Rightarrow> os \<Rightarrow> server res" where
  "New c env tmp opened rnd_secret cfg s =
     (case new_cipher env cfg s of
        (Inl e, s1) \<Rightarrow> Inl e
      | (Inr ciph, s1) \<Rightarrow>
          let m = new_manager ciph cfg tmp in
          case opened of
            Inl e \<Rightarrow> Inl (Wrap ''init system database'' e)
          | Inr db \<Rightarrow>
              case NewAuthenticator (ce_auth c) rnd_secret (server_auth_config cfg) db of
                Inl e \<Rightarrow> Inl e
              | Inr a \<Rightarrow>
                  case EnsureDefaultAdmin (ce_auth c) (ce_rnd c) (ce_now c) a of
                    (Inl e, a1) \<Rightarrow> Inl (Wrap ''ensure default admin'' e)
                  | (Inr _, a1) \<Rightarrow>
                      let ex = NewExecutorWithMonitor m (NewMonitor (ce_now c));
                          bm = NewBackupManager (cf_backup_dir cfg) (cf_data_dir cfg) ciph in
                      case InitReplicationState (ce_now c) (cf_role cfg) (cf_primary_url cfg) (a_db a1) of
                        (Inl e, db2) \<Rightarrow> Inl (Wrap ''init replication state'' e)
                      | (Inr _, db2) \<Rightarrow>
                          let h = \<lparr>hd_executor = ex, hd_auth = a1\<lparr>a_db := db2\<rparr>, hd_os = s1,
                                hd_backup = bm,
                                hd_repl = Some (NewEngine (cf_role cfg) (cf_primary_url cfg)
                                            (cf_api_key cfg) (cf_poll_interval cfg))\<rparr>
                          in Inr \<lparr>sv_handler = h, sv_userLimiter = NewRateLimiter 60 minute,
                                sv_ipLimiter = NewRateLimiter 100 minute,
                                sv_origins = cf_allowed_origins cfg, sv_stopping = False\<rparr>)"

end
