(* ===== verification/HandlersInv.thy ===== *)
theory HandlersInv
  imports Handlers
begin

text \<open>
  What every handler keeps: the invariant of the system database, the wiring of the authenticator
  and one handle per name of an open database; and what the guards of the handlers refuse.
\<close>

section \<open>The invariant\<close>

definition auth_ok :: "auth_env \<Rightarrow> authenticator \<Rightarrow> bool" where
  "auth_ok e a \<longleftrightarrow> sysdb_ok (a_db a) \<and> auth_wired e a"

definition handler_ok :: "auth_env \<Rightarrow> handler \<Rightarrow> bool" where
  "handler_ok e h \<longleftrightarrow> auth_ok e (hd_auth h) \<and> manager_ok (ex_manager (hd_executor h))"

lemma auth_ok_db [simp]: "auth_ok e (a\<lparr>a_db := db\<rparr>) \<longleftrightarrow> sysdb_ok db \<and> auth_wired e a"
  by (simp add: auth_ok_def auth_wired_def)

lemma auth_ok_step: "auth_step e a a' \<Longrightarrow> auth_ok e a \<Longrightarrow> auth_ok e a'"
  using auth_step_ok unfolding auth_ok_def by blast

lemma auth_ops_ok:
  assumes "auth_ok e a"
  shows "auth_ok e (snd (Login e now u p a))"
    and "auth_ok e (snd (AuthenticateRequest e now hs a))"
    and "auth_ok e (snd (Auth_CreateUser e rnd now u p role a))"
    and "auth_ok e (snd (Auth_UpdateUserRole i role a))"
    and "auth_ok e (snd (Auth_UpdateUsername i u a))"
    and "auth_ok e (snd (Auth_UpdateUserPassword e rnd i p a))"
    and "auth_ok e (snd (ChangeOwnPassword e rnd i p q a))"
    and "auth_ok e (snd (Auth_DeleteUser i a))"
    and "i \<le> t_seq (db_users (a_db a)) \<Longrightarrow> auth_ok e (snd (GenerateAPIKey e rnd nonce now i n a))"
    and "auth_ok e (snd (RevealAPIKey e i p a))"
  using assms by (blast intro: auth_ok_step auth_step.intros)+

lemma with_auth_ok:
  "handler_ok e h \<Longrightarrow> (auth_ok e (hd_auth h) \<Longrightarrow> auth_ok e (snd (f (hd_auth h)))) \<Longrightarrow>
     handler_ok e (snd (with_auth f h))"
  by (simp add: with_auth_def handler_ok_def case_prod_beta)

lemma with_sysdb_ok:
  "handler_ok e h \<Longrightarrow>
     (sysdb_ok (a_db (hd_auth h)) \<Longrightarrow> sysdb_ok (snd (f (a_db (hd_auth h))))) \<Longrightarrow>
     handler_ok e (snd (with_sysdb f h))"
  unfolding with_sysdb_def
  by (rule with_auth_ok) (simp_all add: case_prod_beta auth_ok_def auth_wired_def)

lemma with_dbs_ok:
  "handler_ok e h \<Longrightarrow> (\<And>m s. manager_ok m \<Longrightarrow> manager_ok (fst (snd (f m s)))) \<Longrightarrow>
     handler_ok e (snd (with_dbs f h))"
  by (simp add: with_dbs_def handler_ok_def case_prod_beta)

lemma with_executor_ok:
  "handler_ok e h \<Longrightarrow> (\<And>ex s. manager_ok (ex_manager ex) \<Longrightarrow> manager_ok (ex_manager (fst (snd (f ex s))))) \<Longrightarrow>
     handler_ok e (snd (with_executor f h))"
  by (simp add: with_executor_def handler_ok_def case_prod_beta)

lemma with_os_ok: "handler_ok e h \<Longrightarrow> handler_ok e (snd (with_os f h))"
  by (simp add: with_os_def handler_ok_def case_prod_beta)

lemma ExecuteContext_ok [inv_rules]:
  "manager_ok (ex_manager ex) \<Longrightarrow>
     manager_ok (ex_manager (fst (snd (ExecuteContext d now dur n q ps ex s))))"
  by (simp add: ExecuteContext_def case_prod_beta Let_def Open_ok on_db_ok record_query_def
      split: sum.split option.split)

lemma ExecuteTransactionContext_ok [inv_rules]:
  "manager_ok (ex_manager ex) \<Longrightarrow>
     manager_ok (ex_manager (fst (snd (ExecuteTransactionContext d now dur n qs ex s))))"
  by (simp add: ExecuteTransactionContext_def case_prod_beta Open_ok on_db_ok
      split: sum.split option.split)

lemma CreateBackup_ok [inv_rules]:
  "manager_ok m \<Longrightarrow> manager_ok (fst (snd (CreateBackup d now ts n bm m s)))"
  by (simp add: CreateBackup_def case_prod_beta Let_def Open_ok on_db_ok split: sum.split)

lemma RestoreBackup_ok [inv_rules]:
  "manager_ok m \<Longrightarrow> manager_ok (fst (snd (RestoreBackup d now f n bm m s)))"
  by (simp add: RestoreBackup_def case_prod_beta Open_ok Close_ok split: sum.split)

lemma logAudit_ok: "handler_ok e h \<Longrightarrow> handler_ok e (snd (logAudit u rq q ep st h))"
  unfolding logAudit_def Let_def by (rule with_sysdb_ok) (simp_all add: LogAudit_ok)

lemma log_respond_ok: "handler_ok e h \<Longrightarrow> handler_ok e (snd (log_respond u rq q ep st r h))"
  using logAudit_ok by (simp add: log_respond_def case_prod_beta split: sum.split)

lemma replicate_ok: "handler_ok e h \<Longrightarrow> handler_ok e (snd (replicate_query c u rq ep n q h))"
  by (simp add: replicate_query_def case_prod_beta logAudit_ok with_sysdb_ok LogReplication_ok
      split: sum.split)

lemma replicate_all_ok: "handler_ok e h \<Longrightarrow> handler_ok e (snd (replicate_all c u rq n qs h))"
proof (induction qs arbitrary: h)
  case (Cons q0 qs)
  then show ?case
    by (simp add: Let_def case_prod_beta replicate_ok split: sum.split)
qed simp

text \<open>
  Every handler, where the ids that a caller brings along in its context name users that were
  created (see \<open>ServerInv\<close> for where they come from).
\<close>

definition known_user :: "AuthUser option \<Rightarrow> handler \<Rightarrow> bool" where
  "known_user u h \<longleftrightarrow> (\<forall>x. u = Some x \<longrightarrow> AU_ID x \<le> t_seq (db_users (a_db (hd_auth h))))"

lemmas handler_rules =
  with_auth_ok with_sysdb_ok with_dbs_ok with_executor_ok with_os_ok log_respond_ok logAudit_ok
  replicate_ok replicate_all_ok ExecuteContext_ok ExecuteTransactionContext_ok CreateBackup_ok
  RestoreBackup_ok auth_ops_ok

lemma HandleQuery_ok: "handler_ok e h \<Longrightarrow> handler_ok e (snd (HandleQuery c rq b h))"
  by (simp add: HandleQuery_def Let_def case_prod_beta handler_rules split: option.split sum.split)

lemma HandleTransaction_ok: "handler_ok e h \<Longrightarrow> handler_ok e (snd (HandleTransaction c rq b h))"
  by (simp add: HandleTransaction_def Let_def case_prod_beta handler_rules split: option.split sum.split)

lemma auth_handlers_ok:
  assumes "handler_ok (ce_auth c) h"
  shows "handler_ok (ce_auth c) (snd (HandleChangePassword c rq b h))"
    and "handler_ok (ce_auth c) (snd (HandleLogin c rq b h))"
    and "handler_ok (ce_auth c) (snd (HandleCreateUser c rq b h))"
    and "handler_ok (ce_auth c) (snd (HandleUpdateUserRole c rq b h))"
    and "handler_ok (ce_auth c) (snd (HandleUpdateUsername c rq b h))"
    and "handler_ok (ce_auth c) (snd (HandleUpdateUserPassword c rq b h))"
    and "handler_ok (ce_auth c) (snd (HandleDeleteUser c rq b h))"
    and "handler_ok (ce_auth c) (snd (HandleRevealAPIKey c rq b h))"
    and "known_user (rq_user rq) h \<Longrightarrow> handler_ok (ce_auth c) (snd (HandleCreateAPIKey c rq b h))"
  using assms
  by (simp_all add: HandleChangePassword_def HandleLogin_def HandleCreateUser_def on_user_def
      HandleUpdateUserRole_def HandleUpdateUsername_def HandleUpdateUserPassword_def
      HandleDeleteUser_def HandleRevealAPIKey_def HandleCreateAPIKey_def Let_def case_prod_beta
      handler_rules known_user_def split: option.split sum.split)

lemma db_handlers_ok:
  assumes "handler_ok e h"
  shows "handler_ok e (snd (HandleListUsers c rq b h))"
    and "handler_ok e (snd (HandleListAPIKeys c rq b h))"
    and "handler_ok e (snd (HandleDeleteAPIKey c rq b h))"
    and "handler_ok e (snd (HandleAuditLogs c rq b h))"
    and "handler_ok e (snd (HandleReplicationLog c rq b h))"
  using assms
  by (simp_all add: HandleListUsers_def HandleListAPIKeys_def HandleDeleteAPIKey_def
      HandleAuditLogs_def HandleReplicationLog_def Let_def case_prod_beta with_sysdb_ok
      DeleteAPIKey_ok split: option.split sum.split)

lemma monitor_stats_ok: "handler_ok e h \<Longrightarrow> handler_ok e (snd (monitor_stats h))"
  by (simp add: monitor_stats_def handler_ok_def case_prod_beta split: option.split)

lemma Health_ok: "handler_ok e h \<Longrightarrow> handler_ok e (snd (HandleHealth c rq b h))"
proof -
  assume "handler_ok e h"
  then have "handler_ok e (snd (with_sysdb (exec (\<lambda>s. s)) h))"
    by (rule with_sysdb_ok) (rule exec_inv, simp_all)
  then show ?thesis by (simp add: HandleHealth_def case_prod_beta split: sum.split)
qed

lemma file_handlers_ok:
  assumes "handler_ok e h"
  shows "handler_ok e (snd (HandleBackup c rq b h))"
    and "handler_ok e (snd (HandleRestore c rq b h))"
    and "handler_ok e (snd (HandleDeleteBackup c rq b h))"
    and "handler_ok e (snd (HandleListBackups c rq b h))"
    and "handler_ok e (snd (HandleStats c rq b h))"
    and "handler_ok e (snd (HandlePrometheus c rq b h))"
    and "handler_ok e (snd (HandleCreateDatabase c rq b h))"
    and "handler_ok e (snd (HandleListDatabases c rq b h))"
  using assms
  by (simp_all add: HandleBackup_def HandleRestore_def HandleDeleteBackup_def HandleListBackups_def
      HandleStats_def HandlePrometheus_def HandleCreateDatabase_def HandleListDatabases_def Let_def
      case_prod_beta handler_rules monitor_stats_ok split: option.split sum.split)

section \<open>What the guards refuse\<close>

definition forbidden :: "response res \<Rightarrow> bool" where
  "forbidden r \<longleftrightarrow> (\<exists>msg. r = Inr (write_error 403 msg))"

text \<open>The handlers for administrators: others get 403, and nothing happens.\<close>

definition admin_handlers :: "handle_fun list" where
  "admin_handlers =
     [HandleCreateUser, HandleListUsers, HandleUpdateUserRole, HandleUpdateUsername,
      HandleUpdateUserPassword, HandleDeleteUser, HandleListAPIKeys, HandleDeleteAPIKey,
      HandleCreateAPIKey, HandleReplicationLog, HandleBackup, HandleRestore, HandleDeleteBackup,
      HandleListBackups]"

lemma may_admin_iff:
  "p \<in> {PermDrop, PermCreateUser, PermBackup, PermRestore} \<Longrightarrow>
     may u p \<longleftrightarrow> (\<exists>x. u = Some x \<and> AU_Role x = RoleAdmin)"
  by (cases u) (simp_all add: may_def admin_only_permission)

lemma admin_handlers_refuse:
  assumes "f \<in> set admin_handlers" and "\<forall>u. rq_user rq = Some u \<longrightarrow> AU_Role u \<noteq> RoleAdmin"
  shows "forbidden (fst (f c rq b h)) \<and> snd (f c rq b h) = h"
proof -
  have "\<not> may (rq_user rq) PermCreateUser" "\<not> may (rq_user rq) PermBackup" "\<not> may (rq_user rq) PermRestore"
    using assms(2) by (auto simp: may_admin_iff)
  moreover from this have "\<And>u. rq_user rq = Some u \<Longrightarrow> \<not> HasPermission (AU_Role u) PermBackup"
    by (simp add: may_def)
  ultimately show ?thesis
    using assms(1)
    by (auto simp: admin_handlers_def HandleCreateUser_def HandleListUsers_def on_user_def
        HandleUpdateUserRole_def HandleUpdateUsername_def HandleUpdateUserPassword_def
        HandleDeleteUser_def HandleListAPIKeys_def HandleDeleteAPIKey_def HandleCreateAPIKey_def
        HandleReplicationLog_def HandleBackup_def HandleRestore_def HandleDeleteBackup_def
        HandleListBackups_def forbidden_def Let_def split: option.split)
qed

lemma audit_handlers_refuse:
  assumes "f \<in> {HandleAuditLogs, HandleStats}"
    and "\<forall>u. rq_user rq = Some u \<longrightarrow> AU_Role u \<notin> {RoleAdmin, RoleAuditor}"
  shows "forbidden (fst (f c rq b h)) \<and> snd (f c rq b h) = h"
proof -
  have "\<not> may (rq_user rq) PermAuditLog"
  proof (cases "rq_user rq")
    case None
    then show ?thesis by (simp add: may_def)
  next
    case (Some u)
    show ?thesis
    proof (cases "AU_Role u \<in> set ValidRoles")
      case True
      with assms(2) Some show ?thesis by (auto simp: may_def ValidRoles_def)
    next
      case False
      with Some show ?thesis by (simp add: may_def HasPermission_unknown)
    qed
  qed
  with assms(1) show ?thesis by (auto simp: HandleAuditLogs_def HandleStats_def forbidden_def)
qed

text \<open>The guard on statements lets pass exactly: no blocking pattern, and no permission missing.\<close>

lemma CheckDangerous_danger: "fst (CheckDangerous q) \<longleftrightarrow> danger_of q = DangerBlock"
  by (simp add: CheckDangerous_def check_patterns_iff danger_of_Block_iff)

lemma query_guard_None_iff:
  "query_guard sfx (Some u) q = None \<longleftrightarrow>
     danger_of q \<noteq> DangerBlock \<and>
     (IdentifyType q = TypeOther \<or>
      (\<exists>p. RequiredPermission (IdentifyType q) = Some p \<and> HasPermission (AU_Role u) p))"
proof -
  obtain d reason where d: "CheckDangerous q = (d, reason)" by fastforce
  then have "d \<longleftrightarrow> danger_of q = DangerBlock" using CheckDangerous_danger [of q] by simp
  with d show ?thesis
    by (cases d; cases "RequiredPermission (IdentifyType q)")
      (auto simp: query_guard_def Let_def RequiredPermission_None_iff)
qed

lemma query_guard_Some_iff:
  "query_guard sfx (Some u) q \<noteq> None \<longleftrightarrow>
     danger_of q = DangerBlock \<or>
     (\<exists>p. RequiredPermission (IdentifyType q) = Some p \<and> \<not> HasPermission (AU_Role u) p)"
proof -
  have "(\<exists>p. x = Some p \<and> \<not> H p) \<longleftrightarrow> \<not> (x = None \<or> (\<exists>p. x = Some p \<and> H p))"
    for x and H :: "'b \<Rightarrow> bool"
    by (cases x) auto
  then show ?thesis unfolding RequiredPermission_None_iff [symmetric] query_guard_None_iff by metis
qed

lemma query_guard_403: "query_guard sfx u q = Some (ep, r) \<Longrightarrow> \<exists>msg. r = write_error 403 msg"
  by (auto simp: query_guard_def Let_def split: prod.splits bool.splits option.splits if_splits)

text \<open>What is never touched by logging: databases, files and everything but the audit channel.\<close>

lemma log_respond_frame:
  "hd_executor (snd (log_respond u rq q ep st r h)) = hd_executor h"
  "hd_os (snd (log_respond u rq q ep st r h)) = hd_os h"
  "db_repl (a_db (hd_auth (snd (log_respond u rq q ep st r h)))) = db_repl (a_db (hd_auth h))"
  "db_users (a_db (hd_auth (snd (log_respond u rq q ep st r h)))) = db_users (a_db (hd_auth h))"
  by (simp_all add: log_respond_def logAudit_def with_sysdb_def with_auth_def case_prod_beta Let_def
      LogAudit_def split: sum.split)

lemma HandleQuery_blocked:
  assumes "b_ok b" and "b_str b ''query'' \<noteq> []" and "query_guard [] (rq_user rq) (b_str b ''query'') \<noteq> None"
    and "HandleQuery c rq b h = (r, h')"
  shows "hd_executor h' = hd_executor h \<and> hd_os h' = hd_os h \<and>
     db_repl (a_db (hd_auth h')) = db_repl (a_db (hd_auth h)) \<and> (\<forall>x. r = Inr x \<longrightarrow> forbidden r)"
proof -
  obtain ep resp where g: "query_guard [] (rq_user rq) (b_str b ''query'') = Some (ep, resp)"
    using assms(3) by auto
  have run: "(r, h') = log_respond (rq_user rq) rq (b_str b ''query'') ep ''blocked'' resp h"
    using assms g by (simp add: HandleQuery_def Let_def)
  then have "\<forall>x. r = Inr x \<longrightarrow> x = resp"
    by (auto simp: log_respond_def split: prod.splits sum.splits)
  with run log_respond_frame query_guard_403 [OF g] show ?thesis
    by (auto simp: forbidden_def) (metis snd_conv)+
qed

text \<open>A transaction with one refused statement runs none and replicates none.\<close>

lemma guard_all_Some_iff:
  "guard_all u qs = None \<longleftrightarrow> (\<forall>q\<in>set (statements_of qs). query_guard ''_tx'' u q = None)"
  by (induction qs) (auto simp: statements_of_def Let_def split: option.split)

lemma guard_all_403: "guard_all u qs = Some (q, ep, r) \<Longrightarrow> \<exists>msg. r = write_error 403 msg"
  by (induction qs) (auto simp: Let_def split: if_splits option.splits dest: query_guard_403)

lemma HandleTransaction_blocked:
  assumes "b_ok b" and "b_list b ''queries'' \<noteq> []"
    and "\<exists>q\<in>set (statements_of (b_list b ''queries'')). query_guard ''_tx'' (rq_user rq) q \<noteq> None"
    and "HandleTransaction c rq b h = (r, h')"
  shows "hd_executor h' = hd_executor h \<and> hd_os h' = hd_os h \<and>
     db_repl (a_db (hd_auth h')) = db_repl (a_db (hd_auth h)) \<and> (\<forall>x. r = Inr x \<longrightarrow> forbidden r)"
proof -
  obtain q ep resp where g: "guard_all (rq_user rq) (b_list b ''queries'') = Some (q, ep, resp)"
    using assms(3) guard_all_Some_iff [of "rq_user rq" "b_list b ''queries''"]
    by (cases "guard_all (rq_user rq) (b_list b ''queries'')") auto
  have run: "(r, h') = log_respond (rq_user rq) rq q ep ''blocked'' resp h"
    using assms g by (simp add: HandleTransaction_def Let_def)
  then have "\<forall>x. r = Inr x \<longrightarrow> x = resp"
    by (auto simp: log_respond_def split: prod.splits sum.splits)
  with run log_respond_frame guard_all_403 [OF g] show ?thesis
    by (auto simp: forbidden_def) (metis snd_conv)+
qed

section \<open>Auditing\<close>

definition audit_entry_of :: "AuthUser option \<Rightarrow> request \<Rightarrow> string \<Rightarrow> string \<Rightarrow> string \<Rightarrow> audit_entry" where
  "audit_entry_of user rq q ep st =
     \<lparr>ae_user = map_option AU_ID user,
      ae_username = (case user of None \<Rightarrow> ''anonymous'' | Some u \<Rightarrow> AU_Username u),
      ae_ip = rq_remote rq, ae_query = q, ae_endpoint = ep, ae_status = st, ae_flusher = None\<rparr>"

lemma log_respond_entry:
  assumes "\<not> audit_closed (a_db (hd_auth h))" and "length (audit_ch (a_db (hd_auth h))) < audit_cap"
  shows "log_respond u rq q ep st r h =
     (Inr r, h\<lparr>hd_auth := (hd_auth h)\<lparr>a_db := (a_db (hd_auth h))\<lparr>audit_ch :=
        audit_ch (a_db (hd_auth h)) @ [audit_entry_of u rq q ep st]\<rparr>\<rparr>\<rparr>)"
  using assms
  by (simp add: log_respond_def logAudit_def with_sysdb_def with_auth_def LogAudit_def Let_def
      audit_entry_of_def)

lemma replicate_audit:
  assumes "\<not> audit_closed (a_db (hd_auth h))" and "db_faults (a_db (hd_auth h)) = []"
  shows "fst (replicate_query c u rq ep n q h) = Inr ()"
    and "audit_ch (a_db (hd_auth (snd (replicate_query c u rq ep n q h)))) = audit_ch (a_db (hd_auth h))"
    and "\<not> audit_closed (a_db (hd_auth (snd (replicate_query c u rq ep n q h))))"
    and "db_repl (a_db (hd_auth (snd (replicate_query c u rq ep n q h)))) =
      (if hd_repl h \<noteq> None \<and> IsWriteQuery q
       then tbl_insert (\<lambda>i. \<lparr>re_id = i, re_database = n, re_query = q, re_executed = ce_now c\<rparr>)
              (db_repl (a_db (hd_auth h)))
       else db_repl (a_db (hd_auth h)))"
    and "hd_executor (snd (replicate_query c u rq ep n q h)) = hd_executor h"
    and "hd_os (snd (replicate_query c u rq ep n q h)) = hd_os h"
  using assms
  by (simp_all add: replicate_query_def with_sysdb_def with_auth_def LogReplication_def)

text \<open>
  A query that passes the guard: what runs, what is logged for the replicas before it runs, and
  the audit entry, on a system database that works and an audit channel with room.
\<close>

lemma HandleQuery_runs:
  fixes c rq b h
  defines "q \<equiv> b_str b ''query''" and "n \<equiv> db_name (b_str b ''database'')"
    and "run \<equiv> ExecuteContext (ce_db c) (ce_now c) (ce_dur c) (db_name (b_str b ''database''))
                 (b_str b ''query'') (b_params b) (hd_executor h) (hd_os h)"
  assumes "b_ok b" and "q \<noteq> []" and "query_guard [] (rq_user rq) q = None"
    and "\<not> audit_closed (a_db (hd_auth h))" and "db_faults (a_db (hd_auth h)) = []"
    and "length (audit_ch (a_db (hd_auth h))) < audit_cap"
    and "HandleQuery c rq b h = (r, h')"
  shows "r = Inr (case fst run of Inl e \<Rightarrow> write_error 500 (err_text e) | Inr res \<Rightarrow> writeJSON 200 (QueryResponse res))"
    and "hd_executor h' = fst (snd run)" and "hd_os h' = snd (snd run)"
    and "audit_ch (a_db (hd_auth h')) = audit_ch (a_db (hd_auth h)) @
       [case fst run of Inl e \<Rightarrow> audit_entry_of (rq_user rq) rq q ''query_error'' ''failed''
        | Inr res \<Rightarrow> audit_entry_of (rq_user rq) rq q ''/query'' ''success'']"
    and "t_rows (db_repl (a_db (hd_auth h'))) = t_rows (db_repl (a_db (hd_auth h))) @
       (if hd_repl h \<noteq> None \<and> IsWriteQuery q
        then [\<lparr>re_id = t_seq (db_repl (a_db (hd_auth h))) + 1, re_database = n, re_query = q,
               re_executed = ce_now c\<rparr>] else [])"
proof -
  let ?rep = "replicate_query c (rq_user rq) rq ''replication_log'' n q h"
  note rep = replicate_audit [OF assms(7,8), of c "rq_user rq" rq "''replication_log''" n q]
  obtain h1 where h1: "?rep = (Inr (), h1)" using rep(1) by (cases ?rep) simp
  note rep' = rep [unfolded h1 snd_conv fst_conv]
  obtain o1 ex s where run: "run = (o1, ex, s)" by (metis prod_cases3)
  have ex1: "with_executor (ExecuteContext (ce_db c) (ce_now c) (ce_dur c) n q (b_params b)) h1 =
      (o1, h1\<lparr>hd_executor := ex, hd_os := s\<rparr>)"
    using run rep'(5,6) by (simp add: with_executor_def run_def n_def q_def)
  let ?h2 = "h1\<lparr>hd_executor := ex, hd_os := s\<rparr>"
  have len: "length (audit_ch (a_db (hd_auth ?h2))) < audit_cap" "\<not> audit_closed (a_db (hd_auth ?h2))"
    using rep'(2,3) assms(9) by simp_all
  have eq: "HandleQuery c rq b h = (case o1 of
      Inl e \<Rightarrow> log_respond (rq_user rq) rq q ''query_error'' ''failed'' (write_error 500 (err_text e)) ?h2
    | Inr res \<Rightarrow> log_respond (rq_user rq) rq q ''/query'' ''success'' (writeJSON 200 (QueryResponse res)) ?h2)"
    using assms(4-6) h1 ex1 unfolding HandleQuery_def
    by (simp add: Let_def q_def [symmetric] n_def [symmetric])
  note entry = log_respond_entry [OF len(2,1)]
  show "r = Inr (case fst run of Inl e \<Rightarrow> write_error 500 (err_text e) | Inr res \<Rightarrow> writeJSON 200 (QueryResponse res))"
    and "hd_executor h' = fst (snd run)" and "hd_os h' = snd (snd run)"
    and "audit_ch (a_db (hd_auth h')) = audit_ch (a_db (hd_auth h)) @
       [case fst run of Inl e \<Rightarrow> audit_entry_of (rq_user rq) rq q ''query_error'' ''failed''
        | Inr res \<Rightarrow> audit_entry_of (rq_user rq) rq q ''/query'' ''success'']"
    and "t_rows (db_repl (a_db (hd_auth h'))) = t_rows (db_repl (a_db (hd_auth h))) @
       (if hd_repl h \<noteq> None \<and> IsWriteQuery q
        then [\<lparr>re_id = t_seq (db_repl (a_db (hd_auth h))) + 1, re_database = n, re_query = q,
               re_executed = ce_now c\<rparr>] else [])"
    using assms(10) eq entry rep'(2,4) run by (auto split: sum.splits)
qed

end
