(* ===== verification/HandlerOps.thy ===== *)
theory HandlerOps
  imports HandlersInv
begin

text \<open>
  Requests run concurrently: between two operations of one handler others can take effect. What
  another goroutine can observe of a handler are its single operations, so the goroutines of a server
  are sequences of these in any interleaving. Every handler is shown to be such a sequence, which
  gives at once what all handlers keep: the interface is a locale, with the operations' law assumed.
\<close>

section \<open>The operations of a running handler\<close>

text \<open>
  One method of \<open>system.go\<close>, one entry of the audit log, one call on the login limiter, or any work on
  the databases and files (what it leaves of them is open, but the map of open databases keeps one
  handle per name). Work on user databases does not change the system database.
\<close>

inductive handler_op :: "handler \<Rightarrow> handler \<Rightarrow> bool" where
  sql: "sysdb_step (a_db (hd_auth h)) s \<Longrightarrow> handler_op h (h\<lparr>hd_auth := (hd_auth h)\<lparr>a_db := s\<rparr>\<rparr>)"
| entry: "handler_op h (snd (with_sysdb (LogAudit u n ip q ep st) h))"
| logins: "handler_op h (h\<lparr>hd_auth := (hd_auth h)\<lparr>a_limiter := l\<rparr>\<rparr>)"
| files: "manager_ok (ex_manager ex) \<Longrightarrow> handler_op h (h\<lparr>hd_executor := ex, hd_os := s\<rparr>)"

abbreviation handler_ops :: "handler \<Rightarrow> handler \<Rightarrow> bool" where
  "handler_ops \<equiv> handler_op\<^sup>*\<^sup>*"

lemma handler_op_ok: "handler_op h h' \<Longrightarrow> handler_ok e h \<Longrightarrow> handler_ok e h'"
proof (induction rule: handler_op.induct)
  case (sql h s)
  then show ?case using sysdb_step_ok [OF sql.hyps] by (auto simp: handler_ok_def auth_ok_def auth_wired_def)
next
  case (entry h u n ip q ep st)
  then show ?case by (rule with_sysdb_ok) (rule LogAudit_ok)
qed (auto simp: handler_ok_def auth_ok_def auth_wired_def)

lemma handler_ops_ok: "handler_ops h h' \<Longrightarrow> handler_ok e h \<Longrightarrow> handler_ok e h'"
  by (induction rule: rtranclp_induct) (auto intro: handler_op_ok)

lemma methods_are_ops:
  "sysdb_steps (a_db (hd_auth h)) s \<Longrightarrow> handler_ops h (h\<lparr>hd_auth := (hd_auth h)\<lparr>a_db := s\<rparr>\<rparr>)"
proof (induction rule: rtranclp_induct)
  case (step s t)
  have "handler_op (h\<lparr>hd_auth := (hd_auth h)\<lparr>a_db := s\<rparr>\<rparr>) (h\<lparr>hd_auth := (hd_auth h)\<lparr>a_db := t\<rparr>\<rparr>)"
    using handler_op.sql [of "h\<lparr>hd_auth := (hd_auth h)\<lparr>a_db := s\<rparr>\<rparr>" t] step.hyps(2) by simp
  with step.IH show ?case by (rule rtranclp.rtrancl_into_rtrancl)
qed simp

text \<open>An operation of the authenticator: methods, then what it did to the login limiter.\<close>

lemma auth_step_is_ops:
  assumes "handler_ok e h" and "auth_step e (hd_auth h) a"
  shows "handler_ops h (h\<lparr>hd_auth := a\<rparr>)"
proof -
  have "sysdb_steps (a_db (hd_auth h)) (a_db a)"
    using assms auth_step_db by (simp add: handler_ok_def auth_ok_def)
  from methods_are_ops [OF this]
  have "handler_ops h (h\<lparr>hd_auth := (hd_auth h)\<lparr>a_db := a_db a\<rparr>\<rparr>)" .
  moreover have "a = (hd_auth h)\<lparr>a_db := a_db a, a_limiter := a_limiter a\<rparr>"
    using auth_step_wired [OF assms(2)] by simp
  then have "handler_op (h\<lparr>hd_auth := (hd_auth h)\<lparr>a_db := a_db a\<rparr>\<rparr>) (h\<lparr>hd_auth := a\<rparr>)"
    using handler_op.logins [of "h\<lparr>hd_auth := (hd_auth h)\<lparr>a_db := a_db a\<rparr>\<rparr>" "a_limiter a"] by simp
  ultimately show ?thesis by (rule rtranclp.rtrancl_into_rtrancl)
qed

section \<open>What every operation keeps\<close>

locale kept_by_ops =
  fixes H :: "handler \<Rightarrow> bool"
  assumes op_keeps: "handler_op h h' \<Longrightarrow> H h \<Longrightarrow> H h'"
begin

definition holds :: "auth_env \<Rightarrow> handler \<Rightarrow> bool" where
  "holds e h \<longleftrightarrow> handler_ok e h \<and> H h"

lemma ops_keep: "handler_ops h h' \<Longrightarrow> H h \<Longrightarrow> H h'"
  by (induction rule: rtranclp_induct) (auto intro: op_keeps)

lemma ops_hold: "handler_ops h h' \<Longrightarrow> holds e h \<Longrightarrow> holds e h'"
  using ops_keep handler_ops_ok by (auto simp: holds_def)

lemma with_auth_holds:
  assumes "holds e h" and "auth_step e (hd_auth h) (snd (f (hd_auth h)))"
  shows "holds e (snd (with_auth f h))"
proof -
  have "handler_ops h (h\<lparr>hd_auth := snd (f (hd_auth h))\<rparr>)"
    using assms by (intro auth_step_is_ops) (simp_all add: holds_def)
  from ops_hold [OF this assms(1)] show ?thesis by (simp add: with_auth_def case_prod_beta)
qed

lemma with_sysdb_holds:
  assumes "holds e h" and "sysdb_steps (a_db (hd_auth h)) (snd (f (a_db (hd_auth h))))"
  shows "holds e (snd (with_sysdb f h))"
  using ops_hold [OF methods_are_ops [OF assms(2)] assms(1)]
  by (simp add: with_sysdb_def with_auth_def case_prod_beta)

lemma files_hold: "holds e h \<Longrightarrow> manager_ok (ex_manager ex) \<Longrightarrow> holds e (h\<lparr>hd_executor := ex, hd_os := s\<rparr>)"
  by (rule ops_hold [OF r_into_rtranclp]) (rule handler_op.files)

lemma with_dbs_holds:
  "holds e h \<Longrightarrow> (\<And>m s. manager_ok m \<Longrightarrow> manager_ok (fst (snd (f m s)))) \<Longrightarrow> holds e (snd (with_dbs f h))"
  using files_hold [of e h] by (simp add: holds_def handler_ok_def with_dbs_def case_prod_beta)

lemma with_executor_holds:
  "holds e h \<Longrightarrow> (\<And>ex s. manager_ok (ex_manager ex) \<Longrightarrow> manager_ok (ex_manager (fst (snd (f ex s))))) \<Longrightarrow>
     holds e (snd (with_executor f h))"
  using files_hold [of e h] by (simp add: holds_def handler_ok_def with_executor_def case_prod_beta)

lemma with_os_holds: "holds e h \<Longrightarrow> holds e (snd (with_os f h))"
  using files_hold [of e h "hd_executor h"] by (simp add: holds_def handler_ok_def with_os_def case_prod_beta)

lemma logAudit_holds: "holds e h \<Longrightarrow> holds e (snd (logAudit u rq q ep st h))"
  unfolding logAudit_def Let_def by (rule ops_hold [OF r_into_rtranclp]) (rule handler_op.entry)

lemma log_respond_holds: "holds e h \<Longrightarrow> holds e (snd (log_respond u rq q ep st r h))"
  using logAudit_holds by (simp add: log_respond_def case_prod_beta split: sum.split)

lemma replicate_holds: "holds e h \<Longrightarrow> holds e (snd (replicate_query c u rq ep n q h))"
  by (simp add: replicate_query_def case_prod_beta logAudit_holds with_sysdb_holds method_steps split: sum.split)

lemma replicate_all_holds: "holds e h \<Longrightarrow> holds e (snd (replicate_all c u rq n qs h))"
proof (induction qs arbitrary: h)
  case (Cons q0 qs)
  then show ?case
    by (simp add: Let_def case_prod_beta replicate_holds split: sum.split)
qed simp

lemmas holds_rules =
  with_auth_holds with_sysdb_holds with_dbs_holds with_executor_holds with_os_holds
  log_respond_holds logAudit_holds replicate_holds replicate_all_holds ExecuteContext_ok
  ExecuteTransactionContext_ok CreateBackup_ok RestoreBackup_ok auth_step.intros method_steps read_steps

lemma statement_handlers:
  assumes "holds e h"
  shows "holds e (snd (HandleQuery c rq b h))" and "holds e (snd (HandleTransaction c rq b h))"
  using assms
  by (simp_all add: HandleQuery_def HandleTransaction_def Let_def case_prod_beta holds_rules
      split: option.split sum.split)

lemma auth_handlers:
  assumes "holds (ce_auth c) h"
  shows "holds (ce_auth c) (snd (HandleChangePassword c rq b h))"
    and "holds (ce_auth c) (snd (HandleLogin c rq b h))"
    and "holds (ce_auth c) (snd (HandleCreateUser c rq b h))"
    and "holds (ce_auth c) (snd (HandleUpdateUserRole c rq b h))"
    and "holds (ce_auth c) (snd (HandleUpdateUsername c rq b h))"
    and "holds (ce_auth c) (snd (HandleUpdateUserPassword c rq b h))"
    and "holds (ce_auth c) (snd (HandleDeleteUser c rq b h))"
    and "holds (ce_auth c) (snd (HandleRevealAPIKey c rq b h))"
    and "known_user (rq_user rq) h \<Longrightarrow> holds (ce_auth c) (snd (HandleCreateAPIKey c rq b h))"
  using assms
  by (simp_all add: HandleChangePassword_def HandleLogin_def HandleCreateUser_def on_user_def
      HandleUpdateUserRole_def HandleUpdateUsername_def HandleUpdateUserPassword_def
      HandleDeleteUser_def HandleRevealAPIKey_def HandleCreateAPIKey_def Let_def case_prod_beta
      holds_rules known_user_def split: option.split sum.split)

lemma db_handlers:
  assumes "holds e h"
  shows "holds e (snd (HandleListUsers c rq b h))"
    and "holds e (snd (HandleListAPIKeys c rq b h))"
    and "holds e (snd (HandleDeleteAPIKey c rq b h))"
    and "holds e (snd (HandleAuditLogs c rq b h))"
    and "holds e (snd (HandleReplicationLog c rq b h))"
  using assms
  by (simp_all add: HandleListUsers_def HandleListAPIKeys_def HandleDeleteAPIKey_def
      HandleAuditLogs_def HandleReplicationLog_def ListUsers_def ListAPIKeys_def GetAuditLogs_def
      GetReplicationLog_def Let_def case_prod_beta holds_rules split: option.split sum.split)

lemma nothing_steps: "sysdb_steps s (snd (exec (\<lambda>s. s) s))"
proof (cases "db_faults s")
  case (Cons x fs)
  then have "snd (exec (\<lambda>s. s) s) = s\<lparr>db_faults := drop 1 (db_faults s)\<rparr>"
    by (cases x) (simp_all add: exec_def stmt_def)
  then show ?thesis using sysdb_step.query [of s 1] by auto
qed (simp add: exec_def stmt_def)

lemma Health: "holds e h \<Longrightarrow> holds e (snd (HandleHealth c rq b h))"
  by (simp add: HandleHealth_def case_prod_beta with_sysdb_holds nothing_steps split: sum.split)

lemma stats_hold: "holds e h \<Longrightarrow> holds e (snd (monitor_stats h))"
  using files_hold [of e h "hd_executor h"]
  by (simp add: holds_def handler_ok_def monitor_stats_def case_prod_beta split: option.splits)

lemma file_handlers:
  assumes "holds e h"
  shows "holds e (snd (HandleBackup c rq b h))"
    and "holds e (snd (HandleRestore c rq b h))"
    and "holds e (snd (HandleDeleteBackup c rq b h))"
    and "holds e (snd (HandleListBackups c rq b h))"
    and "holds e (snd (HandleStats c rq b h))"
    and "holds e (snd (HandlePrometheus c rq b h))"
    and "holds e (snd (HandleCreateDatabase c rq b h))"
    and "holds e (snd (HandleListDatabases c rq b h))"
  using assms
  by (simp_all add: HandleBackup_def HandleRestore_def HandleDeleteBackup_def HandleListBackups_def
      HandleStats_def HandlePrometheus_def HandleCreateDatabase_def HandleListDatabases_def Let_def
      case_prod_beta holds_rules Open_ok stats_hold split: option.split sum.split)

end

text \<open>
  Every handler is a sequence of operations: being reached by operations from a given start is itself
  kept by all of them.
\<close>

interpretation reached: kept_by_ops "handler_ops h0" for h0
  by unfold_locales (rule rtranclp.rtrancl_into_rtrancl)

end
