(* ===== verification/ServerInv.thy ===== *)
theory ServerInv
  imports Server HandlerOps
begin

text \<open>
  The server as a whole: its invariant over all requests and background work, the totality of the
  pipeline, what is refused without credentials, and the rate limit as the pipeline applies it.
\<close>

section \<open>The invariant of the server\<close>

definition server_ok :: "auth_env \<Rightarrow> server \<Rightarrow> bool" where
  "server_ok e sv \<longleftrightarrow> handler_ok e (sv_handler sv)"

definition keeps :: "serve \<Rightarrow> bool" where
  "keeps f \<longleftrightarrow> (\<forall>c rq b sv. server_ok (ce_auth c) sv \<longrightarrow> known_user (rq_user rq) (sv_handler sv) \<longrightarrow>
     server_ok (ce_auth c) (snd (f c rq b sv)))"

lemma keeps_plain:
  "(\<And>c rq b h. handler_ok (ce_auth c) h \<Longrightarrow> known_user (rq_user rq) h \<Longrightarrow>
      handler_ok (ce_auth c) (snd (f c rq b h))) \<Longrightarrow> keeps (plain f)"
  by (simp add: keeps_def plain_def on_handler_def server_ok_def case_prod_beta)

lemma keeps_shutdown: "keeps HandleShutdown"
  by (simp add: keeps_def HandleShutdown_def server_ok_def)

lemma routes_keep: "(m, pat, g, f) \<in> set routes \<Longrightarrow> keeps f"
  unfolding routes_def
  by (auto intro: keeps_plain keeps_shutdown HandleQuery_ok HandleTransaction_ok auth_handlers_ok
      db_handlers_ok file_handlers_ok Health_ok)

text \<open>
  Who a request is from: an API key and a session lead to a stored user. A token names the user
  it was issued to; that it names one who was created is what unforgeable signatures give.
\<close>

definition tokens_known :: "call_env \<Rightarrow> server \<Rightarrow> bool" where
  "tokens_known c sv \<longleftrightarrow> (\<forall>tok cl.
     JWT_Validate (en_crypto (ce_auth c)) (a_jwt (hd_auth (sv_handler sv))) (ce_now c) tok = Inr cl \<longrightarrow>
     cl_user_id cl \<le> t_seq (db_users (a_db (hd_auth (sv_handler sv)))))"

lemma stored_id_le: "sysdb_ok s \<Longrightarrow> i \<in> ids_of u_id (db_users s) \<Longrightarrow> i \<le> t_seq (db_users s)"
  by (auto simp: sysdb_ok_def tbl_ok_def ids_of_def)

lemma authenticated_known:
  assumes "AuthenticateRequest e now hs a = (Inr au, a')" and "auth_ok e a"
    and "\<forall>tok cl. JWT_Validate (en_crypto e) (a_jwt a) now tok = Inr cl \<longrightarrow>
           cl_user_id cl \<le> t_seq (db_users (a_db a))"
  shows "AU_ID au \<le> t_seq (db_users (a_db a))"
proof (cases "AU_AuthType au = AuthTypeJWT")
  case False
  then have "AU_ID au \<in> ids_of u_id (db_users (a_db a))"
    using assms(1,2) by (intro authenticated_is_stored) (auto simp: auth_ok_def)
  then show ?thesis using assms(2) stored_id_le by (auto simp: auth_ok_def)
next
  case True
  have "\<exists>tok. authenticateJWT e now tok a = (Inr au, a')"
    using assms(1) True
    by (auto simp: AuthenticateRequest_def Let_def authenticateAPIKey_def authenticateSession_def
        auth_user_def split: if_splits list.splits prod.splits sum.splits)
  then obtain tok where tok: "authenticateJWT e now tok a = (Inr au, a')" ..
  then obtain cl where cl: "JWT_Validate (en_crypto e) (a_jwt a) now tok = Inr cl" "AU_ID au = cl_user_id cl"
    by (auto simp: authenticateJWT_def split: sum.splits)
  then show ?thesis using assms(3) by simp
qed

lemma seq_after_authenticate:
  assumes "auth_ok e a"
  shows "t_seq (db_users (a_db a)) \<le> t_seq (db_users (a_db (snd (AuthenticateRequest e now hs a))))"
proof -
  have "sysdb_steps (a_db a) (a_db (snd (AuthenticateRequest e now hs a)))"
    using assms auth_step_db [OF auth_step.authenticate] by (simp add: auth_ok_def)
  then show ?thesis using user_ids.steps_last assms by (simp add: auth_ok_def)
qed

definition auth_of :: "call_env \<Rightarrow> request \<Rightarrow> server \<Rightarrow> AuthUser res \<times> server" where
  "auth_of c rq = on_handler (with_auth (AuthenticateRequest (ce_auth c) (ce_now c) (rq_headers rq)))"

lemma auth_of_ok: "server_ok (ce_auth c) sv \<Longrightarrow> server_ok (ce_auth c) (snd (auth_of c rq sv))"
  by (simp add: auth_of_def on_handler_def server_ok_def case_prod_beta with_auth_ok auth_ops_ok)

lemma auth_of_known:
  assumes "server_ok (ce_auth c) sv" and "tokens_known c sv" and "auth_of c rq sv = (Inr user, sv1)"
  shows "known_user (Some user) (sv_handler sv1)"
proof -
  let ?a = "hd_auth (sv_handler sv)"
  obtain a' where a': "AuthenticateRequest (ce_auth c) (ce_now c) (rq_headers rq) ?a = (Inr user, a')"
    "hd_auth (sv_handler sv1) = a'"
    using assms(3) by (auto simp: auth_of_def on_handler_def with_auth_def split: prod.splits)
  have ok: "auth_ok (ce_auth c) ?a" using assms(1) by (simp add: server_ok_def handler_ok_def)
  have "AU_ID user \<le> t_seq (db_users (a_db ?a))"
    using authenticated_known [OF a'(1) ok] assms(2) by (simp add: tokens_known_def)
  moreover have "t_seq (db_users (a_db ?a)) \<le> t_seq (db_users (a_db a'))"
    using seq_after_authenticate [OF ok, of "ce_now c" "rq_headers rq"] a'(1) by simp
  ultimately show ?thesis using a'(2) by (simp add: known_user_def)
qed

lemma guarded_ok:
  assumes "keeps f" and "server_ok (ce_auth c) sv" and "tokens_known c sv" and "rq_user rq = None"
  shows "server_ok (ce_auth c) (snd (guarded g f c rq b sv))"
proof -
  obtain r sv1 where x: "auth_of c rq sv = (r, sv1)" by fastforce
  have ok: "server_ok (ce_auth c) sv1" using auth_of_ok [OF assms(2), of rq] x by simp
  have none: "server_ok (ce_auth c) (snd (f c rq b sv1))"
    using assms(1,4) ok by (simp add: keeps_def known_user_def)
  have some: "server_ok (ce_auth c) (snd (f c (rq\<lparr>rq_user := Some u\<rparr>) b sv1))" if "r = Inr u" for u
    using assms(1) ok auth_of_known [OF assms(2,3), of rq u sv1] x that by (simp add: keeps_def)
  show ?thesis
    using x ok none some
    by (auto simp: guarded_def authMiddleware_def optionalAuthMiddleware_def auth_of_def
        split: guard.split sum.split)
qed

lemma find_route_in:
  "find_route rts m segs = Some (g, f, vals) \<Longrightarrow>
     \<exists>pm pat. (pm, pat, g, f) \<in> set rts \<and> method_matches pm m \<and> match_segs pat segs (\<lambda>_. []) = Some vals"
proof (induction rts)
  case (Cons r rts)
  obtain pm pat g' f' where r: "r = (pm, pat, g', f')" by (cases r)
  show ?case
  proof (cases "method_matches pm m \<and> match_segs pat segs (\<lambda>_. []) \<noteq> None")
    case True
    with Cons.prems r have "g' = g" "f' = f" "match_segs pat segs (\<lambda>_. []) = Some vals" by auto
    with True r show ?thesis by auto
  next
    case False
    with Cons.prems r have "find_route rts m segs = Some (g, f, vals)" by (auto split: if_splits)
    from Cons.IH [OF this] r show ?thesis by auto
  qed
qed simp

lemma tokens_known_limiters [simp]:
  "tokens_known c (sv\<lparr>sv_ipLimiter := l\<rparr>) = tokens_known c sv"
  "tokens_known c (sv\<lparr>sv_userLimiter := l\<rparr>) = tokens_known c sv"
  "server_ok e (sv\<lparr>sv_ipLimiter := l\<rparr>) = server_ok e sv"
  "server_ok e (sv\<lparr>sv_userLimiter := l\<rparr>) = server_ok e sv"
  by (simp_all add: tokens_known_def server_ok_def)

lemma mux_ok:
  assumes "server_ok (ce_auth c) sv" and "tokens_known c sv" and "incoming rq"
  shows "server_ok (ce_auth c) (snd (mux static c rq b sv))"
proof (cases "find_route routes (rq_method rq) (path_segs (rq_path rq))")
  case None
  then show ?thesis using assms(1) by (simp add: mux_def Let_def web_handler_def split: option.split)
next
  case (Some x)
  obtain g f vals where x: "x = (g, f, vals)" by (cases x)
  have "keeps f" using find_route_in Some x routes_keep by metis
  then show ?thesis
    using assms Some x by (simp add: mux_def Let_def guarded_ok incoming_def)
qed

lemma pipeline_ok:
  assumes "server_ok (ce_auth c) sv" and "tokens_known c sv" and "incoming rq"
  shows "server_ok (ce_auth c) (snd (pipeline static c rq b sv))"
  using assms
  by (simp add: pipeline_def rateLimitMiddleware_def corsMiddleware_def bodyLimitMiddleware_def
      recoveryMiddleware_def loggingMiddleware_def Let_def case_prod_beta mux_ok split: sum.split)

text \<open>
  All that happens to a server: requests, served without interruption or operation by operation while
  others run (rule \<open>operation\<close>; \<open>HandlerFrame\<close> shows that every request is a sequence of operations), the
  audit worker, backups, replication, shutdown.
\<close>

definition replica_of :: "handler \<Rightarrow> int \<Rightarrow> replica" where
  "replica_of h lastID = \<lparr>re_lastID = lastID, re_executor = hd_executor h, re_os = hd_os h,
     re_db = a_db (hd_auth h)\<rparr>"

definition after_poll :: "run_env \<Rightarrow> repl_engine \<Rightarrow> network list \<Rightarrow> int \<Rightarrow> handler \<Rightarrow> handler" where
  "after_poll rn e nets lastID h =
     (let r = pollOnce rn e nets (replica_of h lastID)
      in h\<lparr>hd_executor := re_executor r, hd_os := re_os r, hd_auth := (hd_auth h)\<lparr>a_db := re_db r\<rparr>\<rparr>)"

text \<open>
  The model keeps the system database apart from the files that statements reach. In the program it
  is the file \<open>sparkdb_system.db\<close> of the same data directory, which a request can name as its
  database (see the findings). The runs considered are those in which nobody does: no request and
  no replicated statement names a path that begins with that of the system database, and none has
  the word \<open>ATTACH\<close>, by which SQLite opens a second file.
\<close>

definition spares_system :: "string \<Rightarrow> string \<Rightarrow> bool" where
  "spares_system dir name \<longleftrightarrow>
     name = [] \<or> \<not> prefix (path_clean (dir @ ''/sparkdb_system.db'')) (path_clean (dir @ ''/'' @ name))"

definition no_attach :: "string \<Rightarrow> bool" where
  "no_attach q \<longleftrightarrow> \<not> contains (to_upper q) ''ATTACH''"

definition spares_body :: "string \<Rightarrow> body \<Rightarrow> bool" where
  "spares_body dir b \<longleftrightarrow>
     spares_system dir (b_str b ''database'') \<and> spares_system dir (b_str b ''name'') \<and>
     list_all no_attach (b_str b ''query'' # b_list b ''queries'')"

definition spares_net :: "string \<Rightarrow> network \<Rightarrow> bool" where
  "spares_net dir net \<longleftrightarrow> (\<forall>url key es. net url key = Body (Some es) \<longrightarrow>
     list_all (\<lambda>x. spares_system dir (re_database x) \<and> no_attach (re_query x)) es)"

definition data_dir :: "server \<Rightarrow> string" where
  "data_dir sv = m_dataDir (ex_manager (hd_executor (sv_handler sv)))"

inductive server_step :: "auth_env \<Rightarrow> server \<Rightarrow> server \<Rightarrow> bool" for e where
  request: "ce_auth c = e \<Longrightarrow> tokens_known c sv \<Longrightarrow> incoming rq \<Longrightarrow> spares_body (data_dir sv) b \<Longrightarrow>
     server_step e sv (snd (pipeline static c rq b sv))"
| operation: "handler_op (sv_handler sv) h \<Longrightarrow> server_step e sv (sv\<lparr>sv_handler := h\<rparr>)"
| audit: "audit_work now (a_db (hd_auth (sv_handler sv))) = Some db \<Longrightarrow>
     server_step e sv (sv\<lparr>sv_handler := (sv_handler sv)\<lparr>hd_auth := (hd_auth (sv_handler sv))\<lparr>a_db := db\<rparr>\<rparr>\<rparr>)"
| backup: "server_step e sv (sv\<lparr>sv_handler := snd (with_dbs (\<lambda>m s.
     case backup_tick d now ts keep (hd_backup (sv_handler sv)) m s of (m', s') \<Rightarrow> ((), m', s'))
     (sv_handler sv))\<rparr>)"
| poll: "list_all (spares_net (data_dir sv)) nets \<Longrightarrow>
     server_step e sv (sv\<lparr>sv_handler := after_poll rn eng nets lastID (sv_handler sv)\<rparr>)"
| shutdown: "sv_stopping sv \<Longrightarrow> server_step e sv (sv\<lparr>sv_handler := snd (shutdown_work c (sv_handler sv))\<rparr>)"

lemma close_loop_ok: "manager_ok m \<Longrightarrow> manager_ok (fst (snd (close_loop d now hs le m s)))"
proof (induction hs arbitrary: le m s)
  case (Cons x hs)
  then show ?case by (cases x) (simp add: Let_def case_prod_beta drop_db_ok)
qed simp

lemma CloseAll_ok: "manager_ok m \<Longrightarrow> manager_ok (fst (snd (CloseAll d now m s)))"
  using close_loop_ok by (simp add: CloseAll_def case_prod_beta)

lemma applyEntry_ok:
  "manager_ok (ex_manager (re_executor r)) \<Longrightarrow> manager_ok (ex_manager (re_executor (snd (applyEntry rn x r))))"
  using ExecuteContext_ok by (simp add: applyEntry_def case_prod_beta split: sum.split)

lemma apply_entries_ok:
  "manager_ok (ex_manager (re_executor r)) \<Longrightarrow>
     manager_ok (ex_manager (re_executor (snd (apply_entries rn es r))))"
proof (induction es arbitrary: r)
  case (Cons x es)
  then show ?case using applyEntry_ok [OF Cons.prems, of rn x]
    by (auto simp: case_prod_beta split: sum.split)
qed simp

lemma pollOnce_ok:
  "sysdb_ok (re_db r) \<Longrightarrow> manager_ok (ex_manager (re_executor r)) \<Longrightarrow>
     sysdb_ok (re_db (pollOnce rn e nets r)) \<and> manager_ok (ex_manager (re_executor (pollOnce rn e nets r)))"
proof (induction nets arbitrary: r)
  case (Cons net nets)
  have step: "sysdb_ok (re_db (snd (apply_entries rn es r))) \<and>
      manager_ok (ex_manager (re_executor (snd (apply_entries rn es r))))" for es
    using Cons.prems apply_entries_ok by (simp add: apply_entries_db)
  show ?case
    using Cons step
    by (auto simp: Let_def case_prod_beta UpdateReplicationAppliedID_ok split: reply.split option.split bool.split)
qed simp

lemma server_step_ok: "server_step e sv sv' \<Longrightarrow> server_ok e sv \<Longrightarrow> server_ok e sv'"
proof (induction rule: server_step.induct)
  case (request c sv rq b static)
  then show ?case using pipeline_ok by blast
next
  case (operation sv h)
  then show ?case using handler_op_ok by (simp add: server_ok_def)
next
  case (audit now sv db)
  then show ?case by (auto simp: server_ok_def handler_ok_def auth_ok_def auth_wired_def intro: audit_work_ok)
next
  case (backup sv d now ts keep)
  have "handler_ok e (snd (with_dbs (\<lambda>m s.
     case backup_tick d now ts keep (hd_backup (sv_handler sv)) m s of (m', s') \<Rightarrow> ((), m', s'))
     (sv_handler sv)))"
    using backup unfolding server_ok_def
    by (rule with_dbs_ok) (simp add: backup_tick_def case_prod_beta CreateBackup_ok)
  then show ?case by (simp add: server_ok_def)
next
  case (poll sv nets rn eng lastID)
  then show ?case
    using pollOnce_ok [of "replica_of (sv_handler sv) lastID" rn eng nets]
    by (simp add: server_ok_def handler_ok_def auth_ok_def auth_wired_def after_poll_def replica_of_def Let_def)
next
  case (shutdown sv c)
  have "handler_ok e (snd (with_dbs (CloseAll (ce_db c) (ce_now c)) (sv_handler sv)))"
    using shutdown unfolding server_ok_def by (intro with_dbs_ok) (simp_all add: CloseAll_ok)
  then have "handler_ok e (snd (shutdown_work c (sv_handler sv)))"
    by (simp add: shutdown_work_def case_prod_beta with_sysdb_ok close_audit_def)
  then show ?case by (simp add: server_ok_def)
qed

lemma server_reach_ok: "(server_step e)\<^sup>*\<^sup>* sv sv' \<Longrightarrow> server_ok e sv \<Longrightarrow> server_ok e sv'"
  by (induction rule: rtranclp_induct) (auto intro: server_step_ok)

lemma New_ok:
  assumes "New c env tmp (Inr db) rnd cfg s = Inr sv" and "sysdb_ok db"
  shows "server_ok (ce_auth c) sv"
proof -
  obtain a where a: "NewAuthenticator (ce_auth c) rnd (server_auth_config cfg) db = Inr a"
    using assms(1) by (auto simp: New_def Let_def split: prod.splits sum.splits)
  obtain r a1 where a1: "EnsureDefaultAdmin (ce_auth c) (ce_rnd c) (ce_now c) a = (r, a1)" by fastforce
  have "auth_ok (ce_auth c) a"
    using NewAuthenticator_wired [OF a] assms(2) by (simp add: auth_ok_def)
  then have ok1: "auth_ok (ce_auth c) a1"
    using auth_ok_step [OF auth_step.default_admin] a1 by (metis snd_conv)
  have "sysdb_ok (snd (InitReplicationState (ce_now c) (cf_role cfg) (cf_primary_url cfg) (a_db a1)))"
    using ok1 by (intro InitReplicationState_ok) (simp add: auth_ok_def)
  moreover have "manager_ok (new_manager ci cfg tmp)" for ci
    by (simp add: new_manager_def split: option.split)
  ultimately show ?thesis
    using assms(1) a a1 ok1
    by (auto simp: New_def Let_def server_ok_def handler_ok_def NewExecutorWithMonitor_def auth_ok_def
        auth_wired_def split: prod.splits sum.splits)
qed

section \<open>The pipeline answers every request\<close>

lemma pipeline_total: "\<exists>r. fst (pipeline static c rq b sv) = Inr r"
  by (simp add: pipeline_def rateLimitMiddleware_def corsMiddleware_def bodyLimitMiddleware_def
      recoveryMiddleware_def too_many_requests_def add_headers_def Let_def case_prod_beta split: sum.split)

section \<open>Requests without credentials\<close>

lemma no_credentials:
  assumes "rq_headers rq ''X-API-Key'' = []" and "rq_headers rq ''Authorization'' = []"
  shows "auth_of c rq sv = (Inl (Err ''no authentication provided''), sv)"
  using assms
  by (simp add: auth_of_def on_handler_def with_auth_def AuthenticateRequest_def)

definition open_endpoints :: "(string \<times> string list) list" where
  "open_endpoints =
     [(''POST'', [''auth'', ''login'']), (''GET'', [''health'']), (''HEAD'', [''health'']),
      (''GET'', [''metrics'']), (''HEAD'', [''metrics''])]"

lemma match_lits:
  "match_segs (map Lit ps) xs vals \<noteq> None \<longleftrightarrow> xs = ps"
proof (induction ps arbitrary: xs)
  case Nil
  then show ?case by (cases xs) auto
next
  case (Cons p ps)
  then show ?case by (cases xs) auto
qed

lemma optional_routes:
  assumes "find_route routes m segs = Some (OptionalAuth, f, vals)"
  shows "(m, segs) \<in> set open_endpoints"
proof -
  obtain pm pat where r: "(pm, pat, OptionalAuth, f) \<in> set routes" "method_matches pm m"
    "match_segs pat segs (\<lambda>_. []) \<noteq> None"
    using find_route_in [OF assms] by auto
  from r(1) have "(pm, pat) \<in> {(''POST'', map Lit [''auth'', ''login'']), (''GET'', map Lit [''health'']),
      (''GET'', map Lit [''metrics''])}"
    by (auto simp: routes_def)
  then show ?thesis
    using r(2,3) by (elim insertE emptyE Pair_inject)
      (simp_all only: match_lits, auto simp: open_endpoints_def method_matches_def)
qed

text \<open>
  A request without credentials for anything but the open endpoints and the web pages is answered
  with 401 and changes nothing.
\<close>

lemma mux_unauthenticated:
  assumes "rq_headers rq ''X-API-Key'' = []" and "rq_headers rq ''Authorization'' = []"
    and "find_route routes (rq_method rq) (path_segs (rq_path rq)) \<noteq> None"
    and "(rq_method rq, path_segs (rq_path rq)) \<notin> set open_endpoints"
  shows "mux static c rq b sv = (Inr (write_error 401 ''no authentication provided''), sv)"
proof -
  obtain g f vals where r: "find_route routes (rq_method rq) (path_segs (rq_path rq)) = Some (g, f, vals)"
    using assms(3) by auto
  have g: "g = RequireAuth" using optional_routes r assms(4) by (cases g) blast+
  have "auth_of c (rq\<lparr>rq_pathval := vals\<rparr>) sv = (Inl (Err ''no authentication provided''), sv)"
    using assms(1,2) by (intro no_credentials) simp_all
  then show ?thesis
    using r g by (simp add: mux_def Let_def guarded_def authMiddleware_def auth_of_def fail_with_def)
qed

section \<open>The rate limit of the pipeline\<close>

text \<open>Whether both limits let a request pass; they are keyed by the remote address, since no user is known yet.\<close>

definition within_limits :: "call_env \<Rightarrow> request \<Rightarrow> server \<Rightarrow> bool" where
  "within_limits c rq sv \<longleftrightarrow>
     int (rl_used (ce_now c) (rq_remote rq) (sv_ipLimiter sv)) < rl_limit (sv_ipLimiter sv) \<and>
     int (rl_used (ce_now c) (rq_remote rq) (sv_userLimiter sv)) < rl_limit (sv_userLimiter sv)"

definition counted_once :: "call_env \<Rightarrow> request \<Rightarrow> server \<Rightarrow> server" where
  "counted_once c rq sv = sv
     \<lparr>sv_ipLimiter := snd (RateLimiter_Allow (ce_now c) (rq_remote rq) (sv_ipLimiter sv)),
      sv_userLimiter := snd (RateLimiter_Allow (ce_now c) (rq_remote rq) (sv_userLimiter sv))\<rparr>"

lemma pipeline_within:
  assumes "incoming rq" and "within_limits c rq sv"
  shows "pipeline static c rq b sv = corsMiddleware (sv_origins sv)
       (bodyLimitMiddleware max_body (recoveryMiddleware (loggingMiddleware (mux static)))) c rq b
       (counted_once c rq sv)"
  using assms Allow_iff_used [of "ce_now c" "rq_remote rq" "sv_ipLimiter sv"]
    Allow_iff_used [of "ce_now c" "rq_remote rq" "sv_userLimiter sv"]
  by (simp add: pipeline_def rateLimitMiddleware_def incoming_def within_limits_def counted_once_def
      Let_def case_prod_beta)

text \<open>Only the rate limiter's middleware touches the limiters.\<close>

definition same_limiters :: "server \<Rightarrow> server \<Rightarrow> bool" where
  "same_limiters sv sv' \<longleftrightarrow> sv_ipLimiter sv' = sv_ipLimiter sv \<and> sv_userLimiter sv' = sv_userLimiter sv"

lemma on_handler_limiters [simp]: "same_limiters sv (snd (on_handler f sv))"
  by (simp add: same_limiters_def on_handler_def case_prod_beta)

lemma same_limiters_trans: "same_limiters a b \<Longrightarrow> same_limiters b d \<Longrightarrow> same_limiters a d"
  by (simp add: same_limiters_def)

lemma routes_limiters:
  assumes "(pm, pat, g, f) \<in> set routes"
  shows "same_limiters sv (snd (f c rq b sv))"
proof -
  have plain: "same_limiters sv (snd (plain k c rq b sv))" for k by (simp add: plain_def)
  have "f = HandleShutdown \<or> (\<exists>k. f = plain k)" using assms by (auto simp: routes_def)
  then show ?thesis using plain by (auto simp: HandleShutdown_def same_limiters_def)
qed

lemma guarded_limiters:
  assumes "\<And>rq sv. same_limiters sv (snd (f c rq b sv))"
  shows "same_limiters sv (snd (guarded g f c rq b sv))"
proof -
  let ?a = "on_handler (with_auth (AuthenticateRequest (ce_auth c) (ce_now c) (rq_headers rq))) sv"
  have "same_limiters sv (snd ?a)" by simp
  then have "same_limiters sv (snd (f c rq' b (snd ?a)))" for rq'
    using assms same_limiters_trans by blast
  then show ?thesis
    by (cases g) (simp_all add: guarded_def authMiddleware_def optionalAuthMiddleware_def
        case_prod_beta split: sum.split)
qed

lemma mux_limiters: "same_limiters sv (snd (mux static c rq b sv))"
proof (cases "find_route routes (rq_method rq) (path_segs (rq_path rq))")
  case None
  then show ?thesis by (simp add: mux_def Let_def web_handler_def same_limiters_def split: option.split)
next
  case (Some x)
  obtain g f vals where x: "x = (g, f, vals)" by (cases x)
  obtain pm pat where "(pm, pat, g, f) \<in> set routes" using find_route_in Some x by blast
  then have "same_limiters sv (snd (guarded g f c (rq\<lparr>rq_pathval := vals\<rparr>) b sv))"
    by (intro guarded_limiters routes_limiters)
  then show ?thesis using Some x by (simp add: mux_def Let_def)
qed

lemma pipeline_limiters:
  assumes "incoming rq" and "within_limits c rq sv"
  shows "same_limiters (counted_once c rq sv) (snd (pipeline static c rq b sv))"
  using mux_limiters
  by (simp add: pipeline_within [OF assms] corsMiddleware_def bodyLimitMiddleware_def recoveryMiddleware_def
      loggingMiddleware_def Let_def case_prod_beta same_limiters_def split: sum.split)

text \<open>A call that is let through counts once more, one that is refused does not.\<close>

lemma used_after:
  "0 < rl_window r \<Longrightarrow> rl_used now k (snd (RateLimiter_Allow now k r)) =
     (if int (rl_used now k r) < rl_limit r then Suc (rl_used now k r) else rl_used now k r)"
  using Allow_iff_used [of now k r] by (simp add: rl_used_def Allow_entries)

lemma pipeline_over:
  assumes "incoming rq" and "\<not> within_limits c rq sv"
    and "0 < rl_window (sv_ipLimiter sv)" and "0 < rl_window (sv_userLimiter sv)"
  shows "fst (pipeline static c rq b sv) = too_many_requests \<and>
    sv_handler (snd (pipeline static c rq b sv)) = sv_handler sv \<and>
    sv_stopping (snd (pipeline static c rq b sv)) = sv_stopping sv \<and>
    rl_used (ce_now c) (rq_remote rq) (sv_ipLimiter (snd (pipeline static c rq b sv))) =
      (if int (rl_used (ce_now c) (rq_remote rq) (sv_ipLimiter sv)) < rl_limit (sv_ipLimiter sv)
       then Suc (rl_used (ce_now c) (rq_remote rq) (sv_ipLimiter sv))
       else rl_used (ce_now c) (rq_remote rq) (sv_ipLimiter sv)) \<and>
    rl_used (ce_now c) (rq_remote rq) (sv_userLimiter (snd (pipeline static c rq b sv))) =
      rl_used (ce_now c) (rq_remote rq) (sv_userLimiter sv)"
  using assms used_after [OF assms(3), of "ce_now c" "rq_remote rq"] used_after [OF assms(4), of "ce_now c" "rq_remote rq"]
    Allow_iff_used [of "ce_now c" "rq_remote rq" "sv_ipLimiter sv"]
    Allow_iff_used [of "ce_now c" "rq_remote rq" "sv_userLimiter sv"]
  by (auto simp: pipeline_def rateLimitMiddleware_def incoming_def within_limits_def Let_def case_prod_beta)

section \<open>The whole pipeline without credentials\<close>

definition unauthenticated_answer :: "(string \<Rightarrow> string option) \<Rightarrow> call_env \<Rightarrow> request \<Rightarrow> server \<Rightarrow> response res" where
  "unauthenticated_answer static c rq sv =
     (if \<not> within_limits c rq sv then too_many_requests
      else let hs = cors_headers (allow_origin (sv_origins sv) (rq_headers rq ''Origin'')) in
      if rq_method rq = ''OPTIONS'' then Inr \<lparr>rs_status = 204, rs_payload = NoContent, rs_headers = hs\<rparr>
      else add_headers hs
        (if find_route routes (rq_method rq) (path_segs (rq_path rq)) \<noteq> None
         then Inr (write_error 401 ''no authentication provided'')
         else if rq_method rq = ''GET'' \<or> rq_method rq = ''HEAD''
         then (case web_file static (rq_path rq) of
             None \<Rightarrow> Inr \<lparr>rs_status = 404, rs_payload = MuxError ''not found'', rs_headers = []\<rparr>
           | Some (p, data) \<Rightarrow> Inr \<lparr>rs_status = 200, rs_payload = WebFile p data,
               rs_headers = [(''Content-Type'', content_type p),
                             (''Cache-Control'', ''no-cache, must-revalidate'')]\<rparr>)
         else Inr \<lparr>rs_status = 405, rs_payload = MuxError ''Method Not Allowed'', rs_headers = []\<rparr>))"

lemma options_no_route: "find_route routes ''OPTIONS'' segs = None"
  by (simp add: routes_def method_matches_def)

lemma pipeline_unauthenticated:
  assumes "incoming rq" and "rq_headers rq ''X-API-Key'' = []" and "rq_headers rq ''Authorization'' = []"
    and "(rq_method rq, path_segs (rq_path rq)) \<notin> set open_endpoints"
    and "0 < rl_window (sv_ipLimiter sv)" and "0 < rl_window (sv_userLimiter sv)"
  shows "fst (pipeline static c rq b sv) = unauthenticated_answer static c rq sv \<and>
    sv_handler (snd (pipeline static c rq b sv)) = sv_handler sv \<and>
    sv_stopping (snd (pipeline static c rq b sv)) = sv_stopping sv"
proof (cases "within_limits c rq sv")
  case False
  then show ?thesis using pipeline_over [OF assms(1) False assms(5,6)] by (simp add: unauthenticated_answer_def)
next
  case True
  show ?thesis
  proof (cases "find_route routes (rq_method rq) (path_segs (rq_path rq)) = None")
    case None: True
    then show ?thesis
      using True by (auto simp: pipeline_within [OF assms(1) True] unauthenticated_answer_def corsMiddleware_def
          bodyLimitMiddleware_def recoveryMiddleware_def loggingMiddleware_def mux_def web_handler_def
          method_matches_def counted_once_def Let_def split: option.split)
  next
    case False
    then have "rq_method rq \<noteq> ''OPTIONS''" using options_no_route by metis
    then show ?thesis
      using True False mux_unauthenticated [OF assms(2,3) False assms(4)]
      by (simp add: pipeline_within [OF assms(1) True] unauthenticated_answer_def corsMiddleware_def
          bodyLimitMiddleware_def recoveryMiddleware_def loggingMiddleware_def counted_once_def Let_def)
  qed
qed

section \<open>CORS\<close>

lemma allow_origin_allowed:
  "allow_origin allowed origin = ''*'' \<or> allow_origin allowed origin \<in> set allowed"
  by (cases allowed) (auto simp: allow_origin_def Let_def)

lemma allow_origin_match:
  "allowed \<noteq> [] \<Longrightarrow> hd allowed \<noteq> ''*'' \<Longrightarrow> origin \<in> set allowed \<Longrightarrow> origin \<noteq> [] \<Longrightarrow>
     allow_origin allowed origin = origin"
  by (cases allowed) (auto simp: allow_origin_def Let_def)

end
