(* ===== verification/ReplicationLink.thy ===== *)
theory ReplicationLink
  imports ServerInv
begin

text \<open>
  A replica polling a primary that is this server: the URL that \<open>pollOnce\<close> builds, the request it
  makes, the route, authentication and handler that answer it, and the reply as the replica
  decodes it. So the assumption of \<open>Replication\<close> on the network is proved of the primary.
\<close>

section \<open>The request of a replica\<close>

text \<open>\<open>URL.Query().Get\<close> on a URL without escapes: the first value of a key, empty without one.\<close>

definition url_query :: "string \<Rightarrow> string \<Rightarrow> string" where
  "url_query url key =
     (let pairs = map (\<lambda>p. (takeWhile (\<lambda>c. c \<noteq> CHR ''='') p, drop 1 (dropWhile (\<lambda>c. c \<noteq> CHR ''='') p)))
                    (split_on CHR ''&'' (drop 1 (dropWhile (\<lambda>c. c \<noteq> CHR ''?'') url)))
      in case map_of pairs key of None \<Rightarrow> [] | Some v \<Rightarrow> v)"

text \<open>The request with the header \<open>X-API-Key\<close>, as it arrives at the primary.\<close>

definition log_request :: "string \<Rightarrow> string \<Rightarrow> request" where
  "log_request url key =
     \<lparr>rq_method = ''GET'', rq_path = ''/replication/log'',
      rq_headers = (\<lambda>_. [])(''X-API-Key'' := key), rq_remote = [], rq_pathval = (\<lambda>_. []),
      rq_query = url_query url, rq_user = None\<rparr>"

definition no_body :: body where
  "no_body = \<lparr>b_ok = False, b_str = (\<lambda>_. []), b_list = (\<lambda>_. []), b_params = [], b_size = 0\<rparr>"

text \<open>The primary as the network of a replica.\<close>

definition primary :: "(string \<Rightarrow> string option) \<Rightarrow> call_env \<Rightarrow> server \<Rightarrow> network" where
  "primary static c sv url key =
     (case fst (mux static c (log_request url key) no_body sv) of
        Inl _ \<Rightarrow> NetError
      | Inr resp \<Rightarrow>
          if rs_status resp \<noteq> 200 then Status (rs_status resp)
          else Body (case rs_payload resp of ReplicationLogResponse es \<Rightarrow> Some es | _ \<Rightarrow> None))"

section \<open>The primary serves its log\<close>

lemma before_equals:
  assumes "CHR ''='' \<notin> set k"
  shows "takeWhile (\<lambda>c. c \<noteq> CHR ''='') (k @ CHR ''='' # v) = k"
    and "dropWhile (\<lambda>c. c \<noteq> CHR ''='') (k @ CHR ''='' # v) = CHR ''='' # v"
  using assms by (induction k) auto

lemma dec_int_plain: "CHR ''&'' \<notin> set (dec_int n)"
  using dec_int_chars [of "CHR ''&''" n] by (auto simp: is_digit_def byte_def)

lemma log_url_query:
  assumes "CHR ''?'' \<notin> set (rp_primaryURL e)"
  shows "url_query (log_url e n) ''since'' = dec_int n"
    and "url_query (log_url e n) ''limit'' = ''500''"
proof -
  have "dropWhile (\<lambda>c. c \<noteq> CHR ''?'') (log_url e n) = ''?since='' @ dec_int n @ ''&limit=500''"
    using assms unfolding log_url_def by (subst dropWhile_append2) auto
  then have query: "drop 1 (dropWhile (\<lambda>c. c \<noteq> CHR ''?'') (log_url e n)) =
      (''since'' @ CHR ''='' # dec_int n) @ CHR ''&'' # ''limit=500''"
    by simp
  have "CHR ''&'' \<notin> set (''since'' @ CHR ''='' # dec_int n)" using dec_int_plain by simp
  then have parts: "split_on CHR ''&'' (drop 1 (dropWhile (\<lambda>c. c \<noteq> CHR ''?'') (log_url e n))) =
      [''since'' @ CHR ''='' # dec_int n, ''limit=500'']"
    unfolding query by (subst split_on_append) (simp_all add: split_on_no_sep)
  show "url_query (log_url e n) ''since'' = dec_int n"
    and "url_query (log_url e n) ''limit'' = ''500''"
    using before_equals [of "''since''" "dec_int n"] unfolding url_query_def parts by simp_all
qed

text \<open>
  When the key that the replica sends authenticates an administrator, the primary answers every
  poll with the page of its log that was asked for.
\<close>

lemma primary_serves:
  assumes "CHR ''?'' \<notin> set (rp_primaryURL e)"
    and "AuthenticateRequest (ce_auth c) (ce_now c) ((\<lambda>_. [])(''X-API-Key'' := rp_apiKey e))
           (hd_auth (sv_handler sv)) = (Inr u, hd_auth (sv_handler sv))"
    and "AU_Role u = RoleAdmin" and "db_faults (a_db (hd_auth (sv_handler sv))) = []"
  shows "serves e (t_rows (db_repl (a_db (hd_auth (sv_handler sv))))) (primary static c sv)"
  unfolding serves_def
proof (intro allI impI)
  fix n
  assume n: "int64 n"
  let ?rq = "log_request (log_url e n) (rp_apiKey e)"
  have segs: "path_segs ''/replication/log'' = [''replication'', ''log'']" by code_simp
  have route: "find_route routes ''GET'' [''replication'', ''log''] =
      Some (RequireAuth, plain HandleReplicationLog, \<lambda>_. [])"
    by (simp add: routes_def method_matches_def)
  have limit: "sscanf_int64 ''500'' = Some 500" by code_simp
  have ne: "dec_int n \<noteq> []" using dec_nat_nonempty by (simp add: dec_int_def)
  let ?page = "repl_page n 500 (t_rows (db_repl (a_db (hd_auth (sv_handler sv)))))"
  have "fst (HandleReplicationLog c (?rq\<lparr>rq_pathval := \<lambda>_. [], rq_user := Some u\<rparr>) no_body (sv_handler sv)) =
      Inr (writeJSON 200 (ReplicationLogResponse ?page))"
    using assms(3,4) n ne limit log_url_query [OF assms(1), of n]
    by (simp add: HandleReplicationLog_def log_request_def may_def sscanf_dec_int GetReplicationLog_def
        with_sysdb_def with_auth_def case_prod_beta)
  moreover have "fst (mux static c ?rq no_body sv) =
      fst (HandleReplicationLog c (?rq\<lparr>rq_pathval := \<lambda>_. [], rq_user := Some u\<rparr>) no_body (sv_handler sv))"
    using assms(2) segs route
    by (simp add: mux_def log_request_def guarded_def authMiddleware_def on_handler_def with_auth_def
        plain_def case_prod_beta)
  ultimately show "primary static c sv (log_url e n) (rp_apiKey e) = Body (Some ?page)"
    by (simp add: primary_def writeJSON_def)
qed

text \<open>So polling this primary applies, in order, everything its log holds beyond the position.\<close>

lemma replica_follows:
  fixes e c sv
  defines "l \<equiv> t_rows (db_repl (a_db (hd_auth (sv_handler sv))))"
  assumes "CHR ''?'' \<notin> set (rp_primaryURL e)"
    and "AuthenticateRequest (ce_auth c) (ce_now c) ((\<lambda>_. [])(''X-API-Key'' := rp_apiKey e))
           (hd_auth (sv_handler sv)) = (Inr u, hd_auth (sv_handler sv))"
    and "AU_Role u = RoleAdmin" and "db_faults (a_db (hd_auth (sv_handler sv))) = []"
    and "sysdb_ok (a_db (hd_auth (sv_handler sv)))"
    and "t_seq (db_repl (a_db (hd_auth (sv_handler sv)))) < 2 ^ 63"
    and "int64 (re_lastID r)" and "length (pending (re_lastID r) l) < 500 * n"
  shows "same_run (pollOnce rn e (replicate n (primary static c sv)) r)
           (snd (apply_entries rn (pending (re_lastID r) l) r))"
proof (rule pollOnce_all)
  have ok: "tbl_ok re_id (db_repl (a_db (hd_auth (sv_handler sv))))"
    using assms(6) by (simp add: sysdb_ok_def)
  show "sorted_wrt (<) (map re_id l)" using ok by (simp add: tbl_ok_def l_def)
  show "\<forall>x\<in>set l. int64 (re_id x)" using ok assms(7) by (fastforce simp: tbl_ok_def l_def int64_def)
  show "\<forall>net\<in>set (replicate n (primary static c sv)). serves e l net"
    using primary_serves [OF assms(2-5)] by (simp add: l_def)
qed (use assms in simp_all)

end
