(* ===== verification/BackupRestore.thy ===== *)
theory BackupRestore
  imports Backup
begin

text \<open>
  Backup and restore. A backup, here of a database without encryption, is the bytes of the database file
  after the checkpoint; a restore, in every mode, puts the bytes of the backup back and opens them.
\<close>

section \<open>Databases whose handle still has its name\<close>

definition plain_manager :: "manager \<Rightarrow> bool" where
  "plain_manager m \<longleftrightarrow> m_cipher m = None \<and> m_decDir m = [] \<and> \<not> m_walMode m \<and> manager_ok m"

definition linked :: "string \<Rightarrow> manager \<Rightarrow> os \<Rightarrow> bool" where
  "linked name m s \<longleftrightarrow>
     (\<forall>h. map_of (m_dbs m) name = Some h \<longrightarrow> find_file (resolvePath m name) s = Some (h_inode h))"

text \<open>
  The pragmas of a connection without WAL change settings of the connection, not the file: what
  SQLite documents of them.
\<close>

definition pragmas_keep :: "engine \<Rightarrow> bool" where
  "pragmas_keep eng \<longleftrightarrow> (\<forall>q se. q \<in> set (map fst (open_pragmas False)) \<longrightarrow>
     i_main (se_disk (snd (sq_exec eng q [] se))) = i_main (se_disk se))"

lemma on_handle_main:
  assumes "\<And>se. i_main (se_disk (snd (f se))) = i_main (se_disk se)" and "on_handle f h s = (r, h', s')"
  shows "content p s' = content p s"
proof -
  let ?se = "\<lparr>se_disk = os_data s (h_inode h), se_tx = h_tx h, se_log = h_log h\<rparr>"
  have s': "s' = s\<lparr>os_data := (os_data s)(h_inode h := se_disk (snd (f ?se)))\<rparr>"
    using assms(2) by (simp add: on_handle_def case_prod_beta)
  have same: "i_main (se_disk (snd (f ?se))) = i_main (os_data s (h_inode h))"
    by (simp add: assms(1))
  have "find_file p s' = find_file p s" by (simp add: s' find_file_def)
  with same show ?thesis by (cases "find_file p s") (simp_all add: content_def s')
qed

lemma run_pragmas_main:
  assumes "\<forall>q se. q \<in> set (map fst ps) \<longrightarrow> i_main (se_disk (snd (sq_exec eng q [] se))) = i_main (se_disk se)"
    and "run_pragmas eng ps h s = (r, h', s')"
  shows "content p s' = content p s"
  using assms
proof (induction eng ps h s rule: run_pragmas.induct)
  case (2 eng q msg ps h s)
  obtain r1 h1 s1 where x: "on_handle (sq_exec eng q []) h s = (r1, h1, s1)" by (metis prod_cases3)
  have "i_main (se_disk (snd (sq_exec eng q [] se))) = i_main (se_disk se)" for se
    using 2(2) by simp
  from on_handle_main [OF this x] have c: "content p s1 = content p s" .
  show ?case
  proof (cases r1)
    case (Inl e)
    with 2(3) x c show ?thesis by simp
  next
    case (Inr v)
    with 2 x c show ?thesis by auto
  qed
qed auto

lemma plain_Open:
  assumes "plain_manager m" and "os_faults s = []" and "os_ok s" and "pragmas_keep (de_engine d)"
    and "Open d now name m s = (Inr (), m', s')" and "linked name m s"
    and "content (resolvePath m name) s = Some x"
  shows "content p s' = content p s" and "linked name m' s'" and "plain_manager m'"
    and "os_faults s' = []" and "os_ok s'" and "is_dir p s' = is_dir p s"
    and "m_dataDir m' = m_dataDir m" and "map_of (m_dbs m') name \<noteq> None"
proof -
  have "content p s' = content p s \<and> linked name m' s' \<and> plain_manager m' \<and> os_faults s' = [] \<and> os_ok s' \<and>
    is_dir p s' = is_dir p s \<and> m_dataDir m' = m_dataDir m \<and> map_of (m_dbs m') name \<noteq> None"
  proof (cases "map_of (m_dbs m) name")
    case (Some h)
    with assms show ?thesis by (simp add: Open_def)
  next
    case None
    with assms have o: "open_at d now name (resolvePath m name) m s = (Inr (), m', s')"
      by (simp add: Open_def plain_manager_def)
    obtain h where h: "map_of (m_dbs m') name = Some h" "find_file (resolvePath m name) s' = Some (h_inode h)"
      "os_faults s' = []" "os_ok s'" "os_dirs s' = os_dirs s" "m' = m\<lparr>m_dbs := (name, h) # m_dbs m\<rparr>"
      using plain_open [OF assms(2,3) o] by blast
    obtain i where i: "find_file (resolvePath m name) s = Some i" using assms(7) by (auto simp: content_def)
    have conn: "connect now (resolvePath m name) s =
        (if is_dir (resolvePath m name) s then (Inl (Err ''unable to open database file''), s)
         else (Inr \<lparr>h_inode = i, h_tx = None, h_log = []\<rparr>, s))"
      using assms(2) i by (simp add: connect_def creat_existing)
    obtain h2 where "run_pragmas (de_engine d) (open_pragmas False) \<lparr>h_inode = i, h_tx = None, h_log = []\<rparr> s
        = (Inr (), h2, s')"
      using o conn assms(1) by (auto simp: open_at_def plain_manager_def split: if_splits prod.splits sum.splits)
    from run_pragmas_main [OF _ this] assms(4) have "content p s' = content p s"
      by (simp add: pragmas_keep_def)
    moreover have "plain_manager m'" using assms(1) None h(6)
      by (auto simp: plain_manager_def manager_ok_def map_of_eq_None_iff)
    ultimately show ?thesis
      using h by (auto simp: linked_def resolvePath_def is_dir_def)
  qed
  then show "content p s' = content p s" and "linked name m' s'" and "plain_manager m'"
    and "os_faults s' = []" and "os_ok s'" and "is_dir p s' = is_dir p s"
    and "m_dataDir m' = m_dataDir m" and "map_of (m_dbs m') name \<noteq> None" by auto
qed

section \<open>Backup\<close>

lemma MkdirAll_ok:
  "os_faults s = [] \<Longrightarrow> MkdirAll p s = (Inr (), s') \<Longrightarrow> s' = s\<lparr>os_dirs := List.insert (path_clean p) (os_dirs s)\<rparr>"
  by (auto simp: MkdirAll_def split: if_splits)

lemma map_of_filter_two:
  "map_of (filter (\<lambda>e. fst e \<noteq> a \<and> fst e \<noteq> b) xs) k = (if k = a \<or> k = b then None else map_of xs k)"
  by (induction xs) auto

lemma find_rename:
  assumes "path_clean p \<noteq> path_clean q" and "find_file p s = Some i"
    and "Rename p q s = (r, s')" and "os_faults s = []" and "\<not> is_dir q s"
  shows "r = Inr () \<and> find_file q s' = Some i \<and> os_data s' = os_data s \<and>
     (\<forall>x. path_clean x \<notin> {path_clean p, path_clean q} \<longrightarrow> find_file x s' = find_file x s) \<and>
     os_faults s' = [] \<and> is_dir x s' = is_dir x s"
proof -
  have r: "r = Inr ()" and s': "s' = s\<lparr>os_names :=
      filter (\<lambda>e. fst e \<noteq> path_clean p \<and> fst e \<noteq> path_clean q) (os_names s) @ [(path_clean q, i)]\<rparr>"
    using assms by (auto simp: Rename_def unlink_def Let_def conj_commute)
  show ?thesis
    using r assms(4) by (auto simp: s' find_file_def map_add_def map_of_filter_two is_dir_def split: option.split)
qed

text \<open>
  The bytes of a backup that was made are those of the database's file when the checkpoint had
  run, and its information says so.
\<close>

lemma backup_content:
  assumes m: "plain_manager m" "linked dbName m s" "bm_dataDir bm = m_dataDir m" "bm_cipher bm = None"
    and s: "os_faults s = []" "os_ok s"
    and eng: "pragmas_keep (de_engine d)"
    and db: "content (resolvePath m dbName) s = Some x" "\<not> is_dir (resolvePath m dbName) s"
    and paths: "path = path_join [bm_backupDir bm, backup_name dbName ts]"
      "path_clean (resolvePath m dbName) \<notin> {path_clean path, path_clean (path @ ''.tmp'')}"
      "path_clean path \<noteq> path_clean (path @ ''.tmp'')"
      "\<forall>p. path_clean p \<in> {path_clean path, path_clean (path @ ''.tmp'')} \<longrightarrow>
         \<not> is_dir p s \<and> path_clean p \<noteq> path_clean (bm_backupDir bm)"
      "path_clean (resolvePath m dbName) \<noteq> path_clean (bm_backupDir bm)"
    and run: "CreateBackup d now ts dbName bm m s = (Inr info, m', s')"
  shows "bi_Path info = path \<and> bi_Database info = dbName \<and>
     content path s' = content (resolvePath m dbName) s' \<and>
     Some (bi_Size info) = map_option length (content path s')"
proof -
  let ?db = "resolvePath m dbName" and ?tmp = "path @ ''.tmp''"
  obtain s1 where s1: "MkdirAll (bm_backupDir bm) s = (Inr (), s1)"
    using run by (auto simp: CreateBackup_def split: prod.splits sum.splits)
  then have s1': "s1 = s\<lparr>os_dirs := List.insert (path_clean (bm_backupDir bm)) (os_dirs s)\<rparr>"
    by (rule MkdirAll_ok [OF s(1)])
  have frame1: "os_faults s1 = []" "os_ok s1" "linked dbName m s1" "content ?db s1 = Some x"
    using s m(2) db(1) by (simp_all add: s1' linked_def find_file_def)
  have dir1: "is_dir p s1 \<longleftrightarrow> is_dir p s \<or> path_clean p = path_clean (bm_backupDir bm)" for p
    by (auto simp: s1' is_dir_def)
  obtain m2 s2 where o: "Open d now dbName m s1 = (Inr (), m2, s2)"
    using run s1 by (auto simp: CreateBackup_def Let_def split: prod.splits sum.splits)
  note op = plain_Open [OF m(1) frame1(1,2) eng o frame1(3,4)]
  obtain h where h: "map_of (m_dbs m2) dbName = Some h" using op(8) by blast
  obtain r3 m3 s3 where k: "on_db (sq_exec (de_engine d) ''PRAGMA wal_checkpoint(TRUNCATE)'' []) dbName m2 s2
      = (r3, m3, s3)" by (metis prod_cases3)
  have touch: "touches (h_inode h) s2 s3" using on_db_effect [OF h k] by blast
  note t = touches_frame [OF touch]
  have path_db: "bm_dataDir bm @ ''/'' @ dbName = ?db" using m(3) by (simp add: resolvePath_def)
  obtain y where y: "content ?db s3 = Some y"
    using t(6) [of ?db] op(1) [of ?db] frame1(4) by (cases "find_file ?db s3") (auto simp: content_def)
  have dirs3: "\<not> is_dir ?db s3" "\<not> is_dir ?tmp s3" "\<not> is_dir path s3"
    using t(7) op(6) dir1 db(2) paths(4,5) by auto
  obtain s5 where cp: "copyFile now ?db ?tmp s3 = (Inr (), s5)" "os_ok s5" "os_faults s5 = []"
    "\<forall>q. content q s5 = (if path_clean q = path_clean ?tmp then Some y else content q s3)"
    "\<forall>q. is_dir q s5 = is_dir q s3"
    using copyFile_ok [of s3 ?db y ?tmp now] t op y dirs3 paths(2) by auto
  obtain r6 s6 where rn: "Rename ?tmp path s5 = (r6, s6)" by fastforce
  obtain i where i: "find_file ?tmp s5 = Some i" "i_main (os_data s5 i) = y"
    using cp(4) by (auto simp: content_def split: if_splits)
  have r: "r6 = Inr () \<and> find_file path s6 = Some i \<and> os_data s6 = os_data s5 \<and>
     (\<forall>x. path_clean x \<notin> {path_clean ?tmp, path_clean path} \<longrightarrow> find_file x s6 = find_file x s5) \<and>
     os_faults s6 = [] \<and> is_dir path s6 = is_dir path s5"
    using find_rename [OF _ i(1) rn cp(3), of path] paths(3) cp(5) dirs3(3) by auto
  have c6: "content path s6 = Some y" using r i by (simp add: content_def)
  have db6: "content ?db s6 = Some y"
    using r cp(4) y paths(2) by (auto simp: content_def)
  obtain fi where st: "Stat path s6 = (Inr fi, s6)" "fi_size fi = length y"
    using Stat_file [of s6 path y] r c6 cp(5) dirs3(3) by auto
  have "info = \<lparr>bi_Name = backup_name dbName ts, bi_Path = path, bi_Size = fi_size fi,
      bi_CreatedAt = fi_mtime fi, bi_Database = dbName\<rparr>" and "s' = s6"
    using run s1 o k path_db cp(1) rn r st paths(1) m(4) by (simp_all add: CreateBackup_def Let_def)
  then show ?thesis using c6 db6 st(2) by simp
qed

section \<open>Restore\<close>

text \<open>
  A restore closes the database, copies the backup over its file and opens it again, also in WAL mode
  and with encryption, where a database is opened as a decrypted copy in the scratch directory.
\<close>

definition wal_of :: "string \<Rightarrow> os \<Rightarrow> string" where
  "wal_of p s = (case find_file p s of None \<Rightarrow> [] | Some i \<Rightarrow> i_wal (os_data s i))"

text \<open>
  What SQLite documents: the last connection to close runs a checkpoint and removes the log; and the
  pragmas of a new connection leave a file as it is that already has the journal mode they ask for, as
  the backups of a server of the same configuration have.
\<close>

definition closes_clean :: "engine \<Rightarrow> bool" where
  "closes_clean eng \<longleftrightarrow> (\<forall>se. fst (sq_close eng se) = Inr () \<and> i_wal (se_disk (snd (sq_close eng se))) = [])"

definition opens_unchanged :: "engine \<Rightarrow> bool \<Rightarrow> string \<Rightarrow> bool" where
  "opens_unchanged eng wal y \<longleftrightarrow> (\<forall>q\<in>set (map fst (open_pragmas wal)). \<forall>se.
     i_main (se_disk se) = y \<and> i_wal (se_disk se) = [] \<longrightarrow>
     i_main (se_disk (snd (sq_exec eng q [] se))) = y \<and> i_wal (se_disk (snd (sq_exec eng q [] se))) = [])"

text \<open>
  The situation of a restore: with encryption there is a scratch directory and no decrypted copy in it;
  without, an open database is the file of its name; no log of an earlier process lies beside
  the file.
\<close>

definition ready_to_restore :: "string \<Rightarrow> manager \<Rightarrow> os \<Rightarrow> bool" where
  "ready_to_restore name m s \<longleftrightarrow>
     (m_cipher m = None \<longrightarrow> m_decDir m = []) \<and>
     (m_cipher m \<noteq> None \<longrightarrow> m_decDir m \<noteq> [] \<and> find_file (path_join [m_decDir m, name]) s = None \<and>
        \<not> is_dir (path_join [m_decDir m, name]) s \<and>
        path_clean (path_join [m_decDir m, name]) \<noteq> path_clean (resolvePath m name)) \<and>
     (\<forall>h. map_of (m_dbs m) name = Some h \<longrightarrow>
        (\<forall>p. find_file p s = Some (h_inode h) \<longrightarrow> path_clean p = path_clean (resolvePath m name)) \<and>
        (m_cipher m = None \<longrightarrow> find_file (resolvePath m name) s = Some (h_inode h))) \<and>
     (map_of (m_dbs m) name = None \<or> m_cipher m \<noteq> None \<longrightarrow> wal_of (resolvePath m name) s = [])"

lemma wal_of_write_main:
  assumes "os_ok s"
  shows "wal_of q (write_main now p d s) = wal_of q s"
proof (cases "find_file p s")
  case None
  have old: "find_file q s \<noteq> Some (os_next s)" using find_file_less [OF assms] by blast
  have data: "os_data (write_main now p d s) =
      (os_data s)(os_next s := \<lparr>i_main = d, i_wal = [], i_mtime = now\<rparr>)"
    by (simp add: write_new [OF None])
  show ?thesis
    using None old find_file_cong [of q p s] by (auto simp: wal_of_def find_write_main data split: option.split)
next
  case (Some i)
  have find: "find_file q (write_main now p d s) = find_file q s" using Some by (simp add: find_write_main)
  show ?thesis unfolding wal_of_def find by (simp add: write_existing [OF Some] put_main_def split: option.split)
qed

lemma wal_of_frame [simp]: "wal_of p (s\<lparr>os_rand := rs\<rparr>) = wal_of p s"
  by (simp add: wal_of_def split: option.split)

text \<open>Encrypting a file in place writes that file or nothing.\<close>

lemma EncryptFile_effect:
  assumes "os_faults s = []"
  shows "\<exists>rs. snd (EncryptFile g c now p s) = s\<lparr>os_rand := rs\<rparr> \<or>
     (\<exists>d. snd (EncryptFile g c now p s) = write_main now p d (s\<lparr>os_rand := rs\<rparr>))"
proof (cases "is_dir p s \<or> content p s = None")
  case True
  then have "snd (EncryptFile g c now p s) = s\<lparr>os_rand := os_rand s\<rparr>"
    using assms by (auto simp: EncryptFile_def ReadFile_def)
  then show ?thesis by blast
next
  case False
  then obtain x where x: "ReadFile p s = (Inr x, s)" using assms by auto
  obtain r s1 where e: "Encrypt g c x s = (r, s1)" by fastforce
  then obtain rs where s1: "s1 = s\<lparr>os_rand := rs\<rparr>"
    using rand_read_frame [of NonceSize s] by (auto simp: Encrypt_def split: prod.splits sum.splits)
  show ?thesis
  proof (cases r)
    case (Inl err)
    then have "snd (EncryptFile g c now p s) = s\<lparr>os_rand := rs\<rparr>" using x e s1 by (simp add: EncryptFile_def)
    then show ?thesis by blast
  next
    case (Inr d)
    then have "snd (EncryptFile g c now p s) = write_main now p d (s\<lparr>os_rand := rs\<rparr>)"
      using x e s1 assms False by (simp add: EncryptFile_def)
    then show ?thesis by blast
  qed
qed

text \<open>What is the same after a step that writes only the file of the database.\<close>

definition only_file :: "string \<Rightarrow> os \<Rightarrow> os \<Rightarrow> bool" where
  "only_file db s s' \<longleftrightarrow> os_faults s' = [] \<and> os_ok s' \<and> (\<forall>p. is_dir p s' = is_dir p s) \<and>
     (\<forall>p. path_clean p \<noteq> path_clean db \<longrightarrow> content p s' = content p s)"

lemma content_None_iff: "content p s = None \<longleftrightarrow> find_file p s = None"
  by (simp add: content_def)

lemma reencrypt_effect:
  assumes "os_faults s = []" and "os_ok s" and "m_cipher m = Some c" and "m_decDir m \<noteq> []"
    and "find_file (path_join [m_decDir m, name]) s = None" and "\<not> is_dir (path_join [m_decDir m, name]) s"
    and "path_clean (path_join [m_decDir m, name]) \<noteq> path_clean (resolvePath m name)"
  shows "only_file (resolvePath m name) s (cleanupDecrypted name m (reencrypt d now name m s))"
    and "wal_of p (cleanupDecrypted name m (reencrypt d now name m s)) = wal_of p s"
proof -
  let ?orig = "resolvePath m name" and ?dec = "path_join [m_decDir m, name]"
  let ?s1 = "reencrypt d now name m s"
  have st: "Stat ?dec s = (Inl ErrNotExist, s)"
    using assms by (intro Stat_none) (simp_all add: content_None_iff)
  have same: "s\<lparr>os_rand := os_rand s\<rparr> = s" by simp
  have "?s1 = s \<or> ?s1 = snd (EncryptFile (de_gcm d) c now ?orig s)"
    using st assms(1,3) by (auto simp: reencrypt_def Let_def Stat_def split: option.split)
  then obtain rs where "?s1 = s\<lparr>os_rand := rs\<rparr> \<or> (\<exists>x. ?s1 = write_main now ?orig x (s\<lparr>os_rand := rs\<rparr>))"
    using EncryptFile_effect [OF assms(1), of "de_gcm d" c now ?orig] same by metis
  moreover have "only_file ?orig s (s\<lparr>os_rand := rs\<rparr>) \<and> wal_of p (s\<lparr>os_rand := rs\<rparr>) = wal_of p s"
    using assms(1,2) by (simp add: only_file_def)
  moreover have "only_file ?orig s (write_main now ?orig x (s\<lparr>os_rand := rs\<rparr>)) \<and>
      wal_of p (write_main now ?orig x (s\<lparr>os_rand := rs\<rparr>)) = wal_of p s" for x
    using assms(1,2) by (simp add: only_file_def content_write_main wal_of_write_main)
  ultimately have eff: "only_file ?orig s ?s1 \<and> wal_of p ?s1 = wal_of p s" by auto
  then have "content ?dec ?s1 = content ?dec s" using assms(7) by (simp add: only_file_def)
  then have "find_file ?dec ?s1 = None" "\<not> is_dir ?dec ?s1" "os_faults ?s1 = []"
    using assms(5,6) eff by (simp_all add: only_file_def flip: content_None_iff)
  then have "cleanupDecrypted name m ?s1 = ?s1"
    using assms(4) by (simp add: cleanupDecrypted_def Remove_def)
  then show "only_file ?orig s (cleanupDecrypted name m ?s1)"
    and "wal_of p (cleanupDecrypted name m ?s1) = wal_of p s" using eff by simp_all
qed

lemma Close_to_restore:
  assumes ready: "ready_to_restore name m s" and s: "os_faults s = []" "os_ok s"
    and eng: "closes_clean (de_engine d)" and run: "Close d now name m s = (r, m1, s1)"
  shows "m1 = drop_db name m" and "only_file (resolvePath m name) s s1" and "wal_of (resolvePath m name) s1 = []"
proof -
  let ?orig = "resolvePath m name"
  note R = ready [unfolded ready_to_restore_def]
  have "m1 = drop_db name m \<and> only_file ?orig s s1 \<and> wal_of ?orig s1 = []"
  proof (cases "map_of (m_dbs m) name")
    case None
    then have "filter (\<lambda>e. fst e \<noteq> name) (m_dbs m) = m_dbs m"
      by (auto simp: map_of_eq_None_iff filter_id_conv)
    then have "drop_db name m = m" by (simp add: drop_db_def)
    then show ?thesis using None run s R by (simp add: Close_def only_file_def)
  next
    case (Some h)
    obtain r1 h1 s2 where x: "on_handle (sq_close (de_engine d)) h s = (r1, h1, s2)" by (metis prod_cases3)
    have closed: "r1 = Inr ()" "i_wal (os_data s2 (h_inode h)) = []"
      using x eng by (auto simp: on_handle_def closes_clean_def split: prod.splits) (metis fst_conv snd_conv)+
    let ?m = "drop_db name m"
    have m1: "m1 = ?m" "s1 = cleanupDecrypted name ?m (reencrypt d now name ?m s2)"
      using run Some x closed(1) by (auto simp: Close_def Let_def)
    note t = touches_frame [OF on_handle_touches(1) [OF x]]
    have keep: "only_file ?orig s s2"
      using t s R Some by (auto simp: only_file_def)
    have "wal_of ?orig s2 = wal_of ?orig s \<or> wal_of ?orig s2 = []"
    proof (cases "find_file ?orig s = Some (h_inode h)")
      case True
      then show ?thesis using t(6) closed(2) by (simp add: wal_of_def)
    next
      case False
      have "os_data s2 i = os_data s i" if "i \<noteq> h_inode h" for i
        using on_handle_touches(1) [OF x] that by (auto simp: touches_def)
      then show ?thesis using False t(6) by (auto simp: wal_of_def split: option.split)
    qed
    moreover have "wal_of ?orig s2 = []" if "m_cipher m = None"
      using that R Some closed(2) t(6) by (simp add: wal_of_def)
    ultimately have wal: "wal_of ?orig s2 = []" using R by (cases "m_cipher m") auto
    show ?thesis
    proof (cases "m_cipher m")
      case None
      then have "s1 = s2" using m1 R by (simp add: drop_db_def reencrypt_def cleanupDecrypted_def)
      then show ?thesis using m1(1) keep wal by simp
    next
      case (Some c)
      have m: "m_cipher ?m = Some c" "m_decDir ?m = m_decDir m" "resolvePath ?m name = ?orig"
        using Some by (simp_all add: drop_db_def resolvePath_def)
      note re = reencrypt_effect [where s = s2 and m = ?m and c = c and name = name and d = d and now = now, unfolded m]
      have pre: "os_faults s2 = []" "os_ok s2" "m_decDir m \<noteq> []" "find_file (path_join [m_decDir m, name]) s2 = None"
        "\<not> is_dir (path_join [m_decDir m, name]) s2"
        "path_clean (path_join [m_decDir m, name]) \<noteq> path_clean ?orig"
        using R Some s t by auto
      have "only_file ?orig s2 s1" "wal_of ?orig s1 = wal_of ?orig s2"
        using re(1) [OF pre(1,2) refl pre(3-6)] re(2) [OF pre(1,2) refl pre(3-6)] m1(2) by simp_all
      then show ?thesis using m1(1) keep wal by (auto simp: only_file_def)
    qed
  qed
  then show "m1 = drop_db name m" and "only_file ?orig s s1" and "wal_of ?orig s1 = []" by simp_all
qed


text \<open>Copying is two writes of the destination, truncated and filled.\<close>

lemma copyFile_writes:
  assumes "os_ok s" and "os_faults s = []" and "content src s = Some x" and "\<not> is_dir src s"
    and "\<not> is_dir dst s" and "path_clean src \<noteq> path_clean dst"
  shows "copyFile now src dst s = (Inr (), write_main now dst x (write_main now dst [] s))"
proof -
  obtain i where i: "find_file src s = Some i" "i_main (os_data s i) = x"
    using assms(3) by (auto simp: content_def)
  obtain j s1 where c: "creat now dst s = (j, s1)" by fastforce
  let ?w = "put_main j now [] s1"
  have w: "write_main now dst [] s = ?w" using c by (simp add: write_main_def)
  have "find_file src ?w = Some i"
    using i(1) assms(6) find_write_main [of src now dst "[]" s] unfolding w by simp
  moreover have "content src ?w = Some x"
    using content_write_main [OF assms(1), of src now dst "[]"] assms(3,6) unfolding w by simp
  ultimately have x: "i_main (os_data ?w i) = x" by (simp add: content_def)
  have j: "find_file dst ?w = Some j"
    using find_creat [OF c] by (simp add: find_file_def put_main_def)
  have "os_faults ?w = []" using creat_frame(1) [OF c] assms(2) by (simp add: put_main_def)
  then have "copyFile now src dst s = (Inr (), put_main j now x ?w)"
    using assms i(1) c x by (simp add: copyFile_def open_read_def os_Create_def io_Copy_def put_main_def)
  then show ?thesis unfolding w by (simp add: write_existing [OF j])
qed

text \<open>A connection to a file whose bytes and empty log its pragmas leave alone.\<close>

definition holds_bytes :: "string \<Rightarrow> inode \<Rightarrow> bool" where
  "holds_bytes y x \<longleftrightarrow> i_main x = y \<and> i_wal x = []"

lemma run_pragmas_keep:
  assumes "\<forall>q\<in>set (map fst ps). \<forall>se. holds_bytes y (se_disk se) \<longrightarrow> holds_bytes y (se_disk (snd (sq_exec eng q [] se)))"
    and "holds_bytes y (os_data s (h_inode h))" and "run_pragmas eng ps h s = (r, h', s')"
  shows "holds_bytes y (os_data s' (h_inode h))"
  using assms
proof (induction eng ps h s rule: run_pragmas.induct)
  case (2 eng q msg ps h s)
  obtain r1 h1 s1 where x: "on_handle (sq_exec eng q []) h s = (r1, h1, s1)" by (metis prod_cases3)
  note i = on_handle_touches(2) [OF x]
  have "holds_bytes y (os_data s1 (h_inode h))"
    using x 2(2,3) by (auto simp: on_handle_def split: prod.splits) (metis snd_conv session.select_convs(1))
  then show ?case using 2 x i by (cases r1) auto
qed auto

lemma open_at_keeps:
  assumes "open_at d now name path m s = (Inr (), m', s')" and "os_faults s = []"
    and "find_file path s = Some i" and "holds_bytes y (os_data s i)"
    and "opens_unchanged (de_engine d) (m_walMode m) y"
  shows "\<exists>h. m' = m\<lparr>m_dbs := (name, h) # m_dbs m\<rparr> \<and> h_inode h = i \<and> touches i s s' \<and>
     holds_bytes y (os_data s' i)"
proof -
  let ?h = "\<lparr>h_inode = i, h_tx = None, h_log = []\<rparr>"
  have conn: "connect now path s = (if is_dir path s then (Inl (Err ''unable to open database file''), s) else (Inr ?h, s))"
    using assms(2,3) by (simp add: connect_def creat_existing)
  then obtain h2 where p: "run_pragmas (de_engine d) (open_pragmas (m_walMode m)) ?h s = (Inr (), h2, s')"
    and m': "m' = m\<lparr>m_dbs := (name, h2) # m_dbs m\<rparr>"
    using assms(1) by (auto simp: open_at_def split: prod.splits sum.splits if_splits)
  have "holds_bytes y (os_data s' i)"
    using run_pragmas_keep [OF _ _ p, of y] assms(4,5) by (simp add: opens_unchanged_def holds_bytes_def)
  moreover have "touches i s s'" "h_inode h2 = i"
    using run_pragmas_touches [OF p] touches_or_same by auto
  ultimately show ?thesis using m' by blast
qed

text \<open>The bytes that a database opened on a file with these bytes has.\<close>

definition opened_bytes :: "db_env \<Rightarrow> manager \<Rightarrow> string \<Rightarrow> string" where
  "opened_bytes d m x =
     (case m_cipher m of
        None \<Rightarrow> x
      | Some c \<Rightarrow> if x = [] then [] else (case Decrypt (de_gcm d) c x of Inl _ \<Rightarrow> [] | Inr y \<Rightarrow> y))"

lemma Open_restored:
  assumes s: "os_faults s = []" "os_ok s" and closed: "map_of (m_dbs m) name = None"
    and fl: "find_file (resolvePath m name) s = Some i" "holds_bytes x (os_data s i)" "\<not> is_dir (resolvePath m name) s"
    and scratch: "m_cipher m \<noteq> None \<longrightarrow> find_file (path_join [m_decDir m, name]) s = None \<and>
       \<not> is_dir (path_join [m_decDir m, name]) s"
    and eng: "opens_unchanged (de_engine d) (m_walMode m) (opened_bytes d m x)"
    and run: "Open d now name m s = (Inr (), m', s')"
  shows "(\<forall>p. find_file p s \<noteq> None \<and> find_file p s \<noteq> Some i \<longrightarrow> content p s' = content p s) \<and>
     content (resolvePath m name) s' = Some x \<and>
     (\<exists>h. map_of (m_dbs m') name = Some h \<and> holds_bytes (opened_bytes d m x) (os_data s' (h_inode h)))"
proof -
  let ?orig = "resolvePath m name" and ?dec = "path_join [m_decDir m, name]"
  have direct: ?thesis if o: "open_at d now name ?orig m s = (Inr (), m', s')" and x: "opened_bytes d m x = x"
  proof -
    obtain h where h: "m' = m\<lparr>m_dbs := (name, h) # m_dbs m\<rparr>" "h_inode h = i" "touches i s s'"
      "holds_bytes x (os_data s' i)"
      using open_at_keeps [OF o s(1) fl(1,2)] eng x by auto
    note t = touches_frame [OF h(3)]
    have "content ?orig s' = Some x" using t(6) fl(1) h(4) by (simp add: content_def holds_bytes_def)
    then show ?thesis using h t(9) x by auto
  qed
  have size: "Stat ?orig s = (Inr \<lparr>fi_size = length x, fi_mtime = i_mtime (os_data s i), fi_dir = False\<rparr>, s)"
    using s(1) fl by (simp add: Stat_def holds_bytes_def)
  show ?thesis
  proof (cases "m_cipher m")
    case None
    then show ?thesis using run closed by (intro direct) (simp_all add: Open_def Let_def opened_bytes_def)
  next
    case (Some c)
    show ?thesis
    proof (cases "x = []")
      case True
      then show ?thesis
        using run closed Some size by (intro direct) (simp_all add: Open_def Let_def opened_bytes_def isEncrypted_def)
    next
      case False
      have enc: "isEncrypted ?orig s = (True, s)" using size False by (simp add: isEncrypted_def)
      have orig: "content ?orig s = Some x" using fl by (simp add: content_def holds_bytes_def)
      obtain y where y: "Decrypt (de_gcm d) c x = Inr y"
        using run closed Some enc s(1) fl(3) orig
        by (cases "Decrypt (de_gcm d) c x") (auto simp: Open_def Let_def DecryptCopy_def)
      let ?s2 = "write_main now ?dec y s"
      have "DecryptCopy (de_gcm d) c now ?orig ?dec s = (Inr (), ?s2)"
        using s(1) fl(3) scratch Some orig y by (intro DecryptCopy_ok) auto
      moreover obtain r s3 where o: "open_at d now name ?dec m ?s2 = (r, m', s3)" "r = Inr ()" "s' = snd (Remove ?dec s3)"
        using run closed Some enc calculation by (auto simp: Open_def Let_def split: prod.splits)
      moreover have new: "find_file ?dec s = None" using scratch Some by simp
      have bytes: "opened_bytes d m x = y" using Some False y by (simp add: opened_bytes_def)
      have at: "find_file ?dec ?s2 = Some (os_next s)" "holds_bytes y (os_data ?s2 (os_next s))"
        using new by (simp_all add: find_write_main) (simp add: write_new holds_bytes_def)
      obtain h where h: "m' = m\<lparr>m_dbs := (name, h) # m_dbs m\<rparr>" "h_inode h = os_next s"
        "touches (os_next s) ?s2 s3" "holds_bytes y (os_data s3 (os_next s))"
        using open_at_keeps [OF o(1) [unfolded o(2)] _ at(1,2)] eng bytes s(1) by auto
      note t = touches_frame [OF h(3)]
      have "find_file ?dec s3 = Some (os_next s)" "os_faults s3 = []" using t at(1) s(1) by simp_all
      then have s': "s' = unlink ?dec s3" using o(3) by (simp add: Remove_def)
      have keep: "content p s' = content p s" if "find_file p s \<noteq> None" for p
      proof -
        have p: "find_file p s \<noteq> Some (os_next s)" "path_clean p \<noteq> path_clean ?dec"
          using find_file_less [OF s(2)] that new find_file_cong [of p ?dec s] by auto
        then have "find_file p ?s2 \<noteq> Some (os_next s)" by (simp add: find_write_main)
        then show ?thesis using t(9) p by (simp add: s' content_write_main [OF s(2)])
      qed
      have "os_data s' = os_data s3" by (simp add: s' unlink_def)
      then show ?thesis using keep h fl(1) orig bytes by auto
    qed
  qed
qed

text \<open>The whole restore.\<close>

lemma resolve_backup_same: "os_faults s = [] \<Longrightarrow> snd (resolve_backup f bm s) = s"
  by (simp add: resolve_backup_def Stat_def Let_def split: option.split)

lemma restore_bytes:
  assumes s: "os_faults s = []" "os_ok s" and dir: "bm_dataDir bm = m_dataDir m"
    and ready: "ready_to_restore dbName m s"
    and eng: "closes_clean (de_engine d)" "opens_unchanged (de_engine d) (m_walMode m) (opened_bytes d m x)"
    and f: "f = fst (resolve_backup f0 bm s)" "content f s = Some x" "\<not> is_dir f s"
      "\<not> is_dir (resolvePath m dbName) s" "path_clean f \<noteq> path_clean (resolvePath m dbName)"
    and run: "RestoreBackup d now f0 dbName bm m s = (Inr (), m', s')"
  shows "content (resolvePath m dbName) s' = Some x \<and> content f s' = Some x \<and>
    (\<exists>h. map_of (m_dbs m') dbName = Some h \<and> holds_bytes (opened_bytes d m x) (os_data s' (h_inode h)))"
proof -
  let ?db = "resolvePath m dbName" and ?dec = "path_join [m_decDir m, dbName]"
  have res: "resolve_backup f0 bm s = (f, s)" using resolve_backup_same [OF s(1)] f(1) by (metis prod.collapse)
  obtain info where st: "Stat f s = (Inr info, s)" "\<not> fi_dir info" using Stat_file [OF s(1) f(3,2)] by blast
  obtain r m1 s1 where cl: "Close d now dbName m s = (r, m1, s1)" by (metis prod_cases3)
  note c = Close_to_restore [OF ready s eng(1) cl]
  have o1: "os_faults s1 = []" "os_ok s1" "\<And>p. is_dir p s1 = is_dir p s"
    "\<And>p. path_clean p \<noteq> path_clean ?db \<Longrightarrow> content p s1 = content p s"
    using c(2) by (auto simp: only_file_def)
  let ?s2 = "write_main now ?db x (write_main now ?db [] s1)"
  have cp: "copyFile now f ?db s1 = (Inr (), ?s2)"
    using o1 f by (intro copyFile_writes) auto
  have m1: "resolvePath m1 dbName = ?db" "m_cipher m1 = m_cipher m" "m_decDir m1 = m_decDir m"
    "m_walMode m1 = m_walMode m" "map_of (m_dbs m1) dbName = None" "opened_bytes d m1 x = opened_bytes d m x"
    by (simp_all add: c(1) drop_db_def resolvePath_def map_of_filter_name opened_bytes_def)
  have path: "bm_dataDir bm @ ''/'' @ dbName = ?db" using dir by (simp add: resolvePath_def)
  have op: "Open d now dbName m1 ?s2 = (Inr (), m', s')"
    using run res st cl cp path by (auto simp: RestoreBackup_def split: prod.splits sum.splits)
  have ok2: "os_faults ?s2 = []" "os_ok ?s2" "\<And>p. is_dir p ?s2 = is_dir p s" using o1 by simp_all
  have c2: "content p ?s2 = (if path_clean p = path_clean ?db then Some x else content p s)" for p
    using o1 by (simp add: content_write_main)
  have "wal_of ?db ?s2 = []" using o1(2) c(3) by (simp add: wal_of_write_main)
  then obtain i where i: "find_file ?db ?s2 = Some i" "holds_bytes x (os_data ?s2 i)"
    using c2 [of ?db] by (auto simp: content_def wal_of_def holds_bytes_def)
  have dec: "m_cipher m \<noteq> None \<longrightarrow> find_file ?dec ?s2 = None \<and> \<not> is_dir ?dec ?s2"
    using ready c2 [of ?dec] ok2(3) by (auto simp: ready_to_restore_def content_def)
  note res = Open_restored [OF ok2(1,2) m1(5), where d = d and x = x, unfolded m1, OF i _ dec eng(2) op]
  have "find_file f ?s2 \<noteq> None" "find_file f ?s2 \<noteq> Some i"
    using c2 [of f] f(2,5) find_file_inj [OF ok2(2) i(1), of f] by (auto simp: content_def)
  then show ?thesis using res ok2(3) f(2,4,5) c2 [of f] by auto
qed

end
