(* ===== verification/Samples.thy ===== *)
theory Samples
  imports ReplicationLink BackupRestore
begin

text \<open>
  Concrete inputs, on which the witnesses of the properties evaluate: primitives that satisfy the
  hypotheses about them, and a database with two users. They model no code.
\<close>

section \<open>Primitives\<close>

definition sample_kdf :: kdf where
  "sample_kdf pw salt t m th n = take n (pw @ salt @ replicate n CHR ''0'')"

definition sample_secret :: string where "sample_secret = ''secret''"

text \<open>The one set of claims this signer signs: alice's, at login time 0.\<close>

definition sample_claims :: claims where
  "sample_claims = \<lparr>cl_user_id = 1, cl_username = ''alice'', cl_role = ''developer'',
     cl_expires = 24 * hour, cl_issued = 0, cl_issuer = ''sparkdb''\<rparr>"

definition sample_crypto :: crypto where
  "sample_crypto =
     \<lparr>cr_kdf = sample_kdf,
      cr_sha256 = (\<lambda>s. take 32 (s @ replicate 32 CHR ''0'')),
      cr_seal = (\<lambda>k n p. rev p),
      cr_open = (\<lambda>k n p. Some (rev p)),
      cr_sign = (\<lambda>s cl. if s = sample_secret \<and> cl = sample_claims then Inr ''h.c.s''
                       else Inl (Err ''refused'')),
      cr_parse = (\<lambda>keyf tok now.
         if tok = ''h.c.s'' \<and> keyf SigningMethodHMAC = Inr sample_secret \<and>
            now < cl_expires sample_claims
         then Inr (sample_claims, True) else Inl (Err ''token is malformed''))\<rparr>"

definition sample_env :: auth_env where
  "sample_env = \<lparr>en_crypto = sample_crypto, en_later = (\<lambda>t now. now < t)\<rparr>"

text \<open>An environment whose signer always signs, with one token for all.\<close>

definition signing_env :: auth_env where
  "signing_env = sample_env\<lparr>en_crypto := sample_crypto\<lparr>cr_sign := \<lambda>s cl. Inr ''h.c.s''\<rparr>\<rparr>"

lemma sample_primitives:
  "kdf_length sample_kdf" "gcm_opens sample_crypto" "jwt_accepts sample_crypto"
  by (auto simp: kdf_length_def sample_kdf_def gcm_opens_def jwt_accepts_def sample_crypto_def)

lemma env_simps [simp]:
  "cr_kdf (en_crypto sample_env) = sample_kdf" "en_crypto sample_env = sample_crypto"
  "cr_kdf sample_crypto = sample_kdf" "cr_kdf (en_crypto signing_env) = sample_kdf"
  by (simp_all add: sample_env_def signing_env_def sample_crypto_def)

section \<open>A database with two users\<close>

definition sample_hash :: "string \<Rightarrow> string" where
  "sample_hash pw = encode_hash defaultParams (b64_encode (b64_encode ''salt''))
     (b64_encode (sample_kdf pw (b64_encode ''salt'') 3 65536 4 32))"

definition alice :: user_row where
  "alice = \<lparr>u_id = 1, u_username = ''alice'', u_hash = sample_hash ''Passw0rd'',
     u_role = ''developer'', u_created = 0, u_locked = None, u_pwd_change = 0\<rparr>"

definition root_user :: user_row where
  "root_user = \<lparr>u_id = 2, u_username = ''admin'', u_hash = sample_hash ''admin'',
     u_role = ''admin'', u_created = 0, u_locked = None, u_pwd_change = 1\<rparr>"

definition sample_db :: sysdb where
  "sample_db = empty_sysdb\<lparr>db_users := \<lparr>t_rows = [alice, root_user], t_seq = 2\<rparr>\<rparr>"

definition sample_auth :: authenticator where
  "sample_auth =
     \<lparr>a_jwt = \<lparr>jm_secret = sample_secret, jm_duration = 24 * hour\<rparr>,
      a_session = NewSessionManager (sysdb_sessions (en_later sample_env)) (24 * hour),
      a_limiter = NewLoginRateLimiter 2 (15 * minute), a_db = sample_db\<rparr>"

lemma sample_auth_simps [simp]:
  "a_db sample_auth = sample_db" "db_faults sample_db = []"
  "t_rows (db_users sample_db) = [alice, root_user]" "t_seq (db_users sample_db) = 2"
  "t_rows (db_keys sample_db) = []" "t_rows (db_sessions sample_db) = []"
  "t_seq (db_keys sample_db) = 0"
  "ll_attempts (a_limiter sample_auth) k = None" "ll_limit (a_limiter sample_auth) = 2"
  "ll_lockout (a_limiter sample_auth) = 15 * minute"
  "jm_secret (a_jwt sample_auth) = sample_secret" "jm_duration (a_jwt sample_auth) = 24 * hour"
  by (simp_all add: sample_auth_def sample_db_def empty_sysdb_def NewLoginRateLimiter_def)

lemma sample_users [simp]:
  "u_id alice = 1" "u_username alice = ''alice''" "u_role alice = ''developer''"
  "u_hash alice = sample_hash ''Passw0rd''" "u_locked alice = None" "u_pwd_change alice = 0"
  "u_id root_user = 2" "u_username root_user = ''admin''" "u_role root_user = ''admin''"
  "u_hash root_user = sample_hash ''admin''" "u_locked root_user = None"
  by (simp_all add: alice_def root_user_def)

lemma sample_db_ok [simp]: "sysdb_ok sample_db"
  by (simp add: sysdb_ok_def tbl_ok_def sample_db_def empty_sysdb_def)

lemma sample_unlocked [simp]:
  "fst (IsLocked now k (a_limiter sample_auth)) = False"
  "account_locked now (scan_user alice) = False"
  "account_locked now (scan_user root_user) = False"
  by (simp_all add: IsLocked_iff account_locked_def)

lemma sample_wired [simp]: "auth_wired sample_env sample_auth"
  by (simp add: auth_wired_def sample_auth_def NewSessionManager_def)

lemma sample_verify:
  "VerifyPassword sample_kdf pw (sample_hash pw') =
     Inr (sample_kdf pw' (b64_encode ''salt'') 3 65536 4 32 = sample_kdf pw (b64_encode ''salt'') 3 65536 4 32)"
proof -
  have "HashPassword sample_kdf (Some ''salt'') pw' = Inr (sample_hash pw')"
    by (simp add: HashPassword_Some sample_hash_def)
  then show ?thesis using VerifyPassword_hashed sample_primitives(1) by blast
qed

lemma sample_verify_right [simp]: "VerifyPassword sample_kdf pw (sample_hash pw) = Inr True"
  by (simp add: sample_verify)

lemma sample_verify_wrong [simp]:
  "VerifyPassword sample_kdf ''guess'' (sample_hash ''Passw0rd'') = Inr False"
  by (simp add: sample_verify sample_kdf_def)

lemma sample_sign [simp]:
  "cr_sign sample_crypto sample_secret (jwt_claims (a_jwt sample_auth) 0 1 ''alice'' ''developer'')
     = Inr ''h.c.s''"
  by (simp add: sample_crypto_def jwt_claims_def sample_claims_def numeric_date_def hour_def
      minute_def second_def)

section \<open>An engine, files and a server\<close>

text \<open>
  The engine keeps a database as the text of the statements run on it; pragmas leave no text, and
  the statement \<open>FAIL\<close> fails. A transaction works on a copy.
\<close>

definition sample_apply :: "string \<Rightarrow> session \<Rightarrow> session" where
  "sample_apply q se =
     (if prefix ''PRAGMA'' q then se
      else case se_tx se of
        None \<Rightarrow> se\<lparr>se_disk := (se_disk se)\<lparr>i_main := i_main (se_disk se) @ q\<rparr>\<rparr>
      | Some t \<Rightarrow> se\<lparr>se_tx := Some (t\<lparr>i_main := i_main t @ q\<rparr>)\<rparr>)"

definition sample_engine :: engine where
  "sample_engine =
     \<lparr>sq_exec = (\<lambda>q ps se. if q = ''FAIL'' then (Inl (Err ''near FAIL''), se)
                           else (Inr (1, 1), sample_apply q se)),
      sq_query = (\<lambda>q ps se. (Inr \<lparr>cu_columns = Inr [''x''], cu_rows = [Inr [VInt 1]], cu_err = None\<rparr>, se)),
      sq_begin = (\<lambda>se. (Inr (), se\<lparr>se_tx := Some (se_disk se)\<rparr>)),
      sq_commit = (\<lambda>se. (Inr (), se\<lparr>se_disk := (case se_tx se of None \<Rightarrow> se_disk se | Some t \<Rightarrow> t),
                                  se_tx := None\<rparr>)),
      sq_rollback = (\<lambda>se. (Inr (), se\<lparr>se_tx := None\<rparr>)),
      sq_close = (\<lambda>se. (Inr (), se\<lparr>se_disk := (se_disk se)
        \<lparr>i_main := i_main (se_disk se) @ i_wal (se_disk se), i_wal := []\<rparr>\<rparr>))\<rparr>"

text \<open>A toy GCM: the tag is sixteen zeros.\<close>

definition sample_gcm :: gcm where
  "sample_gcm = \<lparr>g_seal = (\<lambda>k n p. p @ replicate 16 CHR ''0''),
     g_open = (\<lambda>k n c. Some (take (length c - 16) c))\<rparr>"

definition sample_db_env :: db_env where
  "sample_db_env = \<lparr>de_engine = sample_engine, de_gcm = sample_gcm\<rparr>"

lemma sample_db_simps [simp]:
  "de_engine sample_db_env = sample_engine" "de_gcm sample_db_env = sample_gcm"
  by (simp_all add: sample_db_env_def)

lemma sample_gcm_ok: "gcm_ok sample_gcm"
  by (simp add: gcm_ok_def sample_gcm_def)

lemma sample_engine_ok:
  "pragmas_keep sample_engine" "closes_clean sample_engine" "opens_unchanged sample_engine wal y"
  by (auto simp: pragmas_keep_def closes_clean_def opens_unchanged_def sample_engine_def sample_apply_def
      open_pragmas_def)

definition sample_call :: call_env where
  "sample_call = \<lparr>ce_auth = sample_env, ce_db = sample_db_env, ce_now = 0, ce_dur = 5,
     ce_rnd = Some ''salt'', ce_nonce = Some (replicate 12 CHR ''n''), ce_stamp = ''20240101_000000''\<rparr>"

definition sample_handler :: handler where
  "sample_handler = \<lparr>hd_executor = NewExecutor (NewManager ''data'' False 1), hd_auth = sample_auth,
     hd_os = empty_os, hd_backup = NewBackupManager ''backups'' ''data'' None,
     hd_repl = Some (NewEngine ''primary'' [] [] 5)\<rparr>"

definition dev_user :: AuthUser where
  "dev_user = \<lparr>AU_ID = 1, AU_Username = ''alice'', AU_Role = ''developer'', AU_AuthType = AuthTypeJWT\<rparr>"

definition sample_request :: request where
  "sample_request = \<lparr>rq_method = ''POST'', rq_path = ''/query'', rq_headers = (\<lambda>_. []),
     rq_remote = ''10.0.0.1:5000'', rq_pathval = (\<lambda>_. []), rq_query = (\<lambda>_. []),
     rq_user = Some dev_user\<rparr>"

definition query_body :: "string \<Rightarrow> body" where
  "query_body q = \<lparr>b_ok = True, b_str = (\<lambda>_. [])(''query'' := q), b_list = (\<lambda>_. []), b_params = [],
     b_size = 100\<rparr>"

definition tx_body :: "string list \<Rightarrow> body" where
  "tx_body qs = \<lparr>b_ok = True, b_str = (\<lambda>_. []), b_list = (\<lambda>_. [])(''queries'' := qs), b_params = [],
     b_size = 100\<rparr>"

definition sample_server :: server where
  "sample_server = \<lparr>sv_handler = sample_handler, sv_userLimiter = NewRateLimiter 60 minute,
     sv_ipLimiter = NewRateLimiter 100 minute, sv_origins = [], sv_stopping = False\<rparr>"

lemma sample_handler_simps [simp]:
  "hd_auth sample_handler = sample_auth" "hd_os sample_handler = empty_os"
  "hd_executor sample_handler = NewExecutor (NewManager ''data'' False 1)"
  "\<not> audit_closed sample_db" "audit_ch sample_db = []" "rq_user sample_request = Some dev_user"
  "b_ok (query_body q)" "b_str (query_body q) ''query'' = q" "b_str (query_body q) ''database'' = []"
  "b_ok (tx_body qs)" "b_list (tx_body qs) ''queries'' = qs" "AU_Role dev_user = ''developer''"
  by (simp_all add: sample_handler_def sample_db_def empty_sysdb_def sample_request_def query_body_def
      tx_body_def dev_user_def)

definition sample_config :: config where
  "sample_config = \<lparr>cf_host = ''0.0.0.0'', cf_port = 9600, cf_read_only = False,
     cf_allowed_origins = [], cf_data_dir = ''data'', cf_wal_mode = False, cf_max_conns = 1,
     cf_auth_enabled = True, cf_jwt_secret = ''secret'', cf_tls_enabled = False,
     cf_cert_file = [], cf_key_file = [], cf_auto_cert = True, cf_enc_enabled = False,
     cf_enc_key = [], cf_enc_key_file = [], cf_backup_dir = ''backups'', cf_backup_schedule = [],
     cf_keep_count = 10, cf_role = ''primary'', cf_primary_url = [], cf_api_key = [],
     cf_poll_interval = 5\<rparr>"

lemma empty_sysdb_simps [simp]:
  "db_faults empty_sysdb = []" "t_rows (db_users empty_sysdb) = []"
  by (simp_all add: empty_sysdb_def)

lemma sample_New: "\<exists>sv. New sample_call [] [] (Inr empty_sysdb) None sample_config empty_os = Inr sv"
  by (simp add: New_def new_cipher_def sample_config_def NewAuthenticator_def server_auth_config_def
      NewJWTManager_def EnsureDefaultAdmin_def HashPassword_Some CreateUser_healthy
      sample_call_def InitReplicationState_def Let_def minute_def second_def)

lemma sample_server_ok: "server_ok sample_env sample_server"
  by (simp add: server_ok_def sample_server_def handler_ok_def auth_ok_def NewExecutor_def)

section \<open>Files of sample databases\<close>

definition sample_cipher :: cipher where
  "sample_cipher = \<lparr>ci_key = replicate 16 CHR ''k''\<rparr>"

text \<open>One file, and random bytes for two nonces.\<close>

definition one_file :: "string \<Rightarrow> string \<Rightarrow> os" where
  "one_file p d = \<lparr>os_names = [(p, 0)], os_dirs = [],
     os_data = (\<lambda>i. \<lparr>i_main = d, i_wal = [], i_mtime = 0\<rparr>), os_next = 1, os_faults = [],
     os_rand = [Some (replicate 12 CHR ''n''), Some (replicate 12 CHR ''o'')]\<rparr>"

definition sample_sealed :: string where
  "sample_sealed = replicate 12 CHR ''m'' @ ''text'' @ replicate 16 CHR ''0''"

definition sealed_manager :: manager where
  "sealed_manager = NewEncryptedManager ''data'' True 1 sample_cipher ''tmp''"

section \<open>A primary with a log\<close>

text \<open>The sample server with an API key of the administrator and two entries in its log.\<close>

definition logging_auth :: authenticator where
  "logging_auth =
     (let a1 = snd (GenerateAPIKey sample_env (Some ''key'') (Some ''n'') 0 2 ''replica'' sample_auth)
      in a1\<lparr>a_db := snd (LogReplication 1 ''app'' ''INSERT b''
                       (snd (LogReplication 0 ''app'' ''INSERT a'' (a_db a1))))\<rparr>)"

definition logging_server :: server where
  "logging_server = sample_server\<lparr>sv_handler := sample_handler\<lparr>hd_auth := logging_auth\<rparr>\<rparr>"

lemma logging_server_key:
  "AuthenticateRequest sample_env 0 ((\<lambda>_. [])(''X-API-Key'' := ''vl_'' @ hex_encode ''key''))
     (hd_auth (sv_handler logging_server)) =
   (Inr (auth_user AuthTypeAPIKey (scan_user root_user)), hd_auth (sv_handler logging_server))"
  by (simp add: logging_server_def logging_auth_def GenerateAPIKey_healthy LogReplication_def
      AuthenticateRequest_def authenticateAPIKey_def FindUserByAPIKey_def key_matches_def
      new_key_row_def auth_user_def scan_user_def account_locked_def APIKey_Hash_def query_row_def
      join_keys_def wrap_err_def Let_def root_user_def alice_def)

lemma logging_server_db:
  "t_rows (db_repl (a_db (hd_auth (sv_handler logging_server)))) =
     [\<lparr>re_id = 1, re_database = ''app'', re_query = ''INSERT a'', re_executed = 0\<rparr>,
      \<lparr>re_id = 2, re_database = ''app'', re_query = ''INSERT b'', re_executed = 1\<rparr>]"
  "t_seq (db_repl (a_db (hd_auth (sv_handler logging_server)))) = 2"
  "db_faults (a_db (hd_auth (sv_handler logging_server))) = []"
  by (simp_all add: logging_server_def logging_auth_def GenerateAPIKey_healthy LogReplication_def
      sample_db_def empty_sysdb_def)

lemma logging_server_ok: "sysdb_ok (a_db (hd_auth (sv_handler logging_server)))"
proof -
  have "sysdb_ok (a_db (snd (GenerateAPIKey sample_env (Some ''key'') (Some ''n'') 0 2 ''replica'' sample_auth)))"
    by (rule GenerateAPIKey_ok) simp_all
  then show ?thesis
    by (simp add: logging_server_def logging_auth_def Let_def LogReplication_ok)
qed

end
