(* ===== verification/AccessProperties.thy ===== *)
theory AccessProperties
  imports Samples
begin

text \<open>
  The properties of the components behind authentication and access: logins, tokens, API keys,
  sessions, permissions, the guard on statements, the limiters and the audit log.
\<close>

section \<open>Logins and tokens\<close>

text \<open>Claim C12.
  A login succeeds exactly when the name is not locked out, a stored user has that name and is
  not locked, the password verifies against the stored hash and a token can be signed; the
  response then carries that token and the stored identity, role and change-password flag.\<close>

theorem login_result:
  assumes "sysdb_ok (a_db a)" and "db_faults (a_db a) = []"
  shows "fst (Login e now u p a) = Inr resp \<longleftrightarrow>
     \<not> fst (IsLocked now (lock_key u) (a_limiter a)) \<and>
     (\<exists>r tok. stored_user a u r \<and> \<not> account_locked now (scan_user r) \<and>
        VerifyPassword (cr_kdf (en_crypto e)) p (u_hash r) = Inr True \<and>
        cr_sign (en_crypto e) (jm_secret (a_jwt a)) (jwt_claims (a_jwt a) now (u_id r) u (u_role r))
          = Inr tok \<and>
        resp = \<lparr>lr_Token = tok, lr_TokenType = ''bearer'',
                lr_User = \<lparr>AU_ID = u_id r, AU_Username = u, AU_Role = u_role r, AU_AuthType = AuthTypeJWT\<rparr>,
                lr_PasswordChangeRequired = (u_pwd_change r = 1)\<rparr>)"
  using assms by (rule Login_Inr_iff)

theorem login_result_witness:
  "fst (Login sample_env 0 ''alice'' ''Passw0rd'' sample_auth) = Inr
     \<lparr>lr_Token = ''h.c.s'', lr_TokenType = ''bearer'',
      lr_User = \<lparr>AU_ID = 1, AU_Username = ''alice'', AU_Role = ''developer'', AU_AuthType = AuthTypeJWT\<rparr>,
      lr_PasswordChangeRequired = False\<rparr>"
  by (subst login_result) (auto simp: stored_user_def intro!: exI [of _ alice])

text \<open>Claim C13.
  Brute force is stopped: when the first rejected login of a name is followed, within the lockout
  time, by others, exactly the first \<open>limit\<close> of them are evaluated and the rest refused; and once
  \<open>limit\<close> have failed, every login of that name is refused until the lockout time after the
  first one, the right password included.\<close>

theorem login_lockout:
  assumes "db_faults (a_db a) = []" and "\<forall>(t, p)\<in>set ((t0, p0) # cs). rejected e a u t p"
    and "ll_attempts (a_limiter a) (lock_key u) = None" and "1 \<le> ll_limit (a_limiter a)"
    and "\<forall>(t, p)\<in>set cs. t0 \<le> t \<and> t \<le> t0 + ll_lockout (a_limiter a)"
  shows "login_run e u a ((t0, p0) # cs) =
       replicate (min (Suc (length cs)) (nat (ll_limit (a_limiter a)))) (Inl invalid_credentials)
       @ replicate (Suc (length cs) - nat (ll_limit (a_limiter a))) (Inl too_many) \<and>
     (ll_limit (a_limiter a) \<le> 1 + int (length cs) \<longrightarrow>
       (\<forall>now p. now \<le> t0 + ll_lockout (a_limiter a) \<longrightarrow>
          fst (Login e now u p (login_after e u a ((t0, p0) # cs))) = Inl too_many))"
proof (intro conjI impI allI)
  fix now p
  assume "ll_limit (a_limiter a) \<le> 1 + int (length cs)" and "now \<le> t0 + ll_lockout (a_limiter a)"
  then show "fst (Login e now u p (login_after e u a ((t0, p0) # cs))) = Inl too_many"
    using assms by (intro lockout_after) auto
qed (rule lockout_run [OF assms])

theorem login_lockout_witness:
  "login_run sample_env ''alice'' sample_auth [(0, ''guess''), (1, ''guess''), (2, ''guess'')] =
     [Inl invalid_credentials, Inl invalid_credentials, Inl too_many] \<and>
   fst (Login sample_env 3 ''alice'' ''Passw0rd''
     (login_after sample_env ''alice'' sample_auth [(0, ''guess''), (1, ''guess''), (2, ''guess'')]))
     = Inl too_many"
  using login_lockout [of sample_auth 0 "''guess''" "[(1, ''guess''), (2, ''guess'')]" sample_env "''alice''"]
  by (simp add: rejected_def minute_def second_def numeral_2_eq_2)

text \<open>Claim C14.
  The life of a token: one issued at time \<open>t\<close> authenticates as the identity and role it was issued
  for until it expires, and not afterwards, in every later state of the authenticator: whether the
  user has meanwhile been demoted, renamed, locked or deleted makes no difference.\<close>

theorem token_lifecycle:
  assumes "jwt_accepts (en_crypto e)"
    and "JWT_Generate (en_crypto e) (a_jwt a) t i u role = Inr tok"
    and "(auth_step e)\<^sup>*\<^sup>* a b"
    and "h ''X-API-Key'' = []" and "h ''Authorization'' = ''Bearer '' @ tok"
  shows "fst (AuthenticateRequest e now h b) =
       Inr \<lparr>AU_ID = i, AU_Username = u, AU_Role = role, AU_AuthType = AuthTypeJWT\<rparr> \<longleftrightarrow>
     now < numeric_date (t + jm_duration (a_jwt a))"
proof -
  have "cr_sign (en_crypto e) (jm_secret (a_jwt b)) (jwt_claims (a_jwt b) t i u role) = Inr tok"
    using assms(2) auth_steps_jwt [OF assms(3)]
    by (cases "cr_sign (en_crypto e) (jm_secret (a_jwt a)) (jwt_claims (a_jwt a) t i u role)")
      (simp_all add: JWT_Generate_def)
  note tok = token_authenticates [OF assms(1) this assms(4,5), of now, unfolded auth_steps_jwt [OF assms(3)]]
  show ?thesis
    using tok by (cases "now < numeric_date (t + jm_duration (a_jwt a))") auto
qed

theorem token_lifecycle_witness:
  "fst (AuthenticateRequest sample_env 5 ((\<lambda>_. [])(''Authorization'' := ''Bearer h.c.s''))
     (snd (Auth_DeleteUser 1 sample_auth))) =
   Inr \<lparr>AU_ID = 1, AU_Username = ''alice'', AU_Role = ''developer'', AU_AuthType = AuthTypeJWT\<rparr>"
proof -
  have "(auth_step sample_env)\<^sup>*\<^sup>* sample_auth (snd (Auth_DeleteUser 1 sample_auth))"
    by (intro r_into_rtranclp auth_step.delete)
  moreover have "JWT_Generate (en_crypto sample_env) (a_jwt sample_auth) 0 1 ''alice'' ''developer'' = Inr ''h.c.s''"
    by (simp add: JWT_Generate_def)
  ultimately show ?thesis
    by (subst token_lifecycle [OF _ _ _ _ , of sample_env sample_auth 0 1 "''alice''" "''developer''" "''h.c.s''"])
      (simp_all add: sample_primitives numeric_date_def hour_def minute_def second_def)
qed

text \<open>Claim C15.
  Once deleting a user has succeeded, no API key and no session authenticates as that id again,
  after any operations of the authenticator: ids are never given out twice.\<close>

theorem deleted_user_never_authenticates:
  assumes "sysdb_ok (a_db a)" and "auth_wired e a" and "i \<le> t_seq (db_users (a_db a))"
    and "Auth_DeleteUser i a = (Inr (), a1)" and "(auth_step e)\<^sup>*\<^sup>* a1 b"
    and "AuthenticateRequest e now h b = (Inr au, c)" and "AU_AuthType au \<noteq> AuthTypeJWT"
  shows "AU_ID au \<noteq> i"
proof -
  have step: "auth_step e a a1" using auth_step.delete [of e a i] assms(4) by simp
  have "sysdb_steps (a_db a) (a_db a1)" using auth_step_db [OF step assms(2)] .
  then have "i \<le> t_seq (db_users (a_db a1))"
    using user_ids.steps_last assms(1,3) by force
  then show ?thesis
    using deleted_never_authenticates [OF _ _ _ Auth_DeleteUser_removes [OF assms(4)] assms(5-7)]
      auth_step_ok [OF step] assms(1,2) by blast
qed

theorem deleted_user_never_authenticates_witness:
  "\<exists>au c. AuthenticateRequest sample_env 5 ((\<lambda>_. [])(''X-API-Key'' := ''vl_'' @ hex_encode ''key''))
     (snd (GenerateAPIKey sample_env (Some ''key'') (Some ''n'') 0 2 ''ci''
       (snd (Auth_DeleteUser 1 sample_auth)))) = (Inr au, c) \<and> AU_ID au \<noteq> 1"
proof -
  let ?a1 = "snd (Auth_DeleteUser 1 sample_auth)"
  let ?g = "GenerateAPIKey sample_env (Some ''key'') (Some ''n'') 0 2 ''ci'' ?a1"
  let ?h = "(\<lambda>_. [])(''X-API-Key'' := ''vl_'' @ hex_encode ''key'')"
  have a1: "Auth_DeleteUser 1 sample_auth = (Inr (), ?a1)" "db_faults (a_db ?a1) = []"
      "t_rows (db_keys (a_db ?a1)) = []" "root_user \<in> set (t_rows (db_users (a_db ?a1)))"
    by (simp_all add: Auth_DeleteUser_def DeleteUser_def)
  have ok: "sysdb_ok (a_db ?a1)" by (rule Auth_DeleteUser_ok) simp
  have gen: "?g = (Inr (''vl_'' @ hex_encode ''key''), snd ?g)"
    by (simp add: GenerateAPIKey_healthy a1(2))
  have auth: "AuthenticateRequest sample_env 5 ?h (snd ?g) =
      (Inr (auth_user AuthTypeAPIKey (scan_user root_user)), snd ?g)"
    using api_key_authenticates [OF ok a1(2,4), of sample_env "''vl_'' @ hex_encode ''key''" "''key''" "''n''" 0 "''ci''" "snd ?g" ?h 5] a1(3) gen
    by simp
  have "(auth_step sample_env)\<^sup>*\<^sup>* ?a1 (snd ?g)"
    by (intro r_into_rtranclp auth_step.gen_key) (simp add: Auth_DeleteUser_def DeleteUser_def)
  then have "AU_ID (auth_user AuthTypeAPIKey (scan_user root_user)) \<noteq> 1"
    by (intro deleted_user_never_authenticates [OF _ _ _ a1(1) _ auth]) (simp_all add: auth_user_def)
  then show ?thesis using auth by blast
qed

section \<open>Accounts and passwords\<close>

text \<open>Claim C16.
  After an account was created, a login with that name succeeds, as long as the name is not locked
  out, exactly with passwords that the key derivation does not tell apart from the one given.\<close>

theorem created_account_logs_in:
  assumes "sysdb_ok (a_db a)" and "db_faults (a_db a) = []" and "signs e a"
    and "kdf_length (cr_kdf (en_crypto e))"
    and "\<not> fst (IsLocked now (lock_key u) (a_limiter a))"
    and "Auth_CreateUser e (Some rnd) t u pw role a = (Inr user, a')"
  shows "(\<exists>resp. fst (Login e now u pw' a') = Inr resp) \<longleftrightarrow>
     cr_kdf (en_crypto e) pw' (b64_encode rnd) 3 65536 4 32 =
     cr_kdf (en_crypto e) pw (b64_encode rnd) 3 65536 4 32"
  using assms by (rule created_user_logs_in)

theorem created_account_logs_in_witness:
  "(\<exists>resp. fst (Login signing_env 5 ''bob'' ''Passw0rd''
     (snd (Auth_CreateUser signing_env (Some ''salt'') 0 ''bob'' ''Passw0rd'' ''developer'' sample_auth))) = Inr resp) \<and>
   (\<nexists>resp. fst (Login signing_env 5 ''bob'' ''Password''
     (snd (Auth_CreateUser signing_env (Some ''salt'') 0 ''bob'' ''Passw0rd'' ''developer'' sample_auth))) = Inr resp)"
proof -
  let ?c = "Auth_CreateUser signing_env (Some ''salt'') 0 ''bob'' ''Passw0rd'' ''developer'' sample_auth"
  have "ValidatePasswordStrength ''Passw0rd'' = Inr ()" by code_simp
  then have "\<exists>user. fst ?c = Inr user"
    by (simp add: Auth_CreateUser_def HashPassword_Some CreateUser_healthy)
  then obtain user where user: "?c = (Inr user, snd ?c)" by (metis prod.collapse)
  have signs: "signs signing_env sample_auth"
    by (simp add: signs_def signing_env_def)
  note claim = created_account_logs_in [OF _ _ signs _ _ user]
  show ?thesis
    using claim [of 5 "''Passw0rd''"] claim [of 5 "''Password''"]
    by (simp add: sample_primitives sample_kdf_def)
qed

text \<open>Claim C17.
  After a user has changed the own password, logins succeed exactly with the new password (up to
  the key derivation), no longer with the old one.\<close>

theorem changed_password_replaces_old:
  assumes "sysdb_ok (a_db a)" and "db_faults (a_db a) = []" and "signs e a"
    and "kdf_length (cr_kdf (en_crypto e))" and "stored_user a u r"
    and "\<not> fst (IsLocked now (lock_key u) (a_limiter a))"
    and "\<not> account_locked now (scan_user r)"
    and "ChangeOwnPassword e (Some rnd) (u_id r) old new a = (Inr (), a')"
  shows "(\<exists>resp. fst (Login e now u pw' a') = Inr resp) \<longleftrightarrow>
     cr_kdf (en_crypto e) pw' (b64_encode rnd) 3 65536 4 32 =
     cr_kdf (en_crypto e) new (b64_encode rnd) 3 65536 4 32"
  using assms by (rule changed_password_logs_in)

theorem changed_password_replaces_old_witness:
  "(\<exists>resp. fst (Login signing_env 5 ''alice'' ''NewPass1''
     (snd (ChangeOwnPassword signing_env (Some ''pepper'') 1 ''Passw0rd'' ''NewPass1'' sample_auth))) = Inr resp) \<and>
   (\<nexists>resp. fst (Login signing_env 5 ''alice'' ''Passw0rd''
     (snd (ChangeOwnPassword signing_env (Some ''pepper'') 1 ''Passw0rd'' ''NewPass1'' sample_auth))) = Inr resp)"
proof -
  let ?c = "ChangeOwnPassword signing_env (Some ''pepper'') 1 ''Passw0rd'' ''NewPass1'' sample_auth"
  obtain h where h: "HashPassword (cr_kdf (en_crypto signing_env)) (Some ''pepper'') ''NewPass1'' = Inr h"
    by (simp add: HashPassword_Some)
  have "ValidatePasswordStrength ''NewPass1'' = Inr ()" by code_simp
  then have c: "?c = (Inr (), snd ?c)"
    using ChangeOwnPassword_healthy [of sample_auth alice signing_env "''Passw0rd''" "''NewPass1''" "Some ''pepper''" h] h
    by (simp add: sample_db_ok)
  have signs: "signs signing_env sample_auth"
    by (simp add: signs_def signing_env_def)
  note claim = changed_password_replaces_old [of sample_auth signing_env "''alice''" alice _ "''pepper''" "''Passw0rd''" "''NewPass1''" "snd ?c"]
  show ?thesis
    using claim [of 5 "''NewPass1''"] claim [of 5 "''Passw0rd''"] c signs
    by (simp add: sample_primitives sample_kdf_def stored_user_def)
qed

section \<open>API keys and sessions\<close>

text \<open>Claim C18.
  A generated API key authenticates as the user it was made for, with that user's current role,
  while the account is not locked; a locked account is refused.\<close>

theorem generated_key_authenticates:
  assumes "sysdb_ok (a_db a)" and "db_faults (a_db a) = []"
    and "r \<in> set (t_rows (db_users (a_db a)))"
    and "\<forall>k\<in>set (t_rows (db_keys (a_db a))). k_hash k \<noteq> APIKey_Hash (en_crypto e) raw"
    and "GenerateAPIKey e (Some bytes) (Some nonce) t (u_id r) name a = (Inr raw, a')"
    and "h ''X-API-Key'' = raw"
  shows "fst (AuthenticateRequest e now h a') =
     (if account_locked now (scan_user r) then Inl (Err ''user account is locked'')
      else Inr \<lparr>AU_ID = u_id r, AU_Username = u_username r, AU_Role = u_role r,
                 AU_AuthType = AuthTypeAPIKey\<rparr>)"
  using api_key_authenticates [of a r e raw bytes nonce t name a' h now] assms
  by (simp add: auth_user_def)

theorem generated_key_authenticates_witness:
  "fst (AuthenticateRequest sample_env 5 ((\<lambda>_. [])(''X-API-Key'' := ''vl_'' @ hex_encode ''key''))
     (snd (GenerateAPIKey sample_env (Some ''key'') (Some ''n'') 0 1 ''ci'' sample_auth))) =
   Inr \<lparr>AU_ID = 1, AU_Username = ''alice'', AU_Role = ''developer'', AU_AuthType = AuthTypeAPIKey\<rparr>"
  using generated_key_authenticates [of sample_auth alice sample_env "''vl_'' @ hex_encode ''key''" "''key''" "''n''"
      0 "''ci''" "snd (GenerateAPIKey sample_env (Some ''key'') (Some ''n'') 0 1 ''ci'' sample_auth)"
      "(\<lambda>_. [])(''X-API-Key'' := ''vl_'' @ hex_encode ''key'')" 5]
  by (simp add: GenerateAPIKey_healthy)

text \<open>Claim C19.
  A generated key can be revealed again, in full, with its owner's password, and with no other:
  what \<open>decryptRawKey\<close> returns is what \<open>encryptRawKey\<close> was given.\<close>

theorem generated_key_reveals:
  assumes "sysdb_ok (a_db a)" and "db_faults (a_db a) = []"
    and "r \<in> set (t_rows (db_users (a_db a)))" and "gcm_opens (en_crypto e)"
    and "length nonce = gcm_NonceSize"
    and "GenerateAPIKey e (Some bytes) (Some nonce) t (u_id r) name a = (Inr raw, a')"
    and "VerifyPassword (cr_kdf (en_crypto e)) pw (u_hash r) = Inr ok"
  shows "RevealAPIKey e (t_seq (db_keys (a_db a)) + 1) pw a' =
     ((if ok then Inr raw else Inl (Err ''invalid password'')), a')"
  using assms by (rule api_key_reveals)

theorem generated_key_reveals_witness:
  "fst (RevealAPIKey sample_env 1 ''Passw0rd''
     (snd (GenerateAPIKey sample_env (Some ''key'') (Some ''0123456789ab'') 0 1 ''ci'' sample_auth))) =
     Inr (''vl_'' @ hex_encode ''key'') \<and>
   fst (RevealAPIKey sample_env 1 ''guess''
     (snd (GenerateAPIKey sample_env (Some ''key'') (Some ''0123456789ab'') 0 1 ''ci'' sample_auth))) =
     Inl (Err ''invalid password'')"
proof -
  let ?g = "GenerateAPIKey sample_env (Some ''key'') (Some ''0123456789ab'') 0 1 ''ci'' sample_auth"
  obtain a' where g: "?g = (Inr (''vl_'' @ hex_encode ''key''), a')"
    by (simp add: GenerateAPIKey_healthy)
  note claim = generated_key_reveals [of sample_auth alice sample_env "''0123456789ab''" "''key''" 0 "''ci''"
      "''vl_'' @ hex_encode ''key''" a']
  show ?thesis
    unfolding g snd_conv using claim [of "''Passw0rd''" True] claim [of "''guess''" False] g
    by (simp add: sample_primitives gcm_NonceSize_def)
qed

text \<open>Claim C20.
  The life of a session on the system database: the token generated validates as its user exactly
  while the expiry, one session duration after the login, is later than the clock; and once
  invalidated it validates as nobody.\<close>

theorem session_lifecycle:
  assumes "sm_store m = sysdb_sessions later" and "db_faults s = []"
    and "Session_Generate c m rnd t u s = (Inr (tok, e), s1)"
    and "Session_Invalidate c m tok s1 = (Inr (), s2)"
  shows "e = t + sm_duration m \<and>
     (fst (Session_Validate c m now tok s1) = Inr u \<longleftrightarrow> later e now) \<and>
     (\<forall>v. fst (Session_Validate c m now tok s2) \<noteq> Inr v)"
  using sess.generate_then_validate [OF assms(1-3), of now]
    sess.invalidate_then_validate [OF assms(1) _ assms(4)] by simp

theorem session_lifecycle_witness:
  "fst (Session_Validate sample_crypto (a_session sample_auth) 7
     (hex_encode ''bytes'')
     (snd (Session_Generate sample_crypto (a_session sample_auth) (Some ''bytes'') 0 1 sample_db))) = Inr 1"
proof -
  let ?m = "a_session sample_auth"
  let ?g = "Session_Generate sample_crypto ?m (Some ''bytes'') 0 1 sample_db"
  have m: "sm_store ?m = sysdb_sessions (\<lambda>t now. now < t)" "sm_duration ?m = 24 * hour"
    by (simp_all add: sample_auth_def NewSessionManager_def sample_env_def hour_def minute_def second_def)
  have g: "?g = (Inr (hex_encode ''bytes'', 24 * hour), snd ?g)"
    using m by (simp add: Session_Generate_def sysdb_sessions_def CreateSession_def Let_def)
  have faults: "db_faults (snd ?g) = []"
    using m by (simp add: Session_Generate_def sysdb_sessions_def CreateSession_def Let_def)
  have "Session_Invalidate sample_crypto ?m (hex_encode ''bytes'') (snd ?g) =
      (Inr (), snd (Session_Invalidate sample_crypto ?m (hex_encode ''bytes'') (snd ?g)))"
    using m faults by (simp add: Session_Invalidate_def sysdb_sessions_def DeleteSession_healthy)
  from session_lifecycle [OF m(1) _ g this, of 7] show ?thesis
    by (simp add: hour_def minute_def second_def)
qed

section \<open>Limits\<close>

text \<open>Claim C21.
  The sliding-window limiter against its specification: on a clock that does not run backwards,
  it admits exactly the calls of which fewer than \<open>limit\<close> earlier admitted ones of the same key lie
  in the window before it, although it forgets all other times.\<close>

theorem limiter_refines_log:
  assumes "sorted (map fst cs)"
  shows "allow_run (NewRateLimiter limit window) cs = fst (spec_run limit window [] cs)"
proof (cases cs)
  case (Cons c cs')
  then have "sorted (fst c # map fst cs)" using assms by auto
  from allow_run_spec [OF agrees_new this] show ?thesis by (simp add: NewRateLimiter_def)
qed simp

theorem limiter_refines_log_witness:
  "allow_run (NewRateLimiter 2 10) [(0, ''a''), (1, ''b''), (2, ''a''), (3, ''a''), (11, ''a''), (12, ''a''), (12, ''a'')] =
     [True, True, True, False, True, True, False]"
proof -
  have "fst (spec_run 2 10 [] [(0, ''a''), (1, ''b''), (2, ''a''), (3, ''a''), (11, ''a''), (12, ''a''), (12, ''a'')]) =
     [True, True, True, False, True, True, False]"
    by code_simp
  then show ?thesis by (subst limiter_refines_log) simp_all
qed

text \<open>Claim C22.
  No window, wherever it ends, ever holds more than \<open>limit\<close> admitted calls of one key.\<close>

theorem limiter_bounds_every_window:
  assumes "0 \<le> limit" and "sorted (map fst cs)"
  shows "int (log_count (x - window) x key
     (map fst (filter snd (zip cs (allow_run (NewRateLimiter limit window) cs))))) \<le> limit"
proof -
  have admitted: "snd (spec_run limit window hist cs) =
      hist @ map fst (filter snd (zip cs (fst (spec_run limit window hist cs))))" for hist
    by (induction cs arbitrary: hist) (auto simp: Let_def case_prod_beta)
  have "log_bounded limit window (snd (spec_run limit window [] cs))"
  proof (cases cs)
    case (Cons c cs')
    have "log_bounded limit window []" using assms(1) by (simp add: log_bounded_def log_count_def)
    moreover have "sorted (fst c # map fst cs)" using Cons assms(2) by auto
    ultimately show ?thesis by (intro spec_run_bounded) auto
  qed (use assms in \<open>simp add: log_bounded_def log_count_def\<close>)
  then show ?thesis
    using admitted [of "[]"] by (simp add: limiter_refines_log [OF assms(2)] log_bounded_def)
qed

theorem limiter_bounds_every_window_witness:
  "int (log_count (12 - 10) 12 ''a'' (map fst (filter snd (zip
     [(0, ''a''), (2, ''a''), (3, ''a''), (11, ''a''), (12, ''a''), (12, ''a'')]
     (allow_run (NewRateLimiter 2 10) [(0, ''a''), (2, ''a''), (3, ''a''), (11, ''a''), (12, ''a''), (12, ''a'')]))))) \<le> 2"
  by (rule limiter_bounds_every_window) simp_all

section \<open>Permissions and the guard on statements\<close>

text \<open>Claim C23.
  The four classifications of a statement agree: it counts as a read for the executor, is not
  logged for the replicas, and needs the permission to query, on exactly the same statements,
  whatever white space and case it is written with.\<close>

theorem classifications_agree:
  "(is_read_query (trim_space q) \<longleftrightarrow> \<not> IsWriteQuery q) \<and>
   (\<not> IsWriteQuery q \<longleftrightarrow> RequiredPermission (IdentifyType q) = Some PermQuery)"
  by (simp add: is_read_query_iff IsWriteQuery_iff RequiredPermission_query_iff)

text \<open>Claim C24.
  The guard refuses a statement to everybody, as dangerous and with 403, exactly when one of five
  phrases occurs in it after trimming and in upper case, anywhere and with exactly one space. So
  \<open>ALTER TABLE\<close>, which the documentation lists as blocked, is not among them; \<open>DROP  TABLE\<close> with two
  spaces is not recognised; and \<open>ATTACH\<close> without the optional word \<open>DATABASE\<close> passes for every user.\<close>

theorem blocked_statements:
  "((\<forall>user. \<exists>msg. query_guard sfx user q = Some (''dangerous_query'' @ sfx, write_error 403 msg)) \<longleftrightarrow>
    (\<exists>w u v. w \<in> {''DROP DATABASE'', ''DROP TABLE'', ''DELETE FROM SQLITE_MASTER'', ''ATTACH DATABASE'',
                    ''DETACH DATABASE''} \<and> to_upper (trim_space q) = u @ w @ v)) \<and>
   query_guard sfx None ''ALTER TABLE t ADD c'' = None \<and> query_guard sfx None ''DROP  TABLE t'' = None \<and>
   (\<forall>user. query_guard sfx user ''ATTACH ? AS s'' = None)"
proof -
  obtain d reason where d: "CheckDangerous q = (d, reason)" by fastforce
  have "(\<forall>user. \<exists>msg. query_guard sfx user q = Some (''dangerous_query'' @ sfx, write_error 403 msg)) \<longleftrightarrow> d"
    using d by (cases d) (auto simp: query_guard_def Let_def dest: spec [of _ None] split: option.splits)
  moreover have passes: "query_guard sfx None q' = None" if "\<not> fst (CheckDangerous q')" for q'
    using that by (cases "CheckDangerous q'") (auto simp: query_guard_def Let_def split: option.split)
  have "query_guard sfx None ''ALTER TABLE t ADD c'' = None" "query_guard sfx None ''DROP  TABLE t'' = None"
    by (rule passes, code_simp)+
  moreover have "danger_of ''ATTACH ? AS s'' \<noteq> DangerBlock" "IdentifyType ''ATTACH ? AS s'' = TypeOther"
    "\<not> fst (CheckDangerous ''ATTACH ? AS s'')"
    by code_simp+
  then have "query_guard sfx user ''ATTACH ? AS s'' = None" for user
    using passes by (cases user) (simp_all add: query_guard_None_iff)
  ultimately show ?thesis using CheckDangerous_words [of q] d by simp
qed

text \<open>Claim C25.
  Hashing and verifying fit together: the encoded hash of a password verifies exactly with the
  passwords that the key derivation maps to the same key under the salt drawn.\<close>

theorem hash_verifies:
  assumes "kdf_length kdf" and "HashPassword kdf (Some rnd) pw = Inr h"
  shows "VerifyPassword kdf pw' h =
     Inr (kdf pw (b64_encode rnd) 3 65536 4 32 = kdf pw' (b64_encode rnd) 3 65536 4 32)"
  using VerifyPassword_hashed [OF assms] .

theorem hash_verifies_witness:
  "VerifyPassword sample_kdf ''Passw0rd''
     (projr (HashPassword sample_kdf (Some ''salt'') ''Passw0rd'')) = Inr True \<and>
   VerifyPassword sample_kdf ''guess''
     (projr (HashPassword sample_kdf (Some ''salt'') ''Passw0rd'')) = Inr False"
proof -
  obtain h where h: "HashPassword sample_kdf (Some ''salt'') ''Passw0rd'' = Inr h"
    by (simp add: HashPassword_Some)
  show ?thesis
    using hash_verifies [OF sample_primitives(1) h] by (simp add: h sample_kdf_def)
qed

section \<open>The audit log and the ids\<close>

text \<open>Claim C26.
  The audit queue loses and reorders nothing it has accepted: in every run of senders, flushes,
  the worker and the closing, what was accepted is what the worker has taken followed by what is
  queued; the rows written are exactly the entries taken, in order; the flushes answered are
  those whose marker was taken; and the queue never holds more than its capacity.\<close>

theorem audit_queue_is_fifo:
  assumes "audit_init s0" and "audit_step\<^sup>*\<^sup>* ([], s0) (accepted, s)"
  shows "(\<exists>taken. accepted = taken @ audit_ch s \<and>
       map row_content (t_rows (db_audit s)) = to_rows taken \<and>
       set (audit_flushed s) = markers taken) \<and>
     length (audit_ch s) \<le> audit_cap"
  using audit_reach_inv [OF assms] by (simp add: audit_inv_def)

theorem audit_queue_is_fifo_witness:
  "\<exists>taken. [flush_marker 1] = taken @ audit_ch (empty_sysdb\<lparr>audit_flushed := [1]\<rparr>) \<and>
     {1} = markers taken"
proof -
  have a: "audit_step ([], empty_sysdb) ([] @ [flush_marker 1], empty_sysdb\<lparr>audit_ch := [flush_marker 1]\<rparr>)"
    by (rule audit_step.flush) (simp_all add: flush_send_def empty_sysdb_def audit_cap_def)
  have "audit_step ([flush_marker 1], empty_sysdb\<lparr>audit_ch := [flush_marker 1]\<rparr>)
      ([flush_marker 1], empty_sysdb\<lparr>audit_flushed := [1]\<rparr>)"
    by (rule audit_step.work [where now = 0])
      (simp add: audit_work_def flush_marker_def empty_sysdb_def)
  with a have "audit_step\<^sup>*\<^sup>* ([], empty_sysdb) ([flush_marker 1], empty_sysdb\<lparr>audit_flushed := [1]\<rparr>)"
    by (simp add: converse_rtranclp_into_rtranclp)
  from audit_queue_is_fifo [OF _ this] show ?thesis
    by (simp add: audit_init_def empty_sysdb_def)
qed

text \<open>Claim C27.
  Closing the audit log terminates and loses nothing: once the channel is closed, the worker
  reaches its end in as many rounds as entries are queued and one more, and then every entry ever
  accepted is a row of the table, in order.\<close>

theorem audit_close_drains:
  assumes "audit_init s0" and "audit_step\<^sup>*\<^sup>* ([], s0) (accepted, s)"
    and "audit_closed s" and "\<not> audit_done s"
  shows "audit_done (audit_drain (Suc (length (audit_ch s))) now s) \<and>
     map row_content (t_rows (db_audit (audit_drain (Suc (length (audit_ch s))) now s))) = to_rows accepted"
proof -
  let ?t = "audit_drain (Suc (length (audit_ch s))) now s"
  have inv: "audit_inv (accepted, s)" using assms(1,2) by (rule audit_reach_inv)
  then have fin: "audit_done ?t" using assms(3,4) by (rule audit_drain_done)
  have "audit_inv (accepted, ?t)" using inv by (rule audit_drain_inv)
  then have "map row_content (t_rows (db_audit ?t)) = to_rows accepted"
    using fin by (auto simp: audit_inv_def)
  with fin show ?thesis ..
qed

theorem audit_close_drains_witness:
  "\<exists>s. map row_content (t_rows (db_audit (audit_drain 2 5 s))) =
     [(Some 1, ''alice'', ''10.0.0.1'', ''SELECT 1'', ''/query'', ''success'')]"
proof -
  let ?e = "\<lparr>ae_user = Some 1, ae_username = ''alice'', ae_ip = ''10.0.0.1'', ae_query = ''SELECT 1'',
     ae_endpoint = ''/query'', ae_status = ''success'', ae_flusher = None\<rparr>"
  let ?s1 = "snd (LogAudit (Some 1) ''alice'' ''10.0.0.1'' ''SELECT 1'' ''/query'' ''success'' empty_sysdb)"
  let ?s2 = "snd (close_audit ?s1)"
  have a: "audit_step ([], empty_sysdb) ([?e], ?s1)"
    using audit_step.accept [of empty_sysdb ?e "[]"] by (simp add: empty_sysdb_def audit_cap_def)
  have s1: "audit_ch ?s1 = [?e]" "\<not> audit_closed ?s1" "\<not> audit_done ?s1"
    by (simp_all add: LogAudit_def empty_sysdb_def audit_cap_def)
  have "audit_step ([?e], ?s1) ([?e], ?s2)" using s1(2) by (rule audit_step.close)
  with a have run: "audit_step\<^sup>*\<^sup>* ([], empty_sysdb) ([?e], ?s2)"
    by (simp add: converse_rtranclp_into_rtranclp)
  have s2: "audit_ch ?s2 = [?e]" "audit_closed ?s2" "\<not> audit_done ?s2"
    using s1 by (simp_all add: close_audit_def)
  have "audit_init empty_sysdb" by (simp add: audit_init_def empty_sysdb_def)
  from audit_close_drains [OF this run s2(2,3), of 5]
  have "map row_content (t_rows (db_audit (audit_drain 2 5 ?s2))) = to_rows [?e]"
    unfolding s2(1) by (simp add: numeral_2_eq_2)
  then show ?thesis by (intro exI [of _ ?s2]) (simp add: to_rows_def audit_content_def)
qed

text \<open>Claim C28.
  Ids are never given out twice: a user id, an API key id or a position of the replication log
  that was given out and is no longer in use stays unused, whatever statements run later.\<close>

theorem ids_never_reused:
  assumes "sysdb_ok s" and "sysdb_steps s t"
  shows "(i \<le> t_seq (db_users s) \<and> i \<notin> u_id ` set (t_rows (db_users s)) \<longrightarrow>
       i \<notin> u_id ` set (t_rows (db_users t))) \<and>
     (i \<le> t_seq (db_keys s) \<and> i \<notin> k_id ` set (t_rows (db_keys s)) \<longrightarrow>
       i \<notin> k_id ` set (t_rows (db_keys t))) \<and>
     (i \<le> t_seq (db_repl s) \<and> i \<notin> re_id ` set (t_rows (db_repl s)) \<longrightarrow>
       i \<notin> re_id ` set (t_rows (db_repl t)))"
  using user_ids.dead_id_stays_dead [OF assms(2,1)] key_ids.dead_id_stays_dead [OF assms(2,1)]
    repl_ids.dead_id_stays_dead [OF assms(2,1)]
  by (simp add: ids_of_def)

theorem ids_never_reused_witness:
  "1 \<notin> u_id ` set (t_rows (db_users (snd (CreateUser 5 ''alice'' ''h'' ''admin'' (snd (DeleteUser 1 sample_db))))))"
proof -
  let ?s = "snd (DeleteUser 1 sample_db)"
  have "sysdb_ok ?s" by (rule DeleteUser_ok) simp
  moreover have "sysdb_steps ?s (snd (CreateUser 5 ''alice'' ''h'' ''admin'' ?s))"
    by (intro r_into_rtranclp sysdb_step.create_user)
  moreover have "1 \<notin> u_id ` set (t_rows (db_users ?s))" and "1 \<le> t_seq (db_users ?s)"
    by (auto simp: DeleteUser_def)
  ultimately show ?thesis
    using ids_never_reused [of ?s "snd (CreateUser 5 ''alice'' ''h'' ''admin'' ?s)" 1] by blast
qed

end
