(* ===== verification/SchemaMigration.thy ===== *)
theory SchemaMigration
  imports AuditQueue GoStrings
begin

text \<open>
  Opening the system database, \<open>NewSystemDB\<close> and \<open>migrate\<close> of \<open>internal/database/system.go\<close>: the
  catalogue of the SQLite file (its tables with their columns, its indexes, the rows of
  \<open>schema_migrations\<close>), the statements of the three migrations as data, their execution
  statement by statement as the driver does it, and the loop that applies what is not yet
  recorded. As in \<open>SystemDb\<close>, whether the engine fails a statement is a script of faults.
\<close>

section \<open>The catalogue and its statements\<close>

text \<open>A column is its name and its declaration; an index is its name, table and column.\<close>

record table_def =
  td_name :: string
  td_cols :: "(string \<times> string) list"
  td_constraints :: "string list"

record catalog =
  ca_tables :: "table_def list"
  ca_indexes :: "(string \<times> string \<times> string) list"
  ca_versions :: "(int \<times> string \<times> int) list"
  ca_faults :: "gerr option list"

datatype ddl =
    CreateTable string "(string \<times> string) list" "string list"
  | CreateIndex string string string
  | AddColumn string string string

definition find_table :: "string \<Rightarrow> catalog \<Rightarrow> table_def option" where
  "find_table t c = find (\<lambda>d. td_name d = t) (ca_tables c)"

definition has_column :: "string \<Rightarrow> string \<Rightarrow> catalog \<Rightarrow> bool" where
  "has_column t col c =
     (case find_table t c of None \<Rightarrow> False | Some d \<Rightarrow> col \<in> fst ` set (td_cols d))"

text \<open>One statement that the engine runs; every \<open>CREATE\<close> of the schema says \<open>IF NOT EXISTS\<close>.\<close>

fun run_ddl :: "ddl \<Rightarrow> catalog \<Rightarrow> unit res \<times> catalog" where
  "run_ddl (CreateTable t cols cons) c =
     (case find_table t c of
        Some _ \<Rightarrow> (Inr (), c)
      | None \<Rightarrow> (Inr (), c\<lparr>ca_tables := ca_tables c @
                   [\<lparr>td_name = t, td_cols = cols, td_constraints = cons\<rparr>]\<rparr>))"
| "run_ddl (CreateIndex i t col) c =
     (if i \<in> fst ` set (ca_indexes c) then (Inr (), c)
      else case find_table t c of
        None \<Rightarrow> (Inl (Err (''no such table: main.'' @ t)), c)
      | Some _ \<Rightarrow>
          if has_column t col c then (Inr (), c\<lparr>ca_indexes := ca_indexes c @ [(i, t, col)]\<rparr>)
          else (Inl (Err (''no such column: '' @ col)), c))"
| "run_ddl (AddColumn t col decl) c =
     (case find_table t c of
        None \<Rightarrow> (Inl (Err (''no such table: '' @ t)), c)
      | Some d \<Rightarrow>
          if has_column t col c then (Inl (Err (''duplicate column name: '' @ col)), c)
          else (Inr (), c\<lparr>ca_tables := update_where (\<lambda>d. td_name d = t)
                  (\<lambda>d. d\<lparr>td_cols := td_cols d @ [(col, decl)]\<rparr>) (ca_tables c)\<rparr>))"

text \<open>One statement sent to the engine, which may fail it without effect.\<close>

definition engine_call :: "(catalog \<Rightarrow> 'a res \<times> catalog) \<Rightarrow> catalog \<Rightarrow> 'a res \<times> catalog" where
  "engine_call f c =
     (case ca_faults c of
        [] \<Rightarrow> f c
      | None # fs \<Rightarrow> f (c\<lparr>ca_faults := fs\<rparr>)
      | Some e # fs \<Rightarrow> (Inl e, c\<lparr>ca_faults := fs\<rparr>))"

text \<open>\<open>db.Exec\<close> of several statements: one after the other, each committed, to the first error.\<close>

fun exec_script :: "ddl list \<Rightarrow> catalog \<Rightarrow> unit res \<times> catalog" where
  "exec_script [] c = (Inr (), c)"
| "exec_script (d # ds) c =
     (case engine_call (run_ddl d) c of
        (Inl e, c') \<Rightarrow> (Inl e, c')
      | (Inr _, c') \<Rightarrow> exec_script ds c')"

section \<open>The migrations\<close>

text \<open>A text literal in a declaration.\<close>

definition sql_text :: "string \<Rightarrow> string" where
  "sql_text s = CHR 0x27 # s @ [CHR 0x27]"

definition migrations_table :: ddl where
  "migrations_table = CreateTable ''schema_migrations''
     [(''version'', ''INTEGER PRIMARY KEY''), (''description'', ''TEXT NOT NULL''),
      (''applied_at'', ''DATETIME DEFAULT CURRENT_TIMESTAMP'')] []"

record migration =
  mg_version :: int
  mg_description :: string
  mg_sql :: "ddl list"

definition initial_schema :: "ddl list" where
  "initial_schema =
     [CreateTable ''users''
        [(''id'', ''INTEGER PRIMARY KEY AUTOINCREMENT''), (''username'', ''TEXT UNIQUE NOT NULL''),
         (''password_hash'', ''TEXT NOT NULL''), (''role'', ''TEXT NOT NULL DEFAULT '' @ sql_text ''developer''),
         (''created_at'', ''DATETIME DEFAULT CURRENT_TIMESTAMP''), (''locked_until'', ''DATETIME'')] [],
      CreateTable ''api_keys''
        [(''id'', ''INTEGER PRIMARY KEY AUTOINCREMENT''), (''user_id'', ''INTEGER NOT NULL''),
         (''key_hash'', ''TEXT NOT NULL''), (''name'', ''TEXT NOT NULL''),
         (''created_at'', ''DATETIME DEFAULT CURRENT_TIMESTAMP''), (''expires_at'', ''DATETIME'')]
        [''FOREIGN KEY (user_id) REFERENCES users(id)''],
      CreateTable ''sessions''
        [(''id'', ''INTEGER PRIMARY KEY AUTOINCREMENT''), (''user_id'', ''INTEGER NOT NULL''),
         (''token'', ''TEXT UNIQUE NOT NULL''), (''expires_at'', ''DATETIME NOT NULL'')]
        [''FOREIGN KEY (user_id) REFERENCES users(id)''],
      CreateTable ''audit_logs''
        [(''id'', ''INTEGER PRIMARY KEY AUTOINCREMENT''), (''user_id'', ''INTEGER''),
         (''username'', ''TEXT''), (''ip_address'', ''TEXT''), (''query'', ''TEXT''),
         (''endpoint'', ''TEXT''), (''status'', ''TEXT''),
         (''timestamp'', ''DATETIME DEFAULT CURRENT_TIMESTAMP'')] [],
      CreateTable ''replication_log''
        [(''id'', ''INTEGER PRIMARY KEY AUTOINCREMENT''), (''database_name'', ''TEXT NOT NULL''),
         (''query'', ''TEXT NOT NULL''), (''executed_at'', ''DATETIME DEFAULT CURRENT_TIMESTAMP'')] [],
      CreateTable ''replication_state''
        [(''id'', ''INTEGER PRIMARY KEY CHECK (id = 1)''),
         (''role'', ''TEXT NOT NULL DEFAULT '' @ sql_text ''standalone''), (''primary_url'', ''TEXT DEFAULT '' @ sql_text []),
         (''last_applied_id'', ''INTEGER DEFAULT 0''),
         (''updated_at'', ''DATETIME DEFAULT CURRENT_TIMESTAMP'')] [],
      CreateIndex ''idx_sessions_token'' ''sessions'' ''token'',
      CreateIndex ''idx_audit_timestamp'' ''audit_logs'' ''timestamp'']"

definition migrations :: "migration list" where
  "migrations =
     [\<lparr>mg_version = 1, mg_description = ''initial schema'', mg_sql = initial_schema\<rparr>,
      \<lparr>mg_version = 2, mg_description = ''add api_key columns (prefix, encrypted_key)'',
       mg_sql = [AddColumn ''api_keys'' ''prefix'' (''TEXT DEFAULT '' @ sql_text []),
                 AddColumn ''api_keys'' ''encrypted_key'' (''TEXT DEFAULT '' @ sql_text [])]\<rparr>,
      \<lparr>mg_version = 3, mg_description = ''add password_change_required to users'',
       mg_sql = [AddColumn ''users'' ''password_change_required'' ''INTEGER NOT NULL DEFAULT 0'']\<rparr>]"

section \<open>Applying them\<close>

definition recorded :: "int \<Rightarrow> catalog \<Rightarrow> bool" where
  "recorded v c \<longleftrightarrow> v \<in> fst ` set (ca_versions c)"

definition count_version :: "int \<Rightarrow> catalog \<Rightarrow> int res \<times> catalog" where
  "count_version v c =
     (case find_table ''schema_migrations'' c of
        None \<Rightarrow> (Inl (Err ''no such table: schema_migrations''), c)
      | Some _ \<Rightarrow> (Inr (int (length (filter (\<lambda>r. fst r = v) (ca_versions c)))), c))"

definition insert_version :: "int \<Rightarrow> int \<Rightarrow> string \<Rightarrow> catalog \<Rightarrow> unit res \<times> catalog" where
  "insert_version now v desc c =
     (case find_table ''schema_migrations'' c of
        None \<Rightarrow> (Inl (Err ''no such table: schema_migrations''), c)
      | Some _ \<Rightarrow>
          if recorded v c then (Inl (unique_violation ''schema_migrations.version''), c)
          else (Inr (), c\<lparr>ca_versions := ca_versions c @ [(v, desc, now)]\<rparr>))"

definition isDuplicateColumnErr :: "gerr \<Rightarrow> bool" where
  "isDuplicateColumnErr e \<longleftrightarrow>
     contains (err_text e) ''duplicate column'' \<or> contains (err_text e) ''already exists''"

definition apply_migration :: "int \<Rightarrow> migration \<Rightarrow> catalog \<Rightarrow> unit res \<times> catalog" where
  "apply_migration now m c =
     (let v = mg_version m; record_it = engine_call (insert_version now v (mg_description m)) in
      case engine_call (count_version v) c of
        (Inl e, c1) \<Rightarrow> (Inl (Wrap (''check migration '' @ dec_int v) e), c1)
      | (Inr count, c1) \<Rightarrow>
          if 0 < count then (Inr (), c1)
          else case exec_script (mg_sql m) c1 of
            (Inl e, c2) \<Rightarrow>
              if v = 2 \<and> isDuplicateColumnErr e then (Inr (), snd (record_it c2))
              else (Inl (Wrap (''migration '' @ dec_int v @ '' ('' @ mg_description m @ '')'') e), c2)
          | (Inr _, c2) \<Rightarrow>
              case record_it c2 of
                (Inl e, c3) \<Rightarrow> (Inl (Wrap (''record migration '' @ dec_int v) e), c3)
              | (Inr _, c3) \<Rightarrow> (Inr (), c3))"

fun apply_all :: "int \<Rightarrow> migration list \<Rightarrow> catalog \<Rightarrow> unit res \<times> catalog" where
  "apply_all now [] c = (Inr (), c)"
| "apply_all now (m # ms) c =
     (case apply_migration now m c of
        (Inl e, c') \<Rightarrow> (Inl e, c')
      | (Inr _, c') \<Rightarrow> apply_all now ms c')"

definition migrate :: "int \<Rightarrow> catalog \<Rightarrow> unit res \<times> catalog" where
  "migrate now c =
     (case engine_call (run_ddl migrations_table) c of
        (Inl e, c') \<Rightarrow> (Inl (Wrap ''create migrations table'' e), c')
      | (Inr _, c') \<Rightarrow> apply_all now migrations c')"

section \<open>Opening the system database\<close>

text \<open>
  The file of the system database: its catalogue and its rows. Opening it gives the rows with a
  new, empty audit channel and its worker; \<open>sql.Open\<close> only fails for an
  unknown driver, and the worker ends at once when it cannot prepare its statement.
\<close>

record system_file =
  sf_catalog :: catalog
  sf_rows :: sysdb

definition NewSystemDB ::
  "gerr option \<Rightarrow> gerr option \<Rightarrow> int \<Rightarrow> system_file \<Rightarrow> sysdb res \<times> system_file" where
  "NewSystemDB opened prepare now f =
     (case opened of
        Some e \<Rightarrow> (Inl (Wrap ''open system db'' e), f)
      | None \<Rightarrow>
          case engine_call (\<lambda>c. (Inr (), c)) (sf_catalog f) of
            (Inl e, c1) \<Rightarrow> (Inl (Wrap ''ping system db'' e), f\<lparr>sf_catalog := c1\<rparr>)
          | (Inr _, c1) \<Rightarrow>
              case engine_call (\<lambda>c. (Inr (), c)) c1 of
                (Inl e, c2) \<Rightarrow> (Inl (Wrap ''enable WAL'' e), f\<lparr>sf_catalog := c2\<rparr>)
              | (Inr _, c2) \<Rightarrow>
                  case migrate now c2 of
                    (Inl e, c3) \<Rightarrow> (Inl (Wrap ''migrate system db'' e), f\<lparr>sf_catalog := c3\<rparr>)
                  | (Inr _, c3) \<Rightarrow>
                      (Inr (audit_start prepare ((sf_rows f)\<lparr>audit_ch := [],
                              audit_closed := False, audit_done := False, audit_flushed := []\<rparr>)),
                       f\<lparr>sf_catalog := c3\<rparr>))"

definition new_catalog :: catalog where
  "new_catalog = \<lparr>ca_tables = [], ca_indexes = [], ca_versions = [], ca_faults = []\<rparr>"

section \<open>What a statement does to the catalogue\<close>

text \<open>The names of a table's columns, if the table exists: all that the statements depend on.\<close>

definition columns :: "string \<Rightarrow> catalog \<Rightarrow> string set option" where
  "columns t c = map_option (\<lambda>d. fst ` set (td_cols d)) (find_table t c)"

lemma has_column_columns: "has_column t col c \<longleftrightarrow> (\<exists>S. columns t c = Some S \<and> col \<in> S)"
  by (auto simp: has_column_def columns_def split: option.split)

lemma columns_None: "columns t c = None \<longleftrightarrow> find_table t c = None"
  by (simp add: columns_def)

lemma columns_frame [simp]:
  "columns t (c\<lparr>ca_faults := fs\<rparr>) = columns t c"
  "columns t (c\<lparr>ca_versions := vs\<rparr>) = columns t c"
  "columns t (c\<lparr>ca_indexes := is\<rparr>) = columns t c"
  by (simp_all add: columns_def find_table_def)

lemma recorded_frame [simp]:
  "recorded v (c\<lparr>ca_faults := fs\<rparr>) = recorded v c"
  "recorded v (c\<lparr>ca_tables := ts\<rparr>) = recorded v c"
  "recorded v (c\<lparr>ca_indexes := is\<rparr>) = recorded v c"
  by (simp_all add: recorded_def)

lemma columns_create:
  "columns t' (snd (run_ddl (CreateTable t cols k) c)) =
     (if t' = t \<and> columns t c = None then Some (fst ` set cols) else columns t' c)"
  by (auto simp: columns_def find_table_def find_append split: option.split)

lemma find_add_column:
  "find (\<lambda>d. td_name d = t') (update_where (\<lambda>d. td_name d = t)
      (\<lambda>d. d\<lparr>td_cols := td_cols d @ [x]\<rparr>) ds) =
   map_option (\<lambda>d. if t' = t then d\<lparr>td_cols := td_cols d @ [x]\<rparr> else d)
     (find (\<lambda>d. td_name d = t') ds)"
  by (induction ds) (auto simp: update_where_def)

lemma columns_add:
  "columns t' (snd (run_ddl (AddColumn t col decl) c)) =
     (if t' = t then map_option (insert col) (columns t c) else columns t' c)"
proof (cases "find_table t c")
  case None
  then show ?thesis by (auto simp: columns_def)
next
  case (Some d)
  show ?thesis
  proof (cases "has_column t col c")
    case True
    then show ?thesis using Some by (auto simp: has_column_columns columns_def insert_absorb)
  next
    case False
    have run: "snd (run_ddl (AddColumn t col decl) c) =
        c\<lparr>ca_tables := update_where (\<lambda>d. td_name d = t)
            (\<lambda>d. d\<lparr>td_cols := td_cols d @ [(col, decl)]\<rparr>) (ca_tables c)\<rparr>"
      using Some False by simp
    show ?thesis
      unfolding run
      by (cases "find_table t' c") (auto simp: columns_def find_table_def find_add_column)
  qed
qed

lemma columns_index [simp]: "columns t' (snd (run_ddl (CreateIndex i t col) c)) = columns t' c"
  by (cases "find_table t c") simp_all

lemma run_ddl_result:
  "fst (run_ddl (CreateTable t cols k) c) = Inr ()"
  "fst (run_ddl (AddColumn t col decl) c) =
     (if columns t c = None then Inl (Err (''no such table: '' @ t))
      else if has_column t col c then Inl (Err (''duplicate column name: '' @ col)) else Inr ())"
  "fst (run_ddl (CreateIndex i t col) c) =
     (if i \<in> fst ` set (ca_indexes c) \<or> has_column t col c then Inr ()
      else if columns t c = None then Inl (Err (''no such table: main.'' @ t))
      else Inl (Err (''no such column: '' @ col)))"
  by (auto simp: has_column_columns columns_def split: option.split)

lemma run_ddl_frame [simp]:
  "ca_versions (snd (run_ddl d c)) = ca_versions c" "ca_faults (snd (run_ddl d c)) = ca_faults c"
  by (cases d; simp split: option.split)+

lemma indexes_grow: "fst ` set (ca_indexes c) \<subseteq> fst ` set (ca_indexes (snd (run_ddl d c)))"
  by (cases d) (auto split: option.split)

declare run_ddl.simps [simp del]

text \<open>What a statement is for.\<close>

fun ddl_effect :: "ddl \<Rightarrow> catalog \<Rightarrow> bool" where
  "ddl_effect (CreateTable t cols k) c \<longleftrightarrow>
     (case columns t c of None \<Rightarrow> False | Some S \<Rightarrow> fst ` set cols \<subseteq> S)"
| "ddl_effect (CreateIndex i t col) c \<longleftrightarrow> i \<in> fst ` set (ca_indexes c)"
| "ddl_effect (AddColumn t col decl) c \<longleftrightarrow> has_column t col c"

text \<open>Statements only add: no effect is undone by another statement.\<close>

lemma columns_grow:
  "columns t c = Some S \<Longrightarrow> \<exists>S'. columns t (snd (run_ddl d c)) = Some S' \<and> S \<subseteq> S'"
  by (cases d) (auto simp: columns_create columns_add)

lemma has_column_kept: "has_column t col c \<Longrightarrow> has_column t col (snd (run_ddl d c))"
  unfolding has_column_columns using columns_grow by blast

lemma ddl_effect_kept: "ddl_effect d c \<Longrightarrow> ddl_effect d (snd (run_ddl d' c))"
proof (cases d)
  case (CreateTable t cols k)
  assume "ddl_effect d c"
  then obtain S where "columns t c = Some S" and "fst ` set cols \<subseteq> S"
    using CreateTable by (auto split: option.splits)
  then show ?thesis using columns_grow [of t c S d'] CreateTable by auto
next
  case (CreateIndex i t col)
  then show "ddl_effect d c \<Longrightarrow> ?thesis" using subsetD [OF indexes_grow [of c d'], of i] by simp
next
  case (AddColumn t col decl)
  then show "ddl_effect d c \<Longrightarrow> ?thesis" using has_column_kept by simp
qed

section \<open>The invariant of the catalogue\<close>

text \<open>
  A table of the schema that exists has the columns it was created with, and a recorded migration
  has had its effect. Of the second migration only the first column is claimed: an error about a
  duplicate column counts as success there.
\<close>

definition shape_ok :: "catalog \<Rightarrow> bool" where
  "shape_ok c \<longleftrightarrow> (\<forall>t cols k. CreateTable t cols k \<in> set initial_schema \<longrightarrow>
     columns t c \<noteq> None \<longrightarrow> ddl_effect (CreateTable t cols k) c)"

definition migration_done :: "migration \<Rightarrow> catalog \<Rightarrow> bool" where
  "migration_done m c \<longleftrightarrow>
     (if mg_version m = 2 then has_column ''api_keys'' ''prefix'' c
      else \<forall>d\<in>set (mg_sql m). ddl_effect d c)"

definition catalog_ok :: "catalog \<Rightarrow> bool" where
  "catalog_ok c \<longleftrightarrow> shape_ok c \<and>
     (\<forall>m\<in>set migrations. recorded (mg_version m) c \<longrightarrow> migration_done m c)"

text \<open>The failures of the engine that do not read like a duplicate column.\<close>

definition plain_faults :: "catalog \<Rightarrow> bool" where
  "plain_faults c \<longleftrightarrow> (\<forall>e. Some e \<in> set (ca_faults c) \<longrightarrow> \<not> isDuplicateColumnErr e)"

definition grows :: "catalog \<Rightarrow> catalog \<Rightarrow> bool" where
  "grows c c' \<longleftrightarrow> (\<forall>d. ddl_effect d c \<longrightarrow> ddl_effect d c') \<and>
     set (ca_faults c') \<subseteq> set (ca_faults c)"

lemma grows_refl [intro]: "grows c c" by (simp add: grows_def)

lemma grows_trans [trans]: "grows a b \<Longrightarrow> grows b c \<Longrightarrow> grows a c" by (auto simp: grows_def)

lemma grows_faults: "grows c c' \<Longrightarrow> plain_faults c \<Longrightarrow> plain_faults c'"
  by (auto simp: grows_def plain_faults_def)

lemma ddl_effect_frame [simp]:
  "ddl_effect d (c\<lparr>ca_faults := fs\<rparr>) = ddl_effect d c"
  "ddl_effect d (c\<lparr>ca_versions := vs\<rparr>) = ddl_effect d c"
  by (cases d; simp add: has_column_columns)+

lemma shape_frame [simp]:
  "shape_ok (c\<lparr>ca_faults := fs\<rparr>) = shape_ok c"
  "shape_ok (c\<lparr>ca_versions := vs\<rparr>) = shape_ok c"
  by (simp_all only: shape_ok_def ddl_effect_frame columns_frame)

definition schema_ddl :: "ddl list" where
  "schema_ddl = migrations_table # concat (map mg_sql migrations)"

lemma created_once:
  "\<lbrakk>CreateTable t cols k \<in> set initial_schema; CreateTable t cols' k' \<in> set schema_ddl\<rbrakk> \<Longrightarrow> cols' = cols"
  by (auto simp: initial_schema_def schema_ddl_def migrations_def migrations_table_def)

lemma run_ddl_shape:
  assumes "shape_ok c" and "d \<in> set schema_ddl"
  shows "shape_ok (snd (run_ddl d c))"
  unfolding shape_ok_def
proof (intro allI impI)
  fix t cols k
  assume t: "CreateTable t cols k \<in> set initial_schema" and "columns t (snd (run_ddl d c)) \<noteq> None"
  show "ddl_effect (CreateTable t cols k) (snd (run_ddl d c))"
  proof (cases "columns t c")
    case None
    then show ?thesis
      using \<open>columns t (snd (run_ddl d c)) \<noteq> None\<close> created_once [OF t] assms(2)
      by (cases d) (auto simp: columns_create columns_add split: if_splits)
  next
    case (Some S)
    then have "columns t c \<noteq> None" by simp
    then have "ddl_effect (CreateTable t cols k) c"
      using assms(1) t unfolding shape_ok_def by blast
    then show ?thesis by (rule ddl_effect_kept)
  qed
qed

lemma run_ddl_effect:
  assumes "shape_ok c" and "d \<in> set schema_ddl" and "d \<noteq> migrations_table"
    and "fst (run_ddl d c) = Inr ()"
  shows "ddl_effect d (snd (run_ddl d c))"
proof (cases d)
  case (CreateTable t cols k)
  have "CreateTable t cols k \<in> set initial_schema"
    using assms(2,3) CreateTable by (auto simp: schema_ddl_def migrations_def)
  moreover have "shape_ok (snd (run_ddl d c))" using assms(1,2) by (rule run_ddl_shape)
  moreover have "columns t (snd (run_ddl d c)) \<noteq> None" by (simp add: CreateTable columns_create)
  ultimately show ?thesis using CreateTable unfolding shape_ok_def by blast
next
  case (CreateIndex i t col)
  then show ?thesis
    using assms(4) by (auto simp: run_ddl.simps split: if_splits option.splits)
next
  case (AddColumn t col decl)
  then show ?thesis
    using assms(4) by (auto simp: run_ddl_result has_column_columns columns_add split: if_splits)
qed

text \<open>A call of the engine either runs the statement or fails with one of the faults.\<close>

lemma engine_call_cases:
  assumes "engine_call f c = (r, c')"
  obtains (ran) fs where "f (c\<lparr>ca_faults := fs\<rparr>) = (r, c')" and "set fs \<subseteq> set (ca_faults c)"
  | (failed) e fs where "r = Inl e" and "Some e \<in> set (ca_faults c)" and "c' = c\<lparr>ca_faults := fs\<rparr>"
      and "set fs \<subseteq> set (ca_faults c)"
proof (cases "ca_faults c")
  case Nil
  then have "c\<lparr>ca_faults := []\<rparr> = c" by (cases c) simp
  then have "f (c\<lparr>ca_faults := []\<rparr>) = f c" by (rule arg_cong)
  also have "\<dots> = (r, c')" using assms Nil by (simp add: engine_call_def)
  finally show thesis by (rule ran) simp
next
  case (Cons x fs)
  then show thesis
    using assms ran [of fs] failed [of _ fs] by (cases x) (auto simp: engine_call_def)
qed

lemma grows_faults_only: "set fs \<subseteq> set (ca_faults c) \<Longrightarrow> grows c (c\<lparr>ca_faults := fs\<rparr>)"
  by (simp add: grows_def)

lemma grows_run: "grows c (snd (run_ddl d c))"
  by (simp add: grows_def ddl_effect_kept)

lemma ddl_call:
  assumes "engine_call (run_ddl d) c = (r, c')" and "shape_ok c" and "d \<in> set schema_ddl"
  shows "shape_ok c'" and "grows c c'" and "ca_versions c' = ca_versions c"
    and "r = Inr () \<Longrightarrow> d \<noteq> migrations_table \<Longrightarrow> ddl_effect d c'"
proof -
  have "shape_ok c' \<and> grows c c' \<and> ca_versions c' = ca_versions c \<and>
      (r = Inr () \<longrightarrow> d \<noteq> migrations_table \<longrightarrow> ddl_effect d c')"
    using assms(1)
  proof (cases rule: engine_call_cases)
    case (ran fs)
    let ?c = "c\<lparr>ca_faults := fs\<rparr>"
    have c': "c' = snd (run_ddl d ?c)" and r: "r = fst (run_ddl d ?c)" using ran(1) by simp_all
    have "shape_ok ?c" using assms(2) by simp
    then show ?thesis
      using run_ddl_shape [of ?c d] run_ddl_effect [of ?c d] assms(3)
        grows_trans [OF grows_faults_only [OF ran(2)] grows_run [of ?c d]]
      by (simp add: c' r)
  next
    case (failed e fs)
    then show ?thesis using assms(2) grows_faults_only by simp
  qed
  then show "shape_ok c'" and "grows c c'" and "ca_versions c' = ca_versions c"
    and "r = Inr () \<Longrightarrow> d \<noteq> migrations_table \<Longrightarrow> ddl_effect d c'"
    by simp_all
qed

lemma script_run:
  assumes "exec_script ds c = (r, c')" and "shape_ok c" and "set ds \<subseteq> set schema_ddl - {migrations_table}"
  shows "shape_ok c' \<and> grows c c' \<and> ca_versions c' = ca_versions c \<and>
    (r = Inr () \<longrightarrow> (\<forall>d\<in>set ds. ddl_effect d c'))"
  using assms
proof (induction ds arbitrary: c)
  case Nil
  then show ?case by auto
next
  case (Cons d ds)
  obtain r1 c1 where call: "engine_call (run_ddl d) c = (r1, c1)" by fastforce
  have d: "d \<in> set schema_ddl" "d \<noteq> migrations_table" using Cons.prems(3) by auto
  note step = ddl_call [OF call Cons.prems(2) d(1)]
  show ?case
  proof (cases r1)
    case (Inl e)
    then have "r = Inl e" and "c' = c1" using Cons.prems(1) call by simp_all
    then show ?thesis using step(1-3) by simp
  next
    case (Inr u)
    then have rest: "exec_script ds c1 = (r, c')" using Cons.prems(1) call by simp
    have IH: "shape_ok c' \<and> grows c1 c' \<and> ca_versions c' = ca_versions c1 \<and>
        (r = Inr () \<longrightarrow> (\<forall>d\<in>set ds. ddl_effect d c'))"
      using Cons.IH [OF rest step(1)] Cons.prems(3) by simp
    moreover have "ddl_effect d c1" using step(4) Inr d(2) by simp
    ultimately show ?thesis
      using step(2,3) grows_trans by (auto simp: grows_def)
  qed
qed

text \<open>An error about a duplicate column, in the second migration, means its first column exists.\<close>

lemma duplicate_means_prefix:
  assumes "exec_script [AddColumn ''api_keys'' ''prefix'' p, AddColumn ''api_keys'' ''encrypted_key'' q] c =
      (Inl e, c')"
    and "isDuplicateColumnErr e" and "plain_faults c" and "shape_ok c"
    and "{AddColumn ''api_keys'' ''prefix'' p, AddColumn ''api_keys'' ''encrypted_key'' q} \<subseteq> set schema_ddl"
  shows "has_column ''api_keys'' ''prefix'' c'"
proof -
  let ?d = "AddColumn ''api_keys'' ''prefix'' p"
  obtain r1 c1 where call: "engine_call (run_ddl ?d) c = (r1, c1)" by fastforce
  have missing: "\<not> isDuplicateColumnErr (Err ''no such table: api_keys'')" by code_simp
  have d: "?d \<in> set schema_ddl" using assms(5) by simp
  note step = ddl_call [OF call assms(4) d]
  show ?thesis
  proof (cases r1)
    case (Inr u)
    then have "ddl_effect ?d c1" using step(4) by (simp add: migrations_table_def)
    moreover have "exec_script [AddColumn ''api_keys'' ''encrypted_key'' q] c1 = (Inl e, c')"
      using assms(1) call Inr by simp
    then have "grows c1 c'" using script_run [OF _ step(1)] assms(5)
      by (fastforce simp: migrations_table_def)
    ultimately have "ddl_effect ?d c'" unfolding grows_def by blast
    then show ?thesis by simp
  next
    case (Inl e1)
    then have e1: "e1 = e" "c1 = c'" using assms(1) call by simp_all
    show ?thesis
      using call
    proof (cases rule: engine_call_cases)
      case (ran fs)
      then have "fst (run_ddl ?d (c\<lparr>ca_faults := fs\<rparr>)) = Inl e" and c': "c' = snd (run_ddl ?d (c\<lparr>ca_faults := fs\<rparr>))"
        using Inl e1 by simp_all
      then have "has_column ''api_keys'' ''prefix'' (c\<lparr>ca_faults := fs\<rparr>)"
        using missing assms(2) by (auto simp: run_ddl_result split: if_splits)
      then show ?thesis unfolding c' by (rule has_column_kept)
    next
      case (failed e' fs)
      then show ?thesis using assms(2,3) Inl e1 by (auto simp: plain_faults_def)
    qed
  qed
qed

section \<open>Every migration keeps the invariant\<close>

lemma count_version_state [simp]: "snd (count_version v c) = c"
  by (simp add: count_version_def split: option.split)

lemma insert_version_effect:
  "snd (insert_version now v desc c) = c \<or>
   snd (insert_version now v desc c) = c\<lparr>ca_versions := ca_versions c @ [(v, desc, now)]\<rparr>"
  by (simp add: insert_version_def split: option.split)

lemma count_recorded:
  "0 < int (length (filter (\<lambda>x. fst x = v) (ca_versions c))) \<longleftrightarrow> recorded v c"
proof -
  have "filter (\<lambda>x. fst x = v) (ca_versions c) \<noteq> [] \<longleftrightarrow> recorded v c"
    by (auto simp: recorded_def filter_empty_conv)
  then show ?thesis by simp
qed

lemma count_call:
  assumes "engine_call (count_version v) c = (r, c')"
  obtains fs where "c' = c\<lparr>ca_faults := fs\<rparr>" and "set fs \<subseteq> set (ca_faults c)"
    and "\<And>n. r = Inr n \<Longrightarrow> 0 < n \<longleftrightarrow> recorded v c"
  using assms
proof (cases rule: engine_call_cases)
  case (ran fs)
  have "0 < n \<longleftrightarrow> recorded v c" if "r = Inr n" for n
    using ran(1) that count_recorded [of v c] by (auto simp: count_version_def split: option.splits)
  moreover have "c' = c\<lparr>ca_faults := fs\<rparr>"
    using arg_cong [OF ran(1), of snd] by simp
  ultimately show thesis using that [of fs] ran(2) by simp
next
  case (failed e fs)
  then show thesis using that [of fs] by simp
qed

lemma insert_call:
  assumes "engine_call (insert_version now v desc) c = (r, c')"
  shows "grows c c'" and "shape_ok c' = shape_ok c"
    and "recorded w c' \<Longrightarrow> recorded w c \<or> w = v"
proof -
  have "grows c c' \<and> shape_ok c' = shape_ok c \<and> (recorded w c' \<longrightarrow> recorded w c \<or> w = v)"
    using assms
  proof (cases rule: engine_call_cases)
    case (ran fs)
    let ?c = "c\<lparr>ca_faults := fs\<rparr>"
    have "c' = ?c \<or> c' = ?c\<lparr>ca_versions := ca_versions c @ [(v, desc, now)]\<rparr>"
      using insert_version_effect [of now v desc ?c] arg_cong [OF ran(1), of snd] by auto
    then show ?thesis using ran(2) by (auto simp: grows_def recorded_def)
  next
    case (failed e fs)
    then show ?thesis by (simp add: grows_faults_only)
  qed
  then show "grows c c'" and "shape_ok c' = shape_ok c"
    and "recorded w c' \<Longrightarrow> recorded w c \<or> w = v" by simp_all
qed

lemma migration_done_grows: "grows c c' \<Longrightarrow> migration_done m c \<Longrightarrow> migration_done m c'"
  using ddl_effect.simps(3) [of "''api_keys''" "''prefix''" "[]"]
  unfolding migration_done_def grows_def by (metis (no_types, lifting))

lemma catalog_ok_grows:
  assumes "catalog_ok c" and "grows c c'" and "shape_ok c'"
    and "\<And>m. \<lbrakk>m \<in> set migrations; recorded (mg_version m) c'\<rbrakk> \<Longrightarrow>
      recorded (mg_version m) c \<or> migration_done m c'"
  shows "catalog_ok c'"
  using assms migration_done_grows unfolding catalog_ok_def by blast

lemma migration_of_version:
  "\<lbrakk>m \<in> set migrations; m' \<in> set migrations; mg_version m = mg_version m'\<rbrakk> \<Longrightarrow> m = m'"
proof -
  have "distinct (map mg_version migrations)" by (simp add: migrations_def)
  then have "inj_on mg_version (set migrations)" by (simp only: distinct_map)
  then show "\<lbrakk>m \<in> set migrations; m' \<in> set migrations; mg_version m = mg_version m'\<rbrakk> \<Longrightarrow> m = m'"
    by (simp add: inj_on_def)
qed

lemma migration_ddl: "m \<in> set migrations \<Longrightarrow> set (mg_sql m) \<subseteq> set schema_ddl - {migrations_table}"
  by (auto simp: migrations_def schema_ddl_def migrations_table_def initial_schema_def)

lemma second_migration:
  "\<lbrakk>m \<in> set migrations; mg_version m = 2\<rbrakk> \<Longrightarrow>
     mg_sql m = [AddColumn ''api_keys'' ''prefix'' (''TEXT DEFAULT '' @ sql_text []),
                 AddColumn ''api_keys'' ''encrypted_key'' (''TEXT DEFAULT '' @ sql_text [])]"
  by (auto simp: migrations_def)

text \<open>After the statements of a migration, recording it keeps the invariant.\<close>

lemma record_ok:
  assumes "catalog_ok c" and "migration_done m c" and "m \<in> set migrations"
    and "engine_call (insert_version now (mg_version m) desc) c = (r, c')"
  shows "catalog_ok c'" and "grows c c'"
proof -
  note ins = insert_call [OF assms(4)]
  show "grows c c'" by (rule ins(1))
  show "catalog_ok c'"
  proof (rule catalog_ok_grows [OF assms(1) ins(1)])
    show "shape_ok c'" using assms(1) ins(2) by (simp add: catalog_ok_def)
    fix m'
    assume m': "m' \<in> set migrations" and "recorded (mg_version m') c'"
    then consider "recorded (mg_version m') c" | "mg_version m' = mg_version m"
      using ins(3) by blast
    then show "recorded (mg_version m') c \<or> migration_done m' c'"
    proof cases
      case 2
      then have "m' = m" using m' assms(3) by (rule_tac migration_of_version)
      then show ?thesis using assms(2) ins(1) migration_done_grows by blast
    qed simp
  qed
qed

lemma apply_migration_ok:
  assumes "catalog_ok c" and "plain_faults c" and "m \<in> set migrations"
  shows "catalog_ok (snd (apply_migration now m c))" and "grows c (snd (apply_migration now m c))"
proof -
  let ?after = "snd (apply_migration now m c)"
  obtain r1 c1 where count: "engine_call (count_version (mg_version m)) c = (r1, c1)" by fastforce
  obtain r2 c2 where script: "exec_script (mg_sql m) c1 = (r2, c2)" by fastforce
  obtain r3 c3 where ins: "engine_call (insert_version now (mg_version m) (mg_description m)) c2 = (r3, c3)"
    by fastforce
  obtain fs where c1: "c1 = c\<lparr>ca_faults := fs\<rparr>" "set fs \<subseteq> set (ca_faults c)"
    using count_call [OF count] by metis
  have g1: "grows c c1" using c1 grows_faults_only by simp
  have ok1: "catalog_ok c1"
    using assms(1) c1 by (intro catalog_ok_grows [OF assms(1) g1]) (simp_all add: catalog_ok_def)
  then have "shape_ok c1" by (simp add: catalog_ok_def)
  note run = script_run [OF script this migration_ddl [OF assms(3)]]
  have ok2: "catalog_ok c2"
    using run by (intro catalog_ok_grows [OF ok1]) (simp_all add: recorded_def)
  have effect: "migration_done m c2" if "r2 = Inr () \<or> mg_version m = 2 \<and> (\<exists>e. r2 = Inl e \<and> isDuplicateColumnErr e)"
  proof (cases r2)
    case (Inl e)
    then have two: "mg_version m = 2" "isDuplicateColumnErr e" using that by auto
    have "has_column ''api_keys'' ''prefix'' c2"
      using duplicate_means_prefix [OF _ two(2), of _ _ c1 c2] script Inl
        second_migration [OF assms(3) two(1)] migration_ddl [OF assms(3)] grows_faults [OF g1 assms(2)]
        \<open>shape_ok c1\<close> by simp
    then show ?thesis using two by (simp add: migration_done_def)
  next
    case (Inr u)
    then have "\<forall>d\<in>set (mg_sql m). ddl_effect d c2" using run by simp
    then show ?thesis
      using second_migration [OF assms(3)] by (auto simp: migration_done_def)
  qed
  have ok3: "catalog_ok c3 \<and> grows c2 c3" if "migration_done m c2"
    using record_ok [OF ok2 that assms(3) ins] by simp
  have "?after \<in> {c1, c2} \<or> ?after = c3 \<and> migration_done m c2"
    using count script ins effect
    by (auto simp: apply_migration_def Let_def split: sum.split prod.split)
  moreover have "grows c c2" using grows_trans [OF g1] run by simp
  moreover have "catalog_ok c3 \<and> grows c c3" if "migration_done m c2"
    using ok3 [OF that] grows_trans [OF \<open>grows c c2\<close>] by simp
  ultimately show "catalog_ok ?after" and "grows c ?after" using ok1 ok2 g1 by auto
qed

lemma apply_all_ok:
  "\<lbrakk>catalog_ok c; plain_faults c; set ms \<subseteq> set migrations\<rbrakk> \<Longrightarrow>
     catalog_ok (snd (apply_all now ms c)) \<and> grows c (snd (apply_all now ms c))"
proof (induction ms arbitrary: c)
  case Nil
  then show ?case by auto
next
  case (Cons m ms)
  obtain r c1 where m: "apply_migration now m c = (r, c1)" by fastforce
  have step: "catalog_ok c1" "grows c c1"
    using apply_migration_ok [of c m now] Cons.prems m by simp_all
  then have "catalog_ok (snd (apply_all now ms c1)) \<and> grows c1 (snd (apply_all now ms c1))"
    using Cons grows_faults by simp
  then show ?case using m step grows_trans by (cases r) auto
qed

lemma migrate_ok:
  assumes "catalog_ok c" and "plain_faults c"
  shows "catalog_ok (snd (migrate now c))" and "grows c (snd (migrate now c))"
proof -
  obtain r c1 where call: "engine_call (run_ddl migrations_table) c = (r, c1)" by fastforce
  have mem: "migrations_table \<in> set schema_ddl" by (simp add: schema_ddl_def)
  have "shape_ok c" using assms(1) by (simp add: catalog_ok_def)
  note step = ddl_call [OF call this mem]
  have ok1: "catalog_ok c1"
    using step by (intro catalog_ok_grows [OF assms(1)]) (simp_all add: recorded_def)
  have "catalog_ok (snd (apply_all now migrations c1)) \<and> grows c1 (snd (apply_all now migrations c1))"
    using ok1 grows_faults [OF step(2) assms(2)] by (intro apply_all_ok) simp_all
  then show "catalog_ok (snd (migrate now c))" and "grows c (snd (migrate now c))"
    using call ok1 step(2) grows_trans by (cases r; auto simp: migrate_def)+
qed

text \<open>
  The catalogues that openings leave behind, whatever the engine failed in each of them: the
  process may have been stopped by a failure after any statement and started again.
\<close>

inductive schema_reach :: "catalog \<Rightarrow> bool" where
  new: "schema_reach new_catalog"
| opened: "\<lbrakk>schema_reach c; plain_faults (c\<lparr>ca_faults := fs\<rparr>)\<rbrakk> \<Longrightarrow>
     schema_reach (snd (migrate now (c\<lparr>ca_faults := fs\<rparr>)))"

lemma catalog_ok_faults [simp]: "catalog_ok (c\<lparr>ca_faults := fs\<rparr>) = catalog_ok c"
  by (simp add: catalog_ok_def migration_done_def has_column_columns)

lemma new_catalog_ok: "catalog_ok new_catalog"
  by (simp add: catalog_ok_def shape_ok_def new_catalog_def columns_def find_table_def recorded_def)

lemma schema_reach_ok: "schema_reach c \<Longrightarrow> catalog_ok c"
  by (induction rule: schema_reach.induct) (simp_all add: new_catalog_ok migrate_ok)

section \<open>Migrating with a healthy engine\<close>

lemma engine_healthy [simp]: "ca_faults c = [] \<Longrightarrow> engine_call f c = f c"
  by (simp add: engine_call_def)

text \<open>The columns a statement can add.\<close>

fun adds :: "ddl \<Rightarrow> (string \<times> string) set" where
  "adds (CreateTable t cols k) = {t} \<times> fst ` set cols"
| "adds (CreateIndex i t col) = {}"
| "adds (AddColumn t col decl) = {(t, col)}"

lemma has_column_run:
  "has_column t col (snd (run_ddl d c)) \<Longrightarrow> has_column t col c \<or> (t, col) \<in> adds d"
  by (cases d) (auto simp: has_column_columns columns_create columns_add split: if_splits)

lemma script_frame:
  assumes "ca_faults c = []" and "exec_script ds c = (r, c')"
  shows "ca_faults c' = []" and "ca_versions c' = ca_versions c"
    and "columns t c \<noteq> None \<Longrightarrow> columns t c' \<noteq> None"
    and "has_column t col c \<Longrightarrow> has_column t col c'"
    and "has_column t col c' \<Longrightarrow> has_column t col c \<or> (t, col) \<in> \<Union> (adds ` set ds)"
proof -
  have "ca_faults c' = [] \<and> ca_versions c' = ca_versions c \<and>
      (columns t c \<noteq> None \<longrightarrow> columns t c' \<noteq> None) \<and> (has_column t col c \<longrightarrow> has_column t col c') \<and>
      (has_column t col c' \<longrightarrow> has_column t col c \<or> (t, col) \<in> \<Union> (adds ` set ds))"
    using assms
  proof (induction ds arbitrary: c)
    case Nil
    then show ?case by simp
  next
    case (Cons d ds)
    obtain r1 c1 where d: "run_ddl d c = (r1, c1)" by fastforce
    have c1: "c1 = snd (run_ddl d c)" using d by simp
    have step: "columns t c \<noteq> None \<longrightarrow> columns t c1 \<noteq> None" "has_column t col c \<longrightarrow> has_column t col c1"
      "has_column t col c1 \<longrightarrow> has_column t col c \<or> (t, col) \<in> adds d"
      "ca_faults c1 = []" "ca_versions c1 = ca_versions c"
      using columns_grow [of t c _ d] has_column_kept [of t col c d] has_column_run [of t col d c]
        Cons.prems(1) unfolding c1 by auto
    show ?case
    proof (cases r1)
      case (Inl e)
      then have "c' = c1" using Cons.prems d by simp
      then show ?thesis using step by auto
    next
      case (Inr u)
      then have "exec_script ds c1 = (r, c')" using Cons.prems d by simp
      then show ?thesis using Cons.IH [of c1] step by auto
    qed
  qed
  then show "ca_faults c' = []" and "ca_versions c' = ca_versions c"
    and "columns t c \<noteq> None \<Longrightarrow> columns t c' \<noteq> None"
    and "has_column t col c \<Longrightarrow> has_column t col c'"
    and "has_column t col c' \<Longrightarrow> has_column t col c \<or> (t, col) \<in> \<Union> (adds ` set ds)"
    by blast+
qed

lemma apply_healthy:
  assumes "ca_faults c = []" and "columns ''schema_migrations'' c \<noteq> None"
    and "exec_script (mg_sql m) c = (r, c2)"
  shows "apply_migration now m c =
     (if recorded (mg_version m) c then (Inr (), c)
      else if r = Inr () \<or> mg_version m = 2 \<and> isDuplicateColumnErr (projl r)
      then (Inr (), c2\<lparr>ca_versions := ca_versions c @ [(mg_version m, mg_description m, now)]\<rparr>)
      else (Inl (Wrap (''migration '' @ dec_int (mg_version m) @ '' ('' @ mg_description m @ '')'')
              (projl r)), c2))"
proof -
  note frame = script_frame [OF assms(1,3)]
  obtain d d2 where tables: "find_table ''schema_migrations'' c = Some d"
      "find_table ''schema_migrations'' c2 = Some d2"
    using assms(2) frame(3) [of "''schema_migrations''"] by (auto simp: columns_None)
  obtain n where count: "count_version (mg_version m) c = (Inr n, c)"
      and some: "0 < n \<longleftrightarrow> recorded (mg_version m) c"
    using tables(1) count_recorded [of "mg_version m" c] by (simp add: count_version_def)
  have "recorded (mg_version m) c2 = recorded (mg_version m) c" using frame(2) by (simp add: recorded_def)
  then have ins: "\<not> recorded (mg_version m) c \<Longrightarrow>
      insert_version now (mg_version m) (mg_description m) c2 =
      (Inr (), c2\<lparr>ca_versions := ca_versions c @ [(mg_version m, mg_description m, now)]\<rparr>)"
    using tables(2) frame(2) by (simp add: insert_version_def)
  show ?thesis
    using assms(1,3) frame(1) ins
    by (cases r) (auto simp: apply_migration_def Let_def count some)
qed

lemma exec_script_append:
  "exec_script (ds @ ds') c =
     (case exec_script ds c of (Inl e, c') \<Rightarrow> (Inl e, c') | (Inr _, c') \<Rightarrow> exec_script ds' c')"
proof (induction ds arbitrary: c)
  case (Cons d ds)
  show ?case
    using Cons.IH by (cases "engine_call (run_ddl d) c") (auto split: sum.split)
qed simp

lemma creates_succeed:
  "\<lbrakk>ca_faults c = []; \<forall>d\<in>set ds. \<exists>t cols k. d = CreateTable t cols k\<rbrakk> \<Longrightarrow>
     fst (exec_script ds c) = Inr ()"
proof (induction ds arbitrary: c)
  case (Cons d ds)
  obtain t cols k where d: "d = CreateTable t cols k" using Cons.prems(2) by auto
  obtain c1 where run: "run_ddl d c = (Inr (), c1)"
    using run_ddl_result(1) [of t cols k c] d by (metis prod.collapse)
  then have "ca_faults c1 = []" using run_ddl_frame(2) [of d c] Cons.prems(1) by simp
  then show ?case using Cons run by simp
qed simp

lemma index_succeeds:
  "has_column t col c \<Longrightarrow> \<exists>c'. run_ddl (CreateIndex i t col) c = (Inr (), c')"
  using run_ddl_result(3) [of i t col c] by (metis prod.collapse)

lemma initial_schema_succeeds:
  assumes "ca_faults c = []" and "shape_ok c"
  shows "fst (exec_script initial_schema c) = Inr ()"
proof -
  let ?creates = "take 6 initial_schema"
  obtain r c1 where creates: "exec_script ?creates c = (r, c1)" by fastforce
  have "\<forall>d\<in>set ?creates. \<exists>t cols k. d = CreateTable t cols k" by (simp add: initial_schema_def)
  then have "fst (exec_script ?creates c) = Inr ()" by (rule creates_succeed [OF assms(1)])
  then have r: "r = Inr ()" using creates by simp
  note frame = script_frame [OF assms(1) creates]
  have "\<forall>d\<in>set ?creates. ddl_effect d c1"
    using script_run [OF creates assms(2)] r
    by (simp add: schema_ddl_def migrations_def initial_schema_def migrations_table_def)
  then have cols: "has_column ''sessions'' ''token'' c1" "has_column ''audit_logs'' ''timestamp'' c1"
    by (auto simp: initial_schema_def has_column_columns split: option.splits)
  obtain c2 where one: "run_ddl (CreateIndex ''idx_sessions_token'' ''sessions'' ''token'') c1 = (Inr (), c2)"
    using index_succeeds [OF cols(1)] by blast
  have f2: "ca_faults c2 = []" using run_ddl_frame(2) [of _ c1] one frame(1) by (metis snd_conv)
  have "has_column ''audit_logs'' ''timestamp'' c2"
    using has_column_kept [OF cols(2)] one by (metis snd_conv)
  then obtain c3 where two:
      "run_ddl (CreateIndex ''idx_audit_timestamp'' ''audit_logs'' ''timestamp'') c2 = (Inr (), c3)"
    using index_succeeds by blast
  have "drop 6 initial_schema = [CreateIndex ''idx_sessions_token'' ''sessions'' ''token'',
      CreateIndex ''idx_audit_timestamp'' ''audit_logs'' ''timestamp'']"
    by (simp add: initial_schema_def)
  then have split: "initial_schema = ?creates @ [CreateIndex ''idx_sessions_token'' ''sessions'' ''token'',
      CreateIndex ''idx_audit_timestamp'' ''audit_logs'' ''timestamp'']"
    by (metis append_take_drop_id)
  have "exec_script (?creates @ [CreateIndex ''idx_sessions_token'' ''sessions'' ''token'',
      CreateIndex ''idx_audit_timestamp'' ''audit_logs'' ''timestamp'']) c = (Inr (), c3)"
    using creates r one two frame(1) f2 by (simp add: exec_script_append)
  then show ?thesis unfolding split [symmetric] by simp
qed

text \<open>The three migrations, each on a catalogue that has the table \<open>schema_migrations\<close>.\<close>

definition migratable :: "catalog \<Rightarrow> bool" where
  "migratable c \<longleftrightarrow> ca_faults c = [] \<and> catalog_ok c \<and> columns ''schema_migrations'' c \<noteq> None"

lemma apply_migratable:
  assumes "migratable c" and "m \<in> set migrations"
  shows "migratable (snd (apply_migration now m c))"
proof -
  obtain r c2 where script: "exec_script (mg_sql m) c = (r, c2)" by fastforce
  have ok: "ca_faults c = []" "catalog_ok c" "columns ''schema_migrations'' c \<noteq> None"
    using assms(1) by (simp_all add: migratable_def)
  have "catalog_ok (snd (apply_migration now m c))"
    using apply_migration_ok(1) [OF ok(2) _ assms(2)] ok(1) by (simp add: plain_faults_def)
  then show ?thesis
    using ok script_frame(1) [OF ok(1) script] script_frame(3) [OF ok(1) script ok(3)]
    by (auto simp: migratable_def apply_healthy [OF ok(1,3) script])
qed

lemma recorded_append [simp]:
  "recorded v (c\<lparr>ca_versions := vs @ [(w, d, t)]\<rparr>) \<longleftrightarrow> v = w \<or> v \<in> fst ` set vs"
  by (auto simp: recorded_def)

lemma has_column_frame [simp]:
  "has_column t col (c\<lparr>ca_versions := vs\<rparr>) = has_column t col c"
  by (simp add: has_column_columns)

lemma first_migration_healthy:
  assumes "migratable c" and "m \<in> set migrations" and "mg_version m = 1"
  shows "fst (apply_migration now m c) = Inr ()"
    and "recorded v (snd (apply_migration now m c)) \<longleftrightarrow> recorded v c \<or> v = 1"
    and "\<forall>d\<in>set initial_schema. ddl_effect d (snd (apply_migration now m c))"
    and "(t, col) \<notin> \<Union> (adds ` set initial_schema) \<Longrightarrow>
      has_column t col (snd (apply_migration now m c)) = has_column t col c"
proof -
  have ok: "ca_faults c = []" "catalog_ok c" "columns ''schema_migrations'' c \<noteq> None"
    using assms(1) by (simp_all add: migratable_def)
  have m: "mg_sql m = initial_schema" using assms(2,3) by (auto simp: migrations_def)
  have shape: "shape_ok c" using ok(2) by (simp add: catalog_ok_def)
  obtain c2 where script: "exec_script (mg_sql m) c = (Inr (), c2)"
    using initial_schema_succeeds [OF ok(1) shape] m by (metis prod.collapse)
  note frame = script_frame [OF ok(1) script]
  note eq = apply_healthy [OF ok(1,3) script, of now, unfolded assms(3)]
  show "fst (apply_migration now m c) = Inr ()" by (simp add: eq)
  show "recorded v (snd (apply_migration now m c)) \<longleftrightarrow> recorded v c \<or> v = 1"
    by (auto simp: eq recorded_def)
  have "\<forall>d\<in>set initial_schema. ddl_effect d c2"
    using script_run [OF script shape migration_ddl [OF assms(2)]] m by simp
  moreover have "recorded 1 c \<Longrightarrow> \<forall>d\<in>set initial_schema. ddl_effect d c"
    using ok(2) assms(2,3) m by (auto simp: catalog_ok_def migration_done_def)
  ultimately show "\<forall>d\<in>set initial_schema. ddl_effect d (snd (apply_migration now m c))"
    by (simp add: eq)
  assume "(t, col) \<notin> \<Union> (adds ` set initial_schema)"
  then have "has_column t col c2 = has_column t col c" using frame(4,5) [of t col] m by auto
  then show "has_column t col (snd (apply_migration now m c)) = has_column t col c" by (simp add: eq)
qed

lemma duplicate_column_text:
  "isDuplicateColumnErr (Err (''duplicate column name: '' @ s))"
proof -
  have "sublist ''duplicate column'' (''duplicate column name: '' @ s)"
    by (auto intro: prefix_imp_sublist)
  then show ?thesis by (simp only: isDuplicateColumnErr_def err_text.simps contains_iff_sublist) simp
qed

text \<open>Adding a column to a table that exists, with a healthy engine.\<close>

lemma add_column_healthy:
  assumes "columns t c \<noteq> None"
  shows "fst (run_ddl (AddColumn t col decl) c) =
      (if has_column t col c then Inl (Err (''duplicate column name: '' @ col)) else Inr ())"
    and "has_column t' col' (snd (run_ddl (AddColumn t col decl) c)) \<longleftrightarrow>
      has_column t' col' c \<or> t' = t \<and> col' = col"
  using assms by (auto simp: run_ddl_result has_column_columns columns_add)

lemma second_migration_healthy:
  assumes "migratable c" and "m \<in> set migrations" and "mg_version m = 2"
    and "columns ''api_keys'' c \<noteq> None"
  shows "fst (apply_migration now m c) = Inr ()"
    and "recorded v (snd (apply_migration now m c)) \<longleftrightarrow> recorded v c \<or> v = 2"
    and "has_column ''api_keys'' ''prefix'' (snd (apply_migration now m c))"
    and "has_column ''api_keys'' ''encrypted_key'' (snd (apply_migration now m c)) \<longleftrightarrow>
      has_column ''api_keys'' ''encrypted_key'' c \<or>
      \<not> recorded 2 c \<and> \<not> has_column ''api_keys'' ''prefix'' c"
    and "t \<noteq> ''api_keys'' \<Longrightarrow> has_column t col (snd (apply_migration now m c)) = has_column t col c"
    and "\<forall>d. ddl_effect d c \<longrightarrow> ddl_effect d (snd (apply_migration now m c))"
proof -
  have ok: "ca_faults c = []" "catalog_ok c" "columns ''schema_migrations'' c \<noteq> None"
    using assms(1) by (simp_all add: migratable_def)
  let ?p = "AddColumn ''api_keys'' ''prefix'' (''TEXT DEFAULT '' @ sql_text [])"
  let ?e = "AddColumn ''api_keys'' ''encrypted_key'' (''TEXT DEFAULT '' @ sql_text [])"
  have m: "mg_sql m = [?p, ?e]" by (rule second_migration [OF assms(2,3)])
  obtain r1 c1 where p: "run_ddl ?p c = (r1, c1)" by fastforce
  obtain r2 c2 where e: "run_ddl ?e c1 = (r2, c2)" by fastforce
  have f1: "ca_faults c1 = []" using run_ddl_frame(2) [of ?p c] ok(1) unfolding p by simp
  have c1_cols: "columns ''api_keys'' c1 \<noteq> None"
    using columns_grow [of "''api_keys''" c _ ?p] p assms(4) by auto
  note add1 = add_column_healthy [OF assms(4), where decl = "''TEXT DEFAULT '' @ sql_text []"]
  note add2 = add_column_healthy [OF c1_cols, where decl = "''TEXT DEFAULT '' @ sql_text []"]
  have r1: "r1 = (if has_column ''api_keys'' ''prefix'' c
      then Inl (Err (''duplicate column name: '' @ ''prefix'')) else Inr ())"
    and h1: "\<And>t col. has_column t col c1 \<longleftrightarrow> has_column t col c \<or> t = ''api_keys'' \<and> col = ''prefix''"
    using add1(1) [of "''prefix''"] add1(2) [of _ _ "''prefix''"] p by simp_all
  have r2: "r2 = (if has_column ''api_keys'' ''encrypted_key'' c1
      then Inl (Err (''duplicate column name: '' @ ''encrypted_key'')) else Inr ())"
    and h2: "\<And>t col. has_column t col c2 \<longleftrightarrow> has_column t col c1 \<or> t = ''api_keys'' \<and> col = ''encrypted_key''"
    using add2(1) [of "''encrypted_key''"] add2(2) [of _ _ "''encrypted_key''"] e by simp_all
  obtain r c' where script: "exec_script (mg_sql m) c = (r, c')" by fastforce
  have c': "c' = (if r1 = Inr () then c2 else c1)"
    and r: "r = Inr () \<or> isDuplicateColumnErr (projl r)"
    using script p e ok(1) f1 r1 r2 duplicate_column_text [of "''prefix''"]
      duplicate_column_text [of "''encrypted_key''"]
    by (auto simp: m split: if_splits)
  note eq = apply_healthy [OF ok(1,3) script, of now, unfolded assms(3)]
  show "fst (apply_migration now m c) = Inr ()" using r by (simp add: eq)
  show "recorded v (snd (apply_migration now m c)) \<longleftrightarrow> recorded v c \<or> v = 2"
    using r by (auto simp: eq recorded_def)
  have done2: "recorded 2 c \<Longrightarrow> has_column ''api_keys'' ''prefix'' c"
    using ok(2) assms(2,3) by (auto simp: catalog_ok_def migration_done_def)
  show "has_column ''api_keys'' ''prefix'' (snd (apply_migration now m c))"
    using r done2 h1 h2 by (simp add: eq c')
  show "has_column ''api_keys'' ''encrypted_key'' (snd (apply_migration now m c)) \<longleftrightarrow>
      has_column ''api_keys'' ''encrypted_key'' c \<or>
      \<not> recorded 2 c \<and> \<not> has_column ''api_keys'' ''prefix'' c"
    using r done2 h1 h2 r1 by (auto simp: eq c')
  show "t \<noteq> ''api_keys'' \<Longrightarrow> has_column t col (snd (apply_migration now m c)) = has_column t col c"
    using r h1 h2 by (simp add: eq c')
  have "shape_ok c" using ok(2) by (simp add: catalog_ok_def)
  then have "grows c c'" using script_run [OF script _ migration_ddl [OF assms(2)]] by simp
  then show "\<forall>d. ddl_effect d c \<longrightarrow> ddl_effect d (snd (apply_migration now m c))"
    using r by (simp add: eq grows_def)
qed

definition pwd_duplicate :: gerr where
  "pwd_duplicate = Wrap ''migration 3 (add password_change_required to users)''
     (Err ''duplicate column name: password_change_required'')"

lemma third_migration_healthy:
  assumes "migratable c" and "m \<in> set migrations" and "mg_version m = 3"
    and "columns ''users'' c \<noteq> None"
  shows "fst (apply_migration now m c) =
      (if \<not> recorded 3 c \<and> has_column ''users'' ''password_change_required'' c
       then Inl pwd_duplicate else Inr ())"
    and "recorded v (snd (apply_migration now m c)) \<longleftrightarrow> recorded v c \<or>
      v = 3 \<and> \<not> has_column ''users'' ''password_change_required'' c"
    and "has_column t col (snd (apply_migration now m c)) \<longleftrightarrow>
      has_column t col c \<or> t = ''users'' \<and> col = ''password_change_required''"
    and "\<forall>d. ddl_effect d c \<longrightarrow> ddl_effect d (snd (apply_migration now m c))"
proof -
  have ok: "ca_faults c = []" "catalog_ok c" "columns ''schema_migrations'' c \<noteq> None"
    using assms(1) by (simp_all add: migratable_def)
  let ?d = "AddColumn ''users'' ''password_change_required'' ''INTEGER NOT NULL DEFAULT 0''"
  have m: "mg_sql m = [?d]" "mg_description m = ''add password_change_required to users''"
    using assms(2,3) by (auto simp: migrations_def)
  obtain r c2 where run: "run_ddl ?d c = (r, c2)" by fastforce
  have r: "r = (if has_column ''users'' ''password_change_required'' c
      then Inl (Err (''duplicate column name: '' @ ''password_change_required'')) else Inr ())"
    and h: "\<And>t col. has_column t col c2 \<longleftrightarrow>
      has_column t col c \<or> t = ''users'' \<and> col = ''password_change_required''"
    using add_column_healthy [OF assms(4), where col = "''password_change_required''" and decl = "''INTEGER NOT NULL DEFAULT 0''"]
    unfolding run by simp_all
  have script: "exec_script (mg_sql m) c = (r, c2)" using run ok(1) by (cases r) (simp_all add: m)
  have versions: "ca_versions c2 = ca_versions c" using run_ddl_frame(1) [of ?d c] unfolding run by simp
  have done3: "recorded 3 c \<Longrightarrow> has_column ''users'' ''password_change_required'' c"
    using ok(2) assms(2,3) m(1) by (auto simp: catalog_ok_def migration_done_def)
  have three: "dec_int 3 = ''3''" by code_simp
  note eq = apply_healthy [OF ok(1,3) script, of now, unfolded assms(3) m(2) three]
  show "fst (apply_migration now m c) =
      (if \<not> recorded 3 c \<and> has_column ''users'' ''password_change_required'' c
       then Inl pwd_duplicate else Inr ())"
    by (simp add: eq r pwd_duplicate_def)
  show "recorded v (snd (apply_migration now m c)) \<longleftrightarrow> recorded v c \<or>
      v = 3 \<and> \<not> has_column ''users'' ''password_change_required'' c"
    using done3 versions by (auto simp: eq r recorded_def)
  show "has_column t col (snd (apply_migration now m c)) \<longleftrightarrow>
      has_column t col c \<or> t = ''users'' \<and> col = ''password_change_required''"
    using done3 h by (auto simp: eq)
  show "\<forall>d. ddl_effect d c \<longrightarrow> ddl_effect d (snd (apply_migration now m c))"
    using ddl_effect_kept [of _ c ?d] unfolding run by (auto simp: eq)
qed

section \<open>The result of migrating\<close>

lemma migrate_all_recorded:
  assumes "migratable c" and "recorded 1 c" and "recorded 2 c" and "recorded 3 c"
  shows "migrate now c = (Inr (), c)"
proof -
  have ok: "ca_faults c = []" "columns ''schema_migrations'' c \<noteq> None"
    using assms(1) by (simp_all add: migratable_def)
  have same: "apply_migration now m c = (Inr (), c)" if "m \<in> set migrations" for m
  proof -
    obtain r c2 where "exec_script (mg_sql m) c = (r, c2)" by fastforce
    moreover have "recorded (mg_version m) c" using that assms(2-4) by (auto simp: migrations_def)
    ultimately show ?thesis using apply_healthy [OF ok] by simp
  qed
  have all: "set ms \<subseteq> set migrations \<Longrightarrow> apply_all now ms c = (Inr (), c)" for ms
    by (induction ms) (simp_all add: same)
  have "run_ddl migrations_table c = (Inr (), c)"
    using ok(2) by (auto simp: run_ddl.simps migrations_table_def columns_None)
  then show ?thesis using ok(1) all [of migrations] by (simp add: migrate_def)
qed

text \<open>A run whose third migration added its column but was stopped before it was recorded.\<close>

definition stuck :: "catalog \<Rightarrow> bool" where
  "stuck c \<longleftrightarrow> \<not> recorded 3 c \<and> has_column ''users'' ''password_change_required'' c"

lemma migrate_healthy:
  assumes "catalog_ok c" and "ca_faults c = []"
  shows "fst (migrate now c) = (if stuck c then Inl pwd_duplicate else Inr ())"
    and "recorded v (snd (migrate now c)) \<longleftrightarrow> recorded v c \<or> v \<in> {1, 2} \<or> v = 3 \<and> \<not> stuck c"
    and "\<forall>d\<in>set initial_schema. ddl_effect d (snd (migrate now c))"
    and "has_column ''users'' ''password_change_required'' (snd (migrate now c))"
    and "has_column ''api_keys'' ''prefix'' (snd (migrate now c))"
    and "has_column ''api_keys'' ''encrypted_key'' (snd (migrate now c)) \<longleftrightarrow>
      has_column ''api_keys'' ''encrypted_key'' c \<or>
      \<not> recorded 2 c \<and> \<not> has_column ''api_keys'' ''prefix'' c"
    and "migratable (snd (migrate now c))"
proof -
  obtain m1 m2 m3 where ms: "migrations = [m1, m2, m3]" and v: "mg_version m1 = 1" "mg_version m2 = 2" "mg_version m3 = 3"
    unfolding migrations_def by fastforce
  have mem: "m1 \<in> set migrations" "m2 \<in> set migrations" "m3 \<in> set migrations" by (simp_all add: ms)
  obtain r0 c0 where r0: "run_ddl migrations_table c = (r0, c0)" by fastforce
  have c0: "c0 = snd (run_ddl migrations_table c)" and "r0 = Inr ()"
    using r0 run_ddl_result(1) by (simp_all add: migrations_table_def) (metis fst_conv)
  have h0: "has_column t col c0 \<longleftrightarrow> has_column t col c" if "t \<noteq> ''schema_migrations''" for t col
    using that by (auto simp: c0 has_column_columns migrations_table_def columns_create)
  have f0: "ca_faults c0 = []" "ca_versions c0 = ca_versions c"
    using assms(2) by (simp_all add: c0)
  have "plain_faults c" using assms(2) by (simp add: plain_faults_def)
  have "shape_ok c0" using assms(1) unfolding c0
    by (intro run_ddl_shape) (simp_all add: catalog_ok_def schema_ddl_def)
  then have "catalog_ok c0"
    using f0(2) by (intro catalog_ok_grows [OF assms(1)]) (simp_all add: c0 grows_run recorded_def)
  moreover have "columns ''schema_migrations'' c0 \<noteq> None"
    by (simp add: c0 migrations_table_def columns_create)
  ultimately have ok0: "migratable c0" using f0 by (simp add: migratable_def)
  define c1 where "c1 = snd (apply_migration now m1 c0)"
  define c2 where "c2 = snd (apply_migration now m2 c1)"
  define c3 where "c3 = snd (apply_migration now m3 c2)"
  have ok1: "migratable c1" using apply_migratable [OF ok0 mem(1)] by (simp add: c1_def)
  have ok2: "migratable c2" using apply_migratable [OF ok1 mem(2)] by (simp add: c2_def)
  have ok3: "migratable c3" using apply_migratable [OF ok2 mem(3)] by (simp add: c3_def)
  note one = first_migration_healthy [OF ok0 mem(1) v(1), where now = now, folded c1_def]
  have tables: "columns ''api_keys'' c1 \<noteq> None" "columns ''users'' c1 \<noteq> None"
    using one(3) by (auto simp: initial_schema_def split: option.splits)
  note two = second_migration_healthy [OF ok1 mem(2) v(2) tables(1), where now = now, folded c2_def]
  have "has_column ''users'' ''id'' c1"
    using one(3) by (auto simp: initial_schema_def has_column_columns split: option.splits)
  then have "has_column ''users'' ''id'' c2" using two(5) [of "''users''"] by simp
  then have users2: "columns ''users'' c2 \<noteq> None" by (auto simp: has_column_columns)
  note three = third_migration_healthy [OF ok2 mem(3) v(3) users2, where now = now, folded c3_def]
  let ?pwd = "''password_change_required''" and ?enc = "''encrypted_key''" and ?pre = "''prefix''"
  have new: "(''users'', ?pwd) \<notin> \<Union> (adds ` set initial_schema)"
    "(''api_keys'', ?enc) \<notin> \<Union> (adds ` set initial_schema)"
    "(''api_keys'', ?pre) \<notin> \<Union> (adds ` set initial_schema)"
    by (simp_all add: initial_schema_def)
  have rec0: "recorded w c0 = recorded w c" for w using f0(2) by (simp add: recorded_def)
  have cols2: "has_column ''users'' ?pwd c2 = has_column ''users'' ?pwd c"
    "has_column ''api_keys'' ?enc c2 \<longleftrightarrow> has_column ''api_keys'' ?enc c \<or> \<not> recorded 2 c \<and> \<not> has_column ''api_keys'' ?pre c"
    using two(4,5) one(2,4) new h0 rec0 by simp_all
  have rec2: "recorded w c2 \<longleftrightarrow> recorded w c \<or> w \<in> {1, 2}" for w
    using one(2) two(2) rec0 by auto
  have run: "migrate now c = (fst (apply_migration now m3 c2), c3)"
    using assms(2) r0 \<open>r0 = Inr ()\<close> one(1) two(1)
    by (cases "apply_migration now m1 c0"; cases "apply_migration now m2 c1"; cases "apply_migration now m3 c2")
      (auto simp: migrate_def ms c1_def c2_def c3_def split: sum.split)
  show "fst (migrate now c) = (if stuck c then Inl pwd_duplicate else Inr ())"
    using three(1) cols2(1) rec2 by (simp add: run stuck_def)
  show "recorded v (snd (migrate now c)) \<longleftrightarrow> recorded v c \<or> v \<in> {1, 2} \<or> v = 3 \<and> \<not> stuck c"
    using three(2) [of v] cols2(1) rec2 by (auto simp: run stuck_def)
  show "has_column ''users'' ?pwd (snd (migrate now c))"
    "has_column ''api_keys'' ?pre (snd (migrate now c))"
    "has_column ''api_keys'' ?enc (snd (migrate now c)) \<longleftrightarrow>
      has_column ''api_keys'' ?enc c \<or> \<not> recorded 2 c \<and> \<not> has_column ''api_keys'' ?pre c"
    using three(3) two(3) cols2(2) by (simp_all add: run)
  have "\<forall>d\<in>set initial_schema. ddl_effect d c2" using one(3) two(6) by simp
  then show "\<forall>d\<in>set initial_schema. ddl_effect d (snd (migrate now c))"
    using three(4) by (simp add: run)
  show "migratable (snd (migrate now c))" using ok3 by (simp add: run)
qed

section \<open>Opening a database once more\<close>

lemma NewSystemDB_healthy:
  assumes "ca_faults (sf_catalog f) = []"
  shows "NewSystemDB None prepare now f =
     (case migrate now (sf_catalog f) of
        (Inl e, c) \<Rightarrow> (Inl (Wrap ''migrate system db'' e), f\<lparr>sf_catalog := c\<rparr>)
      | (Inr _, c) \<Rightarrow>
          (Inr (audit_start prepare ((sf_rows f)\<lparr>audit_ch := [],
                  audit_closed := False, audit_done := False, audit_flushed := []\<rparr>)),
           f\<lparr>sf_catalog := c\<rparr>))"
  using assms by (simp add: NewSystemDB_def)

lemma audit_start_tables [simp]:
  "db_users (audit_start p s) = db_users s" "db_keys (audit_start p s) = db_keys s"
  "db_sessions (audit_start p s) = db_sessions s" "db_audit (audit_start p s) = db_audit s"
  "db_repl (audit_start p s) = db_repl s" "db_repl_state (audit_start p s) = db_repl_state s"
  by (simp_all add: audit_start_def split: option.split)

lemma NewSystemDB_stuck:
  assumes "catalog_ok (sf_catalog f)" and "ca_faults (sf_catalog f) = []" and "stuck (sf_catalog f)"
  shows "fst (NewSystemDB None prepare now f) = Inl (Wrap ''migrate system db'' pwd_duplicate) \<and>
     stuck (sf_catalog (snd (NewSystemDB None prepare now f)))"
proof -
  obtain c where m: "migrate now (sf_catalog f) = (Inl pwd_duplicate, c)"
    using migrate_healthy(1) [OF assms(1,2), of now] assms(3) by (cases "migrate now (sf_catalog f)") simp
  then show ?thesis
    using migrate_healthy(2) [OF assms(1,2), of 3 now] migrate_healthy(4) [OF assms(1,2), of now] assms(3)
    by (simp add: NewSystemDB_healthy [OF assms(2)] stuck_def)
qed

lemma NewSystemDB_opens:
  assumes "catalog_ok (sf_catalog f)" and "ca_faults (sf_catalog f) = []" and "\<not> stuck (sf_catalog f)"
  obtains db c where "NewSystemDB None prepare now f = (Inr db, f\<lparr>sf_catalog := c\<rparr>)"
    and "db = audit_start prepare ((sf_rows f)\<lparr>audit_ch := [], audit_closed := False,
                audit_done := False, audit_flushed := []\<rparr>)"
    and "migratable c" and "\<forall>v\<in>{1, 2, 3}. recorded v c"
    and "\<forall>d\<in>set initial_schema. ddl_effect d c"
    and "has_column ''users'' ''password_change_required'' c" and "has_column ''api_keys'' ''prefix'' c"
    and "has_column ''api_keys'' ''encrypted_key'' c \<longleftrightarrow>
      has_column ''api_keys'' ''encrypted_key'' (sf_catalog f) \<or>
      \<not> recorded 2 (sf_catalog f) \<and> \<not> has_column ''api_keys'' ''prefix'' (sf_catalog f)"
    and "\<forall>now'. migrate now' c = (Inr (), c)"
proof -
  obtain c where m: "migrate now (sf_catalog f) = (Inr (), c)"
    using migrate_healthy(1) [OF assms(1,2), of now] assms(3) by (cases "migrate now (sf_catalog f)") simp
  note h = migrate_healthy [OF assms(1,2), where now = now, unfolded m snd_conv]
  have rec: "\<forall>v\<in>{1, 2, 3}. recorded v c" using h(2) assms(3) by simp
  show thesis
    by (rule that [OF _ refl h(7) rec h(3) h(4) h(5) h(6)])
      (use m rec h(7) in \<open>simp_all add: NewSystemDB_healthy [OF assms(2)] migrate_all_recorded\<close>)
qed

end
