(* ===== verification/StorageProperties.thy ===== *)
theory StorageProperties
  imports Samples SchemaMigration
begin

text \<open>
  The properties of the components behind the storage: transactions, the life of an encrypted
  database, files, backups, replication, the monitor, the configuration and the encodings.
\<close>

section \<open>The schema of the system database\<close>

text \<open>Claim C29.
  Opening the system database, whatever earlier openings went through: with a working engine it
  succeeds unless an earlier run added the column of the third migration and stopped before
  recording it. Then the schema is complete, all three migrations are recorded, the rows are as
  they were, the audit channel is new, and opening once more changes nothing; only the column
  encrypted_key can be missing, when the second migration had stopped between its two statements.
  In the excluded case this opening fails, and leaves what makes the next one fail.\<close>

theorem system_database_opens:
  assumes "schema_reach c" and "sf_catalog f = c\<lparr>ca_faults := []\<rparr>"
  shows "case NewSystemDB None None now f of
     (Inl e, f') \<Rightarrow>
       stuck c \<and> e = Wrap ''migrate system db'' pwd_duplicate \<and> stuck (sf_catalog f')
   | (Inr db, f') \<Rightarrow>
       \<not> stuck c \<and> (\<forall>v\<in>{1, 2, 3}. recorded v (sf_catalog f')) \<and>
       (\<forall>d\<in>set initial_schema. ddl_effect d (sf_catalog f')) \<and>
       has_column ''users'' ''password_change_required'' (sf_catalog f') \<and>
       has_column ''api_keys'' ''prefix'' (sf_catalog f') \<and>
       (has_column ''api_keys'' ''encrypted_key'' (sf_catalog f') \<longleftrightarrow>
          has_column ''api_keys'' ''encrypted_key'' c \<or>
          \<not> recorded 2 c \<and> \<not> has_column ''api_keys'' ''prefix'' c) \<and>
       db_users db = db_users (sf_rows f) \<and> db_keys db = db_keys (sf_rows f) \<and>
       db_sessions db = db_sessions (sf_rows f) \<and> db_repl db = db_repl (sf_rows f) \<and>
       audit_ch db = [] \<and> snd (NewSystemDB None None now' f') = f'"
proof -
  have ok: "catalog_ok (sf_catalog f)" and quiet: "ca_faults (sf_catalog f) = []"
    and stuck: "stuck (sf_catalog f) \<longleftrightarrow> stuck c"
    using schema_reach_ok [OF assms(1)] assms(2) by (simp_all add: stuck_def has_column_def find_table_def)
  show ?thesis
  proof (cases "stuck c")
    case True
    then show ?thesis using NewSystemDB_stuck [OF ok quiet, of None now] stuck by (auto split: prod.split sum.split)
  next
    case False
    then have ns: "\<not> stuck (sf_catalog f)" using stuck by simp
    obtain db c' where n: "NewSystemDB None None now f = (Inr db, f\<lparr>sf_catalog := c'\<rparr>)"
      and db: "db = audit_start None ((sf_rows f)\<lparr>audit_ch := [], audit_closed := False,
                audit_done := False, audit_flushed := []\<rparr>)"
      and c': "migratable c'" "\<forall>v\<in>{1, 2, 3}. recorded v c'" "\<forall>d\<in>set initial_schema. ddl_effect d c'"
        "has_column ''users'' ''password_change_required'' c'" "has_column ''api_keys'' ''prefix'' c'"
        "has_column ''api_keys'' ''encrypted_key'' c' \<longleftrightarrow>
          has_column ''api_keys'' ''encrypted_key'' (sf_catalog f) \<or>
          \<not> recorded 2 (sf_catalog f) \<and> \<not> has_column ''api_keys'' ''prefix'' (sf_catalog f)"
      and again: "\<forall>now'. migrate now' c' = (Inr (), c')"
      by (rule NewSystemDB_opens [OF ok quiet ns, where now = now and prepare = None])
    have "snd (NewSystemDB None None now' (f\<lparr>sf_catalog := c'\<rparr>)) = f\<lparr>sf_catalog := c'\<rparr>"
      using c'(1) by (simp add: NewSystemDB_healthy migratable_def again)
    then show ?thesis
      using False c' assms(2) by (simp add: n db audit_start_def has_column_def find_table_def)
  qed
qed

theorem system_database_opens_witness:
  "(\<exists>db f'. NewSystemDB None None 7 \<lparr>sf_catalog = new_catalog, sf_rows = empty_sysdb\<rparr> = (Inr db, f') \<and>
      has_column ''api_keys'' ''encrypted_key'' (sf_catalog f')) \<and>
   (\<exists>f'. NewSystemDB None None 7 \<lparr>sf_catalog = snd (migrate 5
        (new_catalog\<lparr>ca_faults := replicate 17 None @ [Some (Err ''disk full'')]\<rparr>)), sf_rows = empty_sysdb\<rparr> =
      (Inl (Wrap ''migrate system db'' pwd_duplicate), f') \<and> stuck (sf_catalog f'))"
proof
  let ?f = "\<lparr>sf_catalog = new_catalog, sf_rows = empty_sysdb\<rparr>"
  have fresh: "\<not> stuck new_catalog" "\<not> recorded 2 new_catalog" "\<not> has_column ''api_keys'' ''prefix'' new_catalog"
    by code_simp+
  obtain r f' where n: "NewSystemDB None None 7 ?f = (r, f')" by fastforce
  have "sf_catalog ?f = new_catalog\<lparr>ca_faults := []\<rparr>" by (simp add: new_catalog_def)
  from system_database_opens [OF schema_reach.new this, of 8 7] fresh n
  show "\<exists>db f'. NewSystemDB None None 7 ?f = (Inr db, f') \<and>
      has_column ''api_keys'' ''encrypted_key'' (sf_catalog f')"
    by (cases r) simp_all
next
  let ?c0 = "new_catalog\<lparr>ca_faults := replicate 17 None @ [Some (Err ''disk full'')]\<rparr>"
  let ?c = "snd (migrate 5 ?c0)"
  let ?f = "\<lparr>sf_catalog = ?c, sf_rows = empty_sysdb\<rparr>"
  have "\<not> isDuplicateColumnErr (Err ''disk full'')" by code_simp
  then have reach: "schema_reach ?c"
    by (intro schema_reach.opened schema_reach.new) (auto simp: plain_faults_def)
  have stuck: "stuck ?c" and quiet: "ca_faults ?c = []" by code_simp+
  have same: "x\<lparr>ca_faults := []\<rparr> = x" if "ca_faults x = []" for x :: catalog using that by (cases x) simp
  obtain r f' where n: "NewSystemDB None None 7 ?f = (r, f')" by (rule prod.exhaust)
  have "sf_catalog ?f = ?c\<lparr>ca_faults := []\<rparr>" 
    by (simp only: system_file.select_convs same [OF quiet])
  from system_database_opens [OF reach this, of 8 7] stuck n
  show "\<exists>f'. NewSystemDB None None 7 ?f = (Inl (Wrap ''migrate system db'' pwd_duplicate), f') \<and>
      stuck (sf_catalog f')"
    by (cases r) simp_all
qed

section \<open>Transactions\<close>

text \<open>Claim C30.
  A transaction that begins runs every non-blank statement of its list, in order, whatever the
  earlier ones returned, and is then always taken to its commit: an error of a statement becomes
  the error text of its entry, and nothing is ever rolled back because of it. The answer has one
  entry for each statement.\<close>

theorem transaction_runs_all_and_commits:
  "run_transaction eng dur queries se =
     (case sq_begin eng se of
        (Inl e, se1) \<Rightarrow> (Inl (Wrap ''begin transaction'' e), se1)
      | (Inr _, se1) \<Rightarrow>
          let (rs, se2) = tx_stmts eng dur (statements_of queries) se1; (c, se3) = sq_commit eng se2
          in ((case c of Inl e \<Rightarrow> Inl (Wrap ''commit transaction'' e)
                       | Inr _ \<Rightarrow> Inr \<lparr>tr_Results = rs, tr_Error = []\<rparr>), se3)) \<and>
   length (fst (tx_stmts eng dur (statements_of queries) se1)) = length (statements_of queries)"
  by (simp add: run_transaction_eq length_tx_stmts)

section \<open>Encrypted databases\<close>

text \<open>Claim C31.
  A database that was encrypted before it is opened does not survive its next life: whatever is
  run on the open connection, after the close its file holds the old sealed bytes sealed once
  more, so that decrypting it gives ciphertext and everything written is lost.\<close>

theorem sealed_database_loses_writes:
  assumes "sealed_db d name m s c enc clear" and "gcm_ok (de_gcm d)"
    and "Open d now name m s = (Inr (), m1, s1)"
    and "on_db f name m1 s1 = (r, m2, s2)"
    and "os_rand s = Some n # rs" and "length n = NonceSize"
    and "Close d now' name m2 s2 = (Inr (), m3, s3)"
  shows "\<exists>bytes. content (resolvePath m name) s3 = Some bytes \<and> Decrypt (de_gcm d) c bytes = Inr enc"
  using sealed_life [OF assms(1,3,4,5,6,7)] Decrypt_sealed [OF assms(2,6), of c enc] by simp

theorem sealed_database_loses_writes_witness:
  "\<exists>bytes. content ''data/app'' (snd (snd (let (_, m1, s1) = Open sample_db_env 0 ''app'' sealed_manager
       (one_file ''data/app'' sample_sealed); (_, m2, s2) = on_db (sq_exec sample_engine ''INSERT'' []) ''app'' m1 s1
     in Close sample_db_env 1 ''app'' m2 s2))) = Some bytes \<and>
     Decrypt sample_gcm sample_cipher bytes = Inr sample_sealed"
proof -
  let ?s = "one_file ''data/app'' sample_sealed"
  obtain o1 m1 s1 where o: "Open sample_db_env 0 ''app'' sealed_manager ?s = (o1, m1, s1)"
    by (metis prod_cases3)
  obtain r m2 s2 where u: "on_db (sq_exec sample_engine ''INSERT'' []) ''app'' m1 s1 = (r, m2, s2)"
    by (metis prod_cases3)
  obtain o3 m3 s3 where c: "Close sample_db_env 1 ''app'' m2 s2 = (o3, m3, s3)"
    by (metis prod_cases3)
  have "fst (Open sample_db_env 0 ''app'' sealed_manager ?s) = Inr ()" by code_simp
  then have o1: "o1 = Inr ()" using o by simp
  have "fst (let (_, m1, s1) = Open sample_db_env 0 ''app'' sealed_manager ?s;
      (_, m2, s2) = on_db (sq_exec sample_engine ''INSERT'' []) ''app'' m1 s1
      in Close sample_db_env 1 ''app'' m2 s2) = Inr ()" by code_simp
  then have o3: "o3 = Inr ()" using o u c by simp
  have "sealed_db sample_db_env ''app'' sealed_manager ?s sample_cipher sample_sealed ''text''"
    unfolding sealed_db_def by (intro conjI) code_simp+
  moreover have "resolvePath sealed_manager ''app'' = ''data/app''" by code_simp
  moreover have "os_rand ?s = [Some (replicate 12 CHR ''n''), Some (replicate 12 CHR ''o'')]"
    by (simp add: one_file_def)
  ultimately show ?thesis
    using sealed_database_loses_writes [OF _ _ o [unfolded o1] u _ _ c [unfolded o3]] o u c
    by (simp add: sample_gcm_ok NonceSize_def)
qed

text \<open>Claim C32.
  A database whose file did not exist when it was opened ends up encrypted exactly once: after
  the close, decrypting its file gives the bytes that the engine left.\<close>

theorem fresh_database_is_encrypted_once:
  assumes "m_cipher m = Some c" and "m_decDir m \<noteq> []" and "map_of (m_dbs m) name = None"
    and "gcm_ok (de_gcm d)"
    and "content (resolvePath m name) s = None" and "content (path_join [m_decDir m, name]) s = None"
    and "\<not> is_dir (resolvePath m name) s" and "\<not> is_dir (path_join [m_decDir m, name]) s"
    and "path_clean (resolvePath m name) \<noteq> path_clean (path_join [m_decDir m, name])"
    and "os_faults s = []" and "os_ok s"
    and "Open d now name m s = (Inr (), m1, s1)"
    and "on_db f name m1 s1 = (r, m2, s2)"
    and "map_of (m_dbs m2) name = Some h" and "closed_main (de_engine d) h s2 \<noteq> []"
    and "os_rand s = Some n # rs" and "length n = NonceSize"
    and "Close d now' name m2 s2 = (Inr (), m3, s3)"
  shows "\<exists>bytes. content (resolvePath m name) s3 = Some bytes \<and>
     Decrypt (de_gcm d) c bytes = Inr (closed_main (de_engine d) h s2)"
  using fresh_life [OF assms(1-3) assms(5-18)] Decrypt_sealed [OF assms(4,17), of c] by simp

theorem fresh_database_is_encrypted_once_witness:
  "\<exists>bytes. content ''data/app'' (snd (snd (let (_, m1, s1) = Open sample_db_env 0 ''app'' sealed_manager
       (one_file ''data/other'' ''x''); (_, m2, s2) = on_db (sq_exec sample_engine ''INSERT'' []) ''app'' m1 s1
     in Close sample_db_env 1 ''app'' m2 s2))) = Some bytes \<and>
     Decrypt sample_gcm sample_cipher bytes = Inr ''INSERT''"
proof -
  let ?s = "one_file ''data/other'' ''x''"
  let ?run = "\<lambda>k. let (_, m1, s1) = Open sample_db_env 0 ''app'' sealed_manager ?s;
      (_, m2, s2) = on_db (sq_exec sample_engine ''INSERT'' []) ''app'' m1 s1 in k m2 s2"
  obtain o1 m1 s1 where o: "Open sample_db_env 0 ''app'' sealed_manager ?s = (o1, m1, s1)"
    by (metis prod_cases3)
  obtain r m2 s2 where u: "on_db (sq_exec sample_engine ''INSERT'' []) ''app'' m1 s1 = (r, m2, s2)"
    by (metis prod_cases3)
  obtain o3 m3 s3 where c: "Close sample_db_env 1 ''app'' m2 s2 = (o3, m3, s3)"
    by (metis prod_cases3)
  have "fst (Open sample_db_env 0 ''app'' sealed_manager ?s) = Inr ()" by code_simp
  then have o1: "o1 = Inr ()" using o by simp
  have "fst (?run (Close sample_db_env 1 ''app'')) = Inr ()" by code_simp
  then have o3: "o3 = Inr ()" using o u c by simp
  have "?run (\<lambda>m2 s2. map_option (\<lambda>h. closed_main sample_engine h s2) (map_of (m_dbs m2) ''app'')) = Some ''INSERT''"
    by code_simp
  then obtain h where h: "map_of (m_dbs m2) ''app'' = Some h" "closed_main sample_engine h s2 = ''INSERT''"
    using o u by auto
  have p: "resolvePath sealed_manager ''app'' = ''data/app''"
      "path_join [m_decDir sealed_manager, ''app''] = ''tmp/app''"
      "content ''data/app'' ?s = None" "content ''tmp/app'' ?s = None"
      "path_clean ''data/app'' \<noteq> path_clean ''tmp/app''" "os_ok ?s"
      "\<not> is_dir ''data/app'' ?s" "\<not> is_dir ''tmp/app'' ?s" "os_faults ?s = []"
    by code_simp+
  have r: "os_rand ?s = Some (replicate 12 CHR ''n'') # [Some (replicate 12 CHR ''o'')]"
    by (simp add: one_file_def)
  have m: "m_cipher sealed_manager = Some sample_cipher" "m_decDir sealed_manager \<noteq> []"
      "map_of (m_dbs sealed_manager) ''app'' = None"
    by (simp_all add: sealed_manager_def NewEncryptedManager_def)
  show ?thesis
    using fresh_database_is_encrypted_once [OF m _ _ _ _ _ _ _ _ o [unfolded o1] u h(1) _ r _ c [unfolded o3]]
      p h(2) o u c
    by (simp add: sample_gcm_ok NonceSize_def)
qed

text \<open>Claim C33.
  Encrypting a file in place and decrypting it again succeeds with the same key, leaves the bytes
  it had, and changes no other file.\<close>

theorem encrypted_file_roundtrip:
  assumes "gcm_ok g" and "os_ok s" and "os_faults s = []" and "\<not> is_dir p s"
    and "content p s = Some d" and "EncryptFile g c now p s = (Inr (), s1)"
  shows "fst (DecryptFile g c now' p s1) = Inr () \<and>
     content q (snd (DecryptFile g c now' p s1)) = content q s"
  using assms by (rule file_roundtrip)

theorem encrypted_file_roundtrip_witness:
  "content ''f'' (snd (DecryptFile sample_gcm sample_cipher 2 ''f''
     (snd (EncryptFile sample_gcm sample_cipher 1 ''f'' (one_file ''f'' ''secret''))))) = Some ''secret''"
proof -
  let ?s = "one_file ''f'' ''secret''"
  obtain r s1 where e: "EncryptFile sample_gcm sample_cipher 1 ''f'' ?s = (r, s1)" by fastforce
  have "fst (EncryptFile sample_gcm sample_cipher 1 ''f'' ?s) = Inr ()" by code_simp
  then have e': "EncryptFile sample_gcm sample_cipher 1 ''f'' ?s = (Inr (), s1)" using e by simp
  have s: "os_ok ?s" "os_faults ?s = []" "\<not> is_dir ''f'' ?s" "content ''f'' ?s = Some ''secret''"
    by code_simp+
  show ?thesis
    using encrypted_file_roundtrip [OF sample_gcm_ok s e', of 2 "''f''"] s(4) e by simp
qed

section \<open>Backups\<close>

text \<open>Claim C34.
  A restore that returns without error, of a backup given by its path or its name, in WAL mode or not and
  with encryption or not, leaves the bytes of the backup as the database's file and the backup as it
  was; the database is open, and what its connection has is exactly those bytes, decrypted where
  there is a cipher, with an empty log. What it needs: no failing system call; no log of an
  earlier process beside a database that is not open (\<open>ready_to_restore\<close>; the code does not remove it, see
  the findings); an engine that closes with a checkpoint and whose pragmas leave the restored file as
  it is, that is, a backup in the journal mode of the server.\<close>

theorem restore_brings_bytes_back:
  assumes "os_faults s = []" and "os_ok s" and "bm_dataDir bm = m_dataDir m"
    and "ready_to_restore dbName m s" and "closes_clean (de_engine d)"
    and "opens_unchanged (de_engine d) (m_walMode m) (opened_bytes d m x)"
    and "f = fst (resolve_backup f0 bm s)" and "content f s = Some x" and "\<not> is_dir f s"
    and "\<not> is_dir (resolvePath m dbName) s" and "path_clean f \<noteq> path_clean (resolvePath m dbName)"
    and "RestoreBackup d now f0 dbName bm m s = (Inr (), m', s')"
  shows "content (resolvePath m dbName) s' = Some x \<and> content f s' = Some x \<and>
    (\<exists>h. map_of (m_dbs m') dbName = Some h \<and> i_main (os_data s' (h_inode h)) = opened_bytes d m x \<and>
       i_wal (os_data s' (h_inode h)) = [])"
  using restore_bytes [OF assms] by (simp add: holds_bytes_def)

text \<open>An open database in WAL mode with writes in its log, and a sealed backup for an encrypted one.\<close>

definition logged_file :: "string \<Rightarrow> os" where
  "logged_file bytes = empty_os\<lparr>os_names := [(''backups/old'', 0), (''data/main'', 1)], os_next := 2,
     os_data := (\<lambda>i. \<lparr>i_main = (if i = 0 then bytes else ''now''), i_wal = (if i = 0 then [] else ''log''),
                     i_mtime = 0\<rparr>)\<rparr>"

theorem restore_brings_bytes_back_witness:
  "(let (r, _, s') = RestoreBackup sample_db_env 5 ''old'' ''main'' (NewBackupManager ''backups'' ''data'' None)
       ((NewManager ''data'' True 1)\<lparr>m_dbs := [(''main'', \<lparr>h_inode = 1, h_tx = None, h_log = []\<rparr>)]\<rparr>) (logged_file ''rows'')
   in r = Inr () \<and> content ''data/main'' s' = Some ''rows'') \<and>
   (let (r, m', s') = RestoreBackup sample_db_env 5 ''old'' ''copy'' (NewBackupManager ''backups'' ''data'' (Some sample_cipher))
       (NewEncryptedManager ''data'' True 1 sample_cipher ''tmp'')
       (logged_file (replicate 12 CHR ''n'' @ ''rows'' @ replicate 16 CHR ''0''))
   in r = Inr () \<and> (\<exists>h. map_of (m_dbs m') ''copy'' = Some h \<and> i_main (os_data s' (h_inode h)) = ''rows''))"
  (is "?one \<and> ?two")
proof
  note engine = sample_engine_ok [folded sample_db_simps(1)]
  have paths: "path_clean ''data/main'' = ''data/main''" "path_clean ''data/copy'' = ''data/copy''"
    "path_clean ''backups/old'' = ''backups/old''" "path_join [''tmp'', ''copy''] = ''tmp/copy''"
    "path_clean ''tmp/copy'' = ''tmp/copy''"
    by code_simp+
  have s: "os_faults (logged_file x) = []" "os_ok (logged_file x)" "content ''backups/old'' (logged_file x) = Some x"
    "\<not> is_dir p (logged_file x)" for x p
    by (simp_all add: logged_file_def empty_os_def os_ok_def content_def find_file_def is_dir_def paths)
  show ?one
  proof -
    let ?m = "(NewManager ''data'' True 1)\<lparr>m_dbs := [(''main'', \<lparr>h_inode = 1, h_tx = None, h_log = []\<rparr>)]\<rparr>"
    let ?bm = "NewBackupManager ''backups'' ''data'' None" and ?s = "logged_file ''rows''"
    obtain r m' s' where run: "RestoreBackup sample_db_env 5 ''old'' ''main'' ?bm ?m ?s = (r, m', s')" by (metis prod_cases3)
    have "fst (RestoreBackup sample_db_env 5 ''old'' ''main'' ?bm ?m ?s) = Inr ()" by code_simp
    then have r: "r = Inr ()" using run by simp
    have f: "''backups/old'' = fst (resolve_backup ''old'' ?bm ?s)" by code_simp
    have m: "resolvePath ?m ''main'' = ''data/main''" by code_simp
    have dd: "bm_dataDir ?bm = m_dataDir ?m" and ne: "path_clean ''backups/old'' \<noteq> path_clean (resolvePath ?m ''main'')"
      by code_simp+
    have ready: "ready_to_restore ''main'' ?m ?s"
      by (auto simp: ready_to_restore_def resolvePath_def paths NewManager_def logged_file_def find_file_def split: if_splits)
    show ?thesis
      using restore_brings_bytes_back [OF s(1,2) dd ready engine(2,3) f s(3,4,4) ne run [unfolded r]] run r
      unfolding m by auto
  qed
  show ?two
  proof -
    let ?m = "NewEncryptedManager ''data'' True 1 sample_cipher ''tmp''" and ?x = "replicate 12 CHR ''n'' @ ''rows'' @ replicate 16 CHR ''0''"
    let ?bm = "NewBackupManager ''backups'' ''data'' (Some sample_cipher)"
    let ?s = "logged_file ?x"
    obtain r m' s' where run: "RestoreBackup sample_db_env 5 ''old'' ''copy'' ?bm ?m ?s = (r, m', s')" by (metis prod_cases3)
    have "fst (RestoreBackup sample_db_env 5 ''old'' ''copy'' ?bm ?m ?s) = Inr ()" by code_simp
    then have r: "r = Inr ()" using run by simp
    have f: "''backups/old'' = fst (resolve_backup ''old'' ?bm ?s)" by code_simp
    have m: "resolvePath ?m ''copy'' = ''data/copy''" "m_decDir ?m = ''tmp''" "opened_bytes sample_db_env ?m ?x = ''rows''"
      by code_simp+
    have dd: "bm_dataDir ?bm = m_dataDir ?m" and ne: "path_clean ''backups/old'' \<noteq> path_clean (resolvePath ?m ''copy'')"
      by code_simp+
    have ready: "ready_to_restore ''copy'' ?m ?s"
      by (auto simp: ready_to_restore_def resolvePath_def paths is_dir_def empty_os_def NewEncryptedManager_def logged_file_def find_file_def wal_of_def)
    show ?thesis
      using restore_brings_bytes_back [OF s(1,2) dd ready engine(2,3) f s(3,4,4) ne run [unfolded r]] run r
      unfolding m by auto
  qed
qed

section \<open>Replication\<close>



end
