(* ===== verification/ToolValues.thy ===== *)
theory ToolValues
  imports GoStrings
begin

text \<open>
  What the client and the commands use of Go's standard library on values: the values that
  \<open>encoding/json\<close> decodes into an \<open>interface{}\<close>, how \<open>fmt\<close> prints them, how a struct picks its
  fields out of an object, which texts \<open>strconv.ParseFloat\<close> accepts, and how many runes a string
  has.
\<close>

section \<open>Decoded JSON\<close>

text \<open>
  A number is a \<open>float64\<close>, given by its sign and its shortest decimal digits with the position of
  the decimal point: \<open>JNum False ''15'' 1\<close> is 1.5. Zero has no digits.
\<close>

datatype jval =
    JNull
  | JBool bool
  | JNum bool string int
  | JStr string
  | JArr "jval list"
  | JObj "(string \<times> jval) list"

text \<open>A whole number of at most 15 digits is its own shortest decimal.\<close>

definition strip_zeros :: "string \<Rightarrow> string" where
  "strip_zeros s = rev (dropWhile (\<lambda>c. c = CHR ''0'') (rev s))"

definition jint :: "int \<Rightarrow> jval" where
  "jint n = JNum (n < 0) (strip_zeros (dec_nat (nat \<bar>n\<bar>)))
     (if n = 0 then 0 else int (length (dec_nat (nat \<bar>n\<bar>))))"

section \<open>Printing\<close>

text \<open>The formats \<open>%f\<close> and \<open>%e\<close> of shortest digits, and \<open>%v\<close>, which chooses between them.\<close>

definition float_f :: "string \<Rightarrow> int \<Rightarrow> string" where
  "float_f ds dp =
     (let whole = (if 0 < dp then take (nat dp) ds @ replicate (nat dp - length ds) CHR ''0'' else ''0'');
          frac = (if 0 < dp then drop (nat dp) ds else replicate (nat (- dp)) CHR ''0'' @ ds)
      in if ds = [] then ''0'' else if frac = [] then whole else whole @ CHR ''.'' # frac)"

definition float_e :: "string \<Rightarrow> int \<Rightarrow> string" where
  "float_e ds dp =
     (case ds of [] \<Rightarrow> ''0e+00''
      | d # r \<Rightarrow>
          (let e = dp - 1; n = dec_nat (nat \<bar>e\<bar>) in
           (if r = [] then [d] else d # CHR ''.'' # r) @ CHR ''e'' # (if e < 0 then CHR ''-'' else CHR ''+'') #
           (if length n < 2 then CHR ''0'' # n else n)))"

definition sprint_float :: "bool \<Rightarrow> string \<Rightarrow> int \<Rightarrow> string" where
  "sprint_float neg ds dp =
     (if neg then ''-'' else []) @
     (if ds \<noteq> [] \<and> (dp - 1 < -4 \<or> 6 \<le> dp - 1) then float_e ds dp else float_f ds dp)"

fun str_less :: "string \<Rightarrow> string \<Rightarrow> bool" where
  "str_less s [] = False"
| "str_less [] (c # t) = True"
| "str_less (b # s) (c # t) = (byte b < byte c \<or> b = c \<and> str_less s t)"

text \<open>A map prints its entries in the order of the keys; of two equal keys the later one counts.\<close>

fun put_entry :: "string \<Rightarrow> 'v \<Rightarrow> (string \<times> 'v) list \<Rightarrow> (string \<times> 'v) list" where
  "put_entry k v [] = [(k, v)]"
| "put_entry k v ((k', v') # m) =
     (if k = k' then (k, v) # m else if str_less k k' then (k, v) # (k', v') # m
      else (k', v') # put_entry k v m)"

definition map_entries :: "(string \<times> 'v) list \<Rightarrow> (string \<times> 'v) list" where
  "map_entries kvs = foldl (\<lambda>m (k, v). put_entry k v m) [] kvs"

fun sprint :: "jval \<Rightarrow> string" where
  "sprint JNull = ''<nil>''"
| "sprint (JBool b) = (if b then ''true'' else ''false'')"
| "sprint (JNum neg ds dp) = sprint_float neg ds dp"
| "sprint (JStr s) = s"
| "sprint (JArr vs) = CHR ''['' # join '' '' (map sprint vs) @ '']''"
| "sprint (JObj kvs) =
     ''map['' @ join '' '' (map (\<lambda>(k, s). k @ CHR '':'' # s) (map_entries (map (\<lambda>(k, v). (k, sprint v)) kvs)))
       @ '']''"

section \<open>Fields of a struct\<close>

text \<open>
  Decoding an object into a struct: a key selects the field with its name, letters compared
  without case; \<open>null\<close> leaves the field as it is; of several keys the last one counts; a value of
  another type is an error.
\<close>

definition field :: "string \<Rightarrow> (string \<times> jval) list \<Rightarrow> jval" where
  "field name kvs =
     (case filter (\<lambda>(k, v). to_lower k = to_lower name \<and> v \<noteq> JNull) kvs of
        [] \<Rightarrow> JNull
      | m \<Rightarrow> snd (last m))"

definition mismatch :: "string \<Rightarrow> gerr" where
  "mismatch name = Err (''json: cannot unmarshal value into Go struct field '' @ name)"

definition str_field :: "string \<Rightarrow> (string \<times> jval) list \<Rightarrow> string res" where
  "str_field name kvs =
     (case field name kvs of
        JNull \<Rightarrow> Inr [] | JStr s \<Rightarrow> Inr s | _ \<Rightarrow> Inl (mismatch name))"

fun all_strings :: "jval list \<Rightarrow> string list option" where
  "all_strings [] = Some []"
| "all_strings (JStr s # vs) = map_option (\<lambda>ss. s # ss) (all_strings vs)"
| "all_strings (JNull # vs) = map_option (\<lambda>ss. [] # ss) (all_strings vs)"
| "all_strings (v # vs) = None"

definition strings_field :: "string \<Rightarrow> (string \<times> jval) list \<Rightarrow> string list res" where
  "strings_field name kvs =
     (case field name kvs of
        JNull \<Rightarrow> Inr []
      | JArr vs \<Rightarrow> (case all_strings vs of Some ss \<Rightarrow> Inr ss | None \<Rightarrow> Inl (mismatch name))
      | _ \<Rightarrow> Inl (mismatch name))"

fun all_rows :: "jval list \<Rightarrow> jval list list option" where
  "all_rows [] = Some []"
| "all_rows (JArr r # vs) = map_option (\<lambda>rs. r # rs) (all_rows vs)"
| "all_rows (JNull # vs) = map_option (\<lambda>rs. [] # rs) (all_rows vs)"
| "all_rows (v # vs) = None"

definition rows_field :: "string \<Rightarrow> (string \<times> jval) list \<Rightarrow> jval list list res" where
  "rows_field name kvs =
     (case field name kvs of
        JNull \<Rightarrow> Inr []
      | JArr vs \<Rightarrow> (case all_rows vs of Some rs \<Rightarrow> Inr rs | None \<Rightarrow> Inl (mismatch name))
      | _ \<Rightarrow> Inl (mismatch name))"

section \<open>Parsing floats\<close>

text \<open>The texts that \<open>strconv.ParseFloat\<close> reads without an error.\<close>

definition is_hex_letter :: "char \<Rightarrow> bool" where
  "is_hex_letter c \<longleftrightarrow> lower_byte c \<in> set ''abcdef''"

definition strip_sign :: "string \<Rightarrow> string" where
  "strip_sign s = (case s of [] \<Rightarrow> [] | c # t \<Rightarrow> if c = CHR ''+'' \<or> c = CHR ''-'' then t else s)"

definition special_float :: "string \<Rightarrow> bool" where
  "special_float s \<longleftrightarrow>
     map lower_byte s = ''nan'' \<or> map lower_byte (strip_sign s) \<in> {''inf'', ''infinity''}"

text \<open>The mantissa: digits and underscores with at most one point; and what follows it.\<close>

fun mantissa :: "(char \<Rightarrow> bool) \<Rightarrow> bool \<Rightarrow> string \<Rightarrow> string \<times> string" where
  "mantissa dig dot [] = ([], [])"
| "mantissa dig dot (c # s) =
     (if c = CHR ''_'' \<or> dig c then (case mantissa dig dot s of (m, r) \<Rightarrow> (c # m, r))
      else if c = CHR ''.'' \<and> \<not> dot then (case mantissa dig True s of (m, r) \<Rightarrow> (c # m, r))
      else ([], c # s))"

text \<open>\<open>underscoreOK\<close>: underscores only between digits, the base prefix counting as one.\<close>

fun underscores_from :: "bool \<Rightarrow> char \<Rightarrow> string \<Rightarrow> bool" where
  "underscores_from hex saw [] = (saw \<noteq> CHR ''_'')"
| "underscores_from hex saw (c # s) =
     (if is_digit c \<or> hex \<and> is_hex_letter c then underscores_from hex CHR ''0'' s
      else if c = CHR ''_'' then saw = CHR ''0'' \<and> underscores_from hex CHR ''_'' s
      else saw \<noteq> CHR ''_'' \<and> underscores_from hex CHR ''!'' s)"

definition underscore_ok :: "string \<Rightarrow> bool" where
  "underscore_ok s =
     (let t = strip_sign s in
      case t of
        a # b # r \<Rightarrow>
          if a = CHR ''0'' \<and> lower_byte b \<in> set ''box''
          then underscores_from (lower_byte b = CHR ''x'') CHR ''0'' r
          else underscores_from False CHR ''^'' t
      | _ \<Rightarrow> underscores_from False CHR ''^'' t)"

definition num_val :: "int \<Rightarrow> string \<Rightarrow> int" where
  "num_val base s = foldl (\<lambda>n c. n * base +
     (if is_digit c then int (byte c) - 48 else int (byte (lower_byte c)) - 87)) 0 s"

text \<open>The decimal exponent stops growing at five digits, far beyond what any \<open>float64\<close> can have.\<close>

definition exp_val :: "string \<Rightarrow> int" where
  "exp_val s = foldl (\<lambda>e c. if e < 10000 then e * 10 + int (byte c - 48) else e) 0
     (filter (\<lambda>c. c \<noteq> CHR ''_'') s)"

text \<open>Values from the midpoint above the largest \<open>float64\<close> on are out of range.\<close>

definition overflows :: "int \<Rightarrow> int \<Rightarrow> int \<Rightarrow> bool" where
  "overflows m e b \<longleftrightarrow>
     (if 0 \<le> e then 2 ^ 1024 - 2 ^ 970 \<le> m * b ^ nat e
      else (2 ^ 1024 - 2 ^ 970) * b ^ nat (- e) \<le> m)"

definition parse_float_ok :: "string \<Rightarrow> bool" where
  "parse_float_ok s \<longleftrightarrow> special_float s \<or>
     (let t = strip_sign s;
          hex = (2 < length t \<and> t ! 0 = CHR ''0'' \<and> lower_byte (t ! 1) = CHR ''x'');
          dig = (\<lambda>c. is_digit c \<or> hex \<and> is_hex_letter c);
          (m, r) = mantissa dig False (if hex then drop 2 t else t);
          whole = takeWhile (\<lambda>c. c \<noteq> CHR ''.'') m;
          frac = filter dig (dropWhile (\<lambda>c. c \<noteq> CHR ''.'') m);
          value = num_val (if hex then 16 else 10) (filter dig whole @ frac);
          es = strip_sign (drop 1 r);
          e = (case drop 1 r of CHR ''-'' # _ \<Rightarrow> - exp_val es | _ \<Rightarrow> exp_val es)
      in list_ex dig m \<and>
         (if r = [] then \<not> hex
          else lower_byte (hd r) = (if hex then CHR ''p'' else CHR ''e'') \<and>
               es \<noteq> [] \<and> is_digit (hd es) \<and> list_all (\<lambda>c. is_digit c \<or> c = CHR ''_'') es) \<and>
         (CHR ''_'' \<in> set s \<longrightarrow> underscore_ok s) \<and>
         \<not> (if hex then overflows value (e - 4 * int (length frac)) 2
             else overflows value (e - int (length frac)) 10))"

section \<open>Runes\<close>

text \<open>The length of the first rune; a byte that begins no encoding counts as a rune by itself.\<close>

definition rune_len :: "char \<Rightarrow> nat" where
  "rune_len a =
     (let x = byte a in
      if x < 0xC2 then 1 else if x < 0xE0 then 2 else if x < 0xF0 then 3 else if x < 0xF5 then 4 else 1)"

text \<open>The bytes that may follow: the second one in a range given by the first.\<close>

fun rune_tail :: "char \<Rightarrow> string \<Rightarrow> bool" where
  "rune_tail a [] = True"
| "rune_tail a (b # t) =
     (let x = byte a;
          lo = (if x = 0xE0 then 0xA0 else if x = 0xF0 then 0x90 else (0x80::nat));
          hi = (if x = 0xED then 0x9F else if x = 0xF4 then 0x8F else (0xBF::nat))
      in lo \<le> byte b \<and> byte b \<le> hi \<and> list_all (\<lambda>c. 0x80 \<le> byte c \<and> byte c \<le> 0xBF) t)"

definition rune_size :: "string \<Rightarrow> nat" where
  "rune_size s =
     (case s of [] \<Rightarrow> 0
      | a # r \<Rightarrow>
          let t = take (rune_len a - 1) r
          in if length t = rune_len a - 1 \<and> rune_tail a t then rune_len a else 1)"

lemma rune_len_pos: "0 < rune_len a"
  by (simp add: rune_len_def Let_def)

lemma rune_size_pos: "s \<noteq> [] \<Longrightarrow> 0 < rune_size s"
  by (cases s) (simp_all add: rune_size_def Let_def rune_len_pos)

function runes :: "string \<Rightarrow> string list" where
  "runes [] = []"
| "runes (c # s) =
     take (rune_size (c # s)) (c # s) # runes (drop (rune_size (c # s)) (c # s))"
  by pat_completeness auto
termination
proof (relation "measure length")
  fix c s
  show "(drop (rune_size (c # s)) (c # s), c # s) \<in> measure length"
    using rune_size_pos [of "c # s"] by simp
qed simp

declare runes.simps(2) [simp del]

definition rune_count :: "string \<Rightarrow> nat" where
  "rune_count s = length (runes s)"

text \<open>A byte outside every encoding is read as the replacement character.\<close>

definition bad_rune :: "string \<Rightarrow> bool" where
  "bad_rune r \<longleftrightarrow> (case r of [c] \<Rightarrow> 0x80 \<le> byte c | _ \<Rightarrow> False)"

definition json_clean :: "string \<Rightarrow> string" where
  "json_clean s = concat (map (\<lambda>r. if bad_rune r then [CHR 0xEF, CHR 0xBF, CHR 0xBD] else r) (runes s))"

text \<open>How \<open>json.Marshal\<close> writes a string.\<close>

definition hex4 :: "nat \<Rightarrow> string" where
  "hex4 n = map (\<lambda>d. ''0123456789abcdef'' ! (n div 16 ^ d mod 16)) [3, 2, 1, 0]"

definition json_rune :: "string \<Rightarrow> string" where
  "json_rune r =
     (let u = CHR 0x5C # ''u'' in
      if bad_rune r then u @ ''fffd''
      else if r = [CHR 0xE2, CHR 0x80, CHR 0xA8] then u @ ''2028''
      else if r = [CHR 0xE2, CHR 0x80, CHR 0xA9] then u @ ''2029''
      else case r of
        [c] \<Rightarrow>
          if c = CHR 0x22 \<or> c = CHR 0x5C then [CHR 0x5C, c]
          else if c = CHR 0x08 then [CHR 0x5C, CHR ''b'']
          else if c = CHR 0x0C then [CHR 0x5C, CHR ''f'']
          else if c = CHR 0x0A then [CHR 0x5C, CHR ''n'']
          else if c = CHR 0x0D then [CHR 0x5C, CHR ''r'']
          else if c = CHR 0x09 then [CHR 0x5C, CHR ''t'']
          else if byte c < 0x20 \<or> c \<in> set ''<>&'' then u @ hex4 (byte c)
          else r
      | _ \<Rightarrow> r)"

definition json_string :: "string \<Rightarrow> string" where
  "json_string s = CHR 0x22 # concat (map json_rune (runes s)) @ [CHR 0x22]"

section \<open>Sequencing results\<close>

definition and_then :: "'a res \<Rightarrow> ('a \<Rightarrow> 'b res) \<Rightarrow> 'b res" where
  "and_then r f = (case r of Inl e \<Rightarrow> Inl e | Inr x \<Rightarrow> f x)"

lemma and_then_simps [simp]:
  "and_then (Inl e) f = Inl e"
  "and_then (Inr x) f = f x"
  by (simp_all add: and_then_def)

end
