(* ===== verification/Client.thy ===== *)
theory Client
  imports ToolValues ServerInv
begin

text \<open>
  The client library, \<open>internal/client/client.go\<close>: the requests its methods send, the headers that
  carry the credentials, and how they read the answers. The network is a function that answers a
  call, given here as the decoded or undecodable body, and may change the world behind it. Such a
  network is also made of a server: the request goes through its pipeline, and the payload of the
  response is decoded again as JSON.
\<close>

section \<open>Calls and answers\<close>

record http_call =
  hc_method :: string
  hc_path :: string
  hc_headers :: headers
  hc_body :: body

text \<open>An answer has a status, its raw body, and what decoding the body gives.\<close>

datatype http_reply = NoAnswer gerr | Answer int string "jval res"

type_synonym 'w http = "string \<Rightarrow> http_call \<Rightarrow> 'w \<Rightarrow> http_reply \<times> 'w"

definition decode_object :: "jval \<Rightarrow> (string \<times> jval) list res" where
  "decode_object v =
     (case v of JObj kvs \<Rightarrow> Inr kvs | JNull \<Rightarrow> Inr []
      | _ \<Rightarrow> Inl (Err ''json: cannot unmarshal value into Go value''))"

section \<open>The client\<close>

record client =
  cl_baseURL :: string
  cl_token :: string
  cl_apiKey :: string

definition Client_New :: "string \<Rightarrow> int \<Rightarrow> client" where
  "Client_New host port =
     \<lparr>cl_baseURL = ''http://'' @ host @ '':'' @ dec_int port, cl_token = [], cl_apiKey = []\<rparr>"

definition SetAPIKey :: "string \<Rightarrow> client \<Rightarrow> client" where
  "SetAPIKey key cl = cl\<lparr>cl_apiKey := key\<rparr>"

text \<open>The token goes before the key: with both, only the token is sent.\<close>

definition client_auth :: "client \<Rightarrow> headers \<Rightarrow> headers" where
  "client_auth cl h =
     (if cl_token cl \<noteq> [] then h(''Authorization'' := ''Bearer '' @ cl_token cl)
      else if cl_apiKey cl \<noteq> [] then h(''X-API-Key'' := cl_apiKey cl)
      else h)"

definition json_headers :: headers where
  "json_headers = (\<lambda>_. [])(''Content-Type'' := ''application/json'')"

text \<open>The bodies the methods marshal. A server decodes each string with bad bytes replaced.\<close>

definition json_fields :: "(string \<times> string) list \<Rightarrow> string" where
  "json_fields kvs = ''{'' @ join '','' (map (\<lambda>(k, v). json_string k @ CHR '':'' # v) kvs) @ ''}''"

definition login_body :: "string \<Rightarrow> string \<Rightarrow> body" where
  "login_body username password =
     \<lparr>b_ok = True,
      b_str = (\<lambda>_. [])(''username'' := json_clean username, ''password'' := json_clean password),
      b_list = (\<lambda>_. []), b_params = [],
      b_size = int (length (json_fields [(''password'', json_string password),
                                         (''username'', json_string username)]))\<rparr>"

definition request_body :: "string \<Rightarrow> string \<Rightarrow> body" where
  "request_body database query =
     \<lparr>b_ok = True,
      b_str = (\<lambda>_. [])(''query'' := json_clean query, ''database'' := json_clean database),
      b_list = (\<lambda>_. []), b_params = [],
      b_size = int (length (json_fields [(''query'', json_string query),
                                         (''database'', json_string database)]))\<rparr>"

definition transaction_body :: "string \<Rightarrow> string list \<Rightarrow> body" where
  "transaction_body database queries =
     \<lparr>b_ok = True, b_str = (\<lambda>_. [])(''database'' := json_clean database),
      b_list = (\<lambda>_. [])(''queries'' := map json_clean queries), b_params = [],
      b_size = int (length (json_fields
        [(''queries'', ''['' @ join '','' (map json_string queries) @ '']''),
         (''database'', json_string database)]))\<rparr>"

definition empty_body :: body where
  "empty_body = \<lparr>b_ok = False, b_str = (\<lambda>_. []), b_list = (\<lambda>_. []), b_params = [], b_size = 0\<rparr>"

definition client_Login ::
  "'w http \<Rightarrow> string \<Rightarrow> string \<Rightarrow> client \<Rightarrow> 'w \<Rightarrow> unit res \<times> client \<times> 'w" where
  "client_Login net username password cl w =
     (case net (cl_baseURL cl) \<lparr>hc_method = ''POST'', hc_path = ''/auth/login'',
             hc_headers = json_headers, hc_body = login_body username password\<rparr> w of
        (NoAnswer e, w1) \<Rightarrow> (Inl (Wrap ''connect'' e), cl, w1)
      | (Answer status raw j, w1) \<Rightarrow>
          case and_then (and_then j decode_object) (\<lambda>kvs.
                 and_then (str_field ''token'' kvs) (\<lambda>token.
                   map_sum id (\<lambda>err. (token, err)) (str_field ''error'' kvs))) of
            Inl e \<Rightarrow> (Inl (Wrap ''decode'' e), cl, w1)
          | Inr (token, err) \<Rightarrow>
              if err \<noteq> [] then (Inl (Err err), cl, w1)
              else if token = [] then (Inl (Err ''login failed''), cl, w1)
              else (Inr (), cl\<lparr>cl_token := token\<rparr>, w1))"

text \<open>The response of a query, as the client has it.\<close>

record api_response =
  ar_Columns :: "string list"
  ar_Rows :: "jval list list"
  ar_Error :: string
  ar_Time :: string

definition query_response_of :: "(string \<times> jval) list \<Rightarrow> api_response res" where
  "query_response_of kvs =
     and_then (strings_field ''columns'' kvs) (\<lambda>cols.
     and_then (rows_field ''rows'' kvs) (\<lambda>rows.
     and_then (str_field ''error'' kvs) (\<lambda>err.
     and_then (str_field ''time'' kvs) (\<lambda>time.
       Inr \<lparr>ar_Columns = cols, ar_Rows = rows, ar_Error = err, ar_Time = time\<rparr>))))"

definition query_call :: "client \<Rightarrow> string \<Rightarrow> string \<Rightarrow> http_call" where
  "query_call cl database query =
     \<lparr>hc_method = ''POST'', hc_path = ''/query'', hc_headers = client_auth cl json_headers,
      hc_body = request_body database query\<rparr>"

definition client_Query ::
  "'w http \<Rightarrow> client \<Rightarrow> string \<Rightarrow> string \<Rightarrow> 'w \<Rightarrow> api_response res \<times> 'w" where
  "client_Query net cl database query w =
     (case net (cl_baseURL cl) (query_call cl database query) w of
        (NoAnswer e, w1) \<Rightarrow> (Inl (Wrap ''request'' e), w1)
      | (Answer status raw j, w1) \<Rightarrow>
          (case and_then (and_then j decode_object) query_response_of of
             Inl e \<Rightarrow> Inl (Err (''decode: '' @ err_text e @ '' (body: '' @ raw @ '')''))
           | Inr qr \<Rightarrow> Inr qr, w1))"

definition QueryRaw :: "'w http \<Rightarrow> client \<Rightarrow> string \<Rightarrow> string \<Rightarrow> 'w \<Rightarrow> string res \<times> 'w" where
  "QueryRaw net cl database query w =
     (case net (cl_baseURL cl) (query_call cl database query) w of
        (NoAnswer e, w1) \<Rightarrow> (Inl (Wrap ''request'' e), w1)
      | (Answer status raw j, w1) \<Rightarrow> (Inr raw, w1))"

fun responses_of :: "jval list \<Rightarrow> api_response list res" where
  "responses_of [] = Inr []"
| "responses_of (v # vs) =
     and_then (and_then (decode_object v) query_response_of) (\<lambda>r.
       map_sum id (\<lambda>rs. r # rs) (responses_of vs))"

definition client_Transaction ::
  "'w http \<Rightarrow> client \<Rightarrow> string \<Rightarrow> string list \<Rightarrow> 'w \<Rightarrow> (api_response list \<times> string) res \<times> 'w" where
  "client_Transaction net cl database queries w =
     (case net (cl_baseURL cl) \<lparr>hc_method = ''POST'', hc_path = ''/transaction'',
             hc_headers = client_auth cl json_headers, hc_body = transaction_body database queries\<rparr> w of
        (NoAnswer e, w1) \<Rightarrow> (Inl (Wrap ''request'' e), w1)
      | (Answer status raw j, w1) \<Rightarrow>
          (wrap_err ''decode'' (and_then (and_then j decode_object) (\<lambda>kvs.
             and_then (case field ''results'' kvs of
                         JNull \<Rightarrow> Inr [] | JArr vs \<Rightarrow> responses_of vs | _ \<Rightarrow> Inl (mismatch ''results''))
               (\<lambda>rs. map_sum id (\<lambda>err. (rs, err)) (str_field ''error'' kvs)))), w1))"

definition client_ListDatabases :: "'w http \<Rightarrow> client \<Rightarrow> 'w \<Rightarrow> string list res \<times> 'w" where
  "client_ListDatabases net cl w =
     (case net (cl_baseURL cl) \<lparr>hc_method = ''GET'', hc_path = ''/databases'',
             hc_headers = client_auth cl (\<lambda>_. []), hc_body = empty_body\<rparr> w of
        (NoAnswer e, w1) \<Rightarrow> (Inl (Wrap ''request'' e), w1)
      | (Answer status raw j, w1) \<Rightarrow>
          (case and_then (and_then j decode_object) (\<lambda>kvs.
                  and_then (strings_field ''databases'' kvs) (\<lambda>dbs.
                    map_sum id (\<lambda>err. (dbs, err)) (str_field ''error'' kvs))) of
             Inl e \<Rightarrow> Inl (Wrap ''decode'' e)
           | Inr (dbs, err) \<Rightarrow> if err \<noteq> [] then Inl (Err err) else Inr dbs, w1))"

end
