(* ===== verification/HandlerFrame.thy ===== *)
theory HandlerFrame
  imports ServerInv
begin

text \<open>
  A whole request is a sequence of the operations of \<open>HandlerOps\<close>: the routes, the authentication in
  front of them, the pipeline and the replica loop. So what every operation keeps, every request keeps.
  The interface of \<open>HandlerOps\<close> is interpreted on the closing of the audit channel, which no request
  takes part in.
\<close>

section \<open>Requests as sequences of operations\<close>

context kept_by_ops
begin

definition serves_well :: "serve \<Rightarrow> bool" where
  "serves_well f \<longleftrightarrow> (\<forall>c rq b sv. holds (ce_auth c) (sv_handler sv) \<longrightarrow>
     known_user (rq_user rq) (sv_handler sv) \<longrightarrow>
     holds (ce_auth c) (sv_handler (snd (f c rq b sv))))"

lemma plain_serves:
  "(\<And>c rq b h. holds (ce_auth c) h \<Longrightarrow> known_user (rq_user rq) h \<Longrightarrow>
      holds (ce_auth c) (snd (f c rq b h))) \<Longrightarrow> serves_well (plain f)"
  by (simp add: serves_well_def plain_def on_handler_def case_prod_beta)

lemma shutdown_serves: "serves_well HandleShutdown"
  by (simp add: serves_well_def HandleShutdown_def)

lemma routes_serve: "(m, pat, g, f) \<in> set routes \<Longrightarrow> serves_well f"
  unfolding routes_def
  by (auto intro: plain_serves shutdown_serves statement_handlers auth_handlers db_handlers
      file_handlers Health)

lemma guarded_holds:
  assumes "serves_well f" and "holds (ce_auth c) (sv_handler sv)" and "tokens_known c sv" and "rq_user rq = None"
  shows "holds (ce_auth c) (sv_handler (snd (guarded g f c rq b sv)))"
proof -
  obtain r sv1 where x: "auth_of c rq sv = (r, sv1)" by fastforce
  have sv: "server_ok (ce_auth c) sv" using assms(2) by (simp add: holds_def server_ok_def)
  have "holds (ce_auth c) (sv_handler (snd (auth_of c rq sv)))"
    using assms(2) by (simp add: auth_of_def on_handler_def case_prod_beta with_auth_holds auth_step.authenticate)
  then have ok: "holds (ce_auth c) (sv_handler sv1)" using x by simp
  have none: "holds (ce_auth c) (sv_handler (snd (f c rq b sv1)))"
    using assms(1,4) ok by (simp add: serves_well_def known_user_def)
  have some: "holds (ce_auth c) (sv_handler (snd (f c (rq\<lparr>rq_user := Some u\<rparr>) b sv1)))" if "r = Inr u" for u
    using assms(1) ok auth_of_known [OF sv assms(3), of rq u sv1] x that by (simp add: serves_well_def)
  show ?thesis
    using x ok none some
    by (auto simp: guarded_def authMiddleware_def optionalAuthMiddleware_def auth_of_def
        split: guard.split sum.split)
qed

lemma mux_holds:
  assumes "holds (ce_auth c) (sv_handler sv)" and "tokens_known c sv" and "incoming rq"
  shows "holds (ce_auth c) (sv_handler (snd (mux static c rq b sv)))"
proof (cases "find_route routes (rq_method rq) (path_segs (rq_path rq))")
  case None
  then show ?thesis using assms(1) by (simp add: mux_def Let_def web_handler_def split: option.split)
next
  case (Some x)
  obtain g f vals where x: "x = (g, f, vals)" by (cases x)
  have "serves_well f" using find_route_in Some x routes_serve by metis
  then show ?thesis
    using assms Some x by (simp add: mux_def Let_def guarded_holds incoming_def)
qed

lemma pipeline_holds:
  assumes "holds (ce_auth c) (sv_handler sv)" and "tokens_known c sv" and "incoming rq"
  shows "holds (ce_auth c) (sv_handler (snd (pipeline static c rq b sv)))"
  using assms
  by (simp add: pipeline_def rateLimitMiddleware_def corsMiddleware_def bodyLimitMiddleware_def
      recoveryMiddleware_def loggingMiddleware_def Let_def case_prod_beta mux_holds split: sum.split)

end

text \<open>So every request of a well-formed server is a sequence of operations.\<close>

lemma pipeline_is_ops:
  assumes "server_ok (ce_auth c) sv" and "tokens_known c sv" and "incoming rq"
  shows "handler_ops (sv_handler sv) (sv_handler (snd (pipeline static c rq b sv)))"
  using reached.pipeline_holds [OF _ assms(2,3), of "sv_handler sv"] assms(1)
  by (simp add: reached.holds_def server_ok_def)

text \<open>So is what the replica loop, the backup schedule and the closing of the databases do.\<close>

lemma pollOnce_steps: "sysdb_steps (re_db r) (re_db (pollOnce rn e nets r))"
proof (induction nets arbitrary: r)
  case (Cons net nets)
  have more: "sysdb_steps s (re_db (pollOnce rn e nets r'))" if "sysdb_steps s (re_db r')" for s r'
    using steps_then [OF that Cons.IH] .
  show ?case
    by (auto simp: Let_def case_prod_beta apply_entries_db intro!: more intro: method_steps(11)
        split: reply.split option.split bool.split)
qed simp

lemma after_poll_is_ops:
  assumes "handler_ok e h"
  shows "handler_ops h (after_poll rn eng nets lastID h)"
proof -
  let ?r = "pollOnce rn eng nets (replica_of h lastID)"
  let ?h = "h\<lparr>hd_executor := re_executor ?r, hd_os := re_os ?r\<rparr>"
  have "manager_ok (ex_manager (re_executor ?r))"
    using pollOnce_ok [of "replica_of h lastID" rn eng nets] assms
    by (simp add: replica_of_def handler_ok_def auth_ok_def)
  then have "handler_op h ?h" by (rule handler_op.files)
  moreover have "handler_ops ?h (?h\<lparr>hd_auth := (hd_auth ?h)\<lparr>a_db := re_db ?r\<rparr>\<rparr>)"
    using pollOnce_steps [of "replica_of h lastID" rn eng nets]
    by (intro methods_are_ops) (simp add: replica_of_def)
  ultimately have "handler_ops h (?h\<lparr>hd_auth := (hd_auth ?h)\<lparr>a_db := re_db ?r\<rparr>\<rparr>)"
    by (rule converse_rtranclp_into_rtranclp)
  then show ?thesis by (simp add: after_poll_def Let_def)
qed

lemma with_dbs_is_op:
  assumes "handler_ok e h" and "\<And>m s. manager_ok m \<Longrightarrow> manager_ok (fst (snd (f m s)))"
  shows "handler_ops h (snd (with_dbs f h))"
  using reached.with_dbs_holds [of h e h f] assms by (simp add: reached.holds_def)

section \<open>The audit channel\<close>

text \<open>Requests and the replica loop neither close the channel nor end its worker.\<close>

definition audit_ends :: "sysdb \<Rightarrow> bool \<times> bool" where
  "audit_ends s = (audit_closed s, audit_done s)"

lemma audit_ends_faults [simp]: "audit_ends (s\<lparr>db_faults := fs\<rparr>) = audit_ends s"
  by (simp add: audit_ends_def)

lemma audit_ends_GetUser [simp]: "audit_ends (snd (GetUser i s)) = audit_ends s"
  using snd_GetUser [of i s] by auto

lemma audit_ends_step: "sysdb_step s s' \<Longrightarrow> audit_ends s' = audit_ends s"
proof (induction rule: sysdb_step.induct)
  case (create_user s now name hash role)
  have "audit_ends (snd (stmt (insert_user now name hash role) s)) = audit_ends s"
    by (auto simp: insert_user_def audit_ends_def split: stmt_split)
  then show ?case by (auto simp: CreateUser_def split: prod.split sum.split)
qed (auto simp: mutator_defs audit_ends_def split: stmt_split)

lemma audit_ends_LogAudit: "audit_ends (snd (LogAudit u n ip q ep st s)) = audit_ends s"
  by (simp add: LogAudit_def audit_ends_def)

text \<open>A worker that has ended leaves a closed and empty channel, when it began its loop at all.\<close>

definition worker_ok :: "sysdb \<Rightarrow> bool" where
  "worker_ok s \<longleftrightarrow> (audit_done s \<longrightarrow> audit_closed s \<and> audit_ch s = [])"

lemma audit_ch_step: "sysdb_step s s' \<Longrightarrow> audit_ch s' = audit_ch s"
proof (induction rule: sysdb_step.induct)
  case (create_user s now name hash role)
  have "audit_ch (snd (GetUser i t)) = audit_ch t" for i t using snd_GetUser [of i t] by auto
  moreover have "audit_ch (snd (stmt (insert_user now name hash role) s)) = audit_ch s"
    by (auto simp: insert_user_def split: stmt_split)
  ultimately show ?case by (auto simp: CreateUser_def split: prod.split sum.split)
qed (auto simp: mutator_defs split: stmt_split)

lemma worker_ok_step: "sysdb_step s s' \<Longrightarrow> worker_ok s \<Longrightarrow> worker_ok s'"
  using audit_ch_step [of s s'] audit_ends_step [of s s'] by (simp add: worker_ok_def audit_ends_def)

lemma worker_ok_LogAudit: "worker_ok s \<Longrightarrow> worker_ok (snd (LogAudit u n ip q ep st s))"
  by (auto simp: worker_ok_def LogAudit_def)

text \<open>What an operation does to the system database: a method, an entry, or nothing.\<close>

lemma handler_op_db:
  "handler_op h h' \<Longrightarrow>
     sysdb_step (a_db (hd_auth h)) (a_db (hd_auth h')) \<or>
     (\<exists>u n ip q ep st. a_db (hd_auth h') = snd (LogAudit u n ip q ep st (a_db (hd_auth h)))) \<or>
     a_db (hd_auth h') = a_db (hd_auth h)"
proof (induction rule: handler_op.induct)
  case (entry h u n ip q ep st)
  have "a_db (hd_auth (snd (with_sysdb (LogAudit u n ip q ep st) h))) =
      snd (LogAudit u n ip q ep st (a_db (hd_auth h)))"
    by (simp add: with_sysdb_def with_auth_def case_prod_beta)
  then show ?case by blast
qed simp_all

interpretation channel: kept_by_ops "\<lambda>h. audit_ends (a_db (hd_auth h)) = x \<and> worker_ok (a_db (hd_auth h))" for x
proof
  fix h h'
  assume op: "handler_op h h'" and h: "audit_ends (a_db (hd_auth h)) = x \<and> worker_ok (a_db (hd_auth h))"
  from handler_op_db [OF op] show "audit_ends (a_db (hd_auth h')) = x \<and> worker_ok (a_db (hd_auth h'))"
    using h audit_ends_step worker_ok_step by (auto simp: audit_ends_LogAudit worker_ok_LogAudit)
qed

end
