(* ===== verification/ClientServer.thy ===== *)
theory ClientServer
  imports Client HandlerFrame
begin

text \<open>
  The client library talking to this server: the network of \<open>Client\<close> made of the server's
  pipeline, and what a login followed by a query amounts to. The payloads are decoded again as the
  JSON that their struct tags give.
\<close>

section \<open>The server as a network\<close>

text \<open>
  What a call meets: the embedded files, the surroundings of the handlers, the remote address, how
  JSON and SQL values correspond, the text of a duration, the bytes of a response, and the decoding
  of the payloads that no method of the client reads.
\<close>

record wire =
  wi_static :: "string \<Rightarrow> string option"
  wi_call :: call_env
  wi_remote :: string
  wi_value :: "sqlval \<Rightarrow> jval"
  wi_dur :: "int \<Rightarrow> string"
  wi_raw :: "response \<Rightarrow> string"
  wi_other :: "payload \<Rightarrow> jval res"

definition jstr :: "string \<Rightarrow> jval" where
  "jstr s = JStr (json_clean s)"

text \<open>\<open>omitempty\<close> leaves out empty slices and strings.\<close>

definition query_json :: "wire \<Rightarrow> query_response \<Rightarrow> jval" where
  "query_json wi qr = JObj (
     (if qr_Columns qr = [] then [] else [(''columns'', JArr (map jstr (qr_Columns qr)))]) @
     (if qr_Rows qr = [] then []
      else [(''rows'', JArr (map (\<lambda>r. JArr (map (wi_value wi) r)) (qr_Rows qr)))]) @
     (if qr_Error qr = [] then [] else [(''error'', jstr (qr_Error qr))]) @
     (case qr_Time qr of None \<Rightarrow> [] | Some d \<Rightarrow> [(''time'', jstr (wi_dur wi d))]))"

fun auth_type_text :: "auth_type \<Rightarrow> string" where
  "auth_type_text AuthTypeJWT = ''jwt''"
| "auth_type_text AuthTypeAPIKey = ''apikey''"
| "auth_type_text AuthTypeSession = ''session''"

definition payload_json :: "wire \<Rightarrow> payload \<Rightarrow> jval res" where
  "payload_json wi p =
     (case p of
        ErrorResponse msg code \<Rightarrow> Inr (JObj [(''error'', jstr msg), (''code'', jint code)])
      | MessageResponse msg \<Rightarrow> Inr (JObj [(''message'', jstr msg)])
      | QueryResponse qr \<Rightarrow> Inr (query_json wi qr)
      | TransactionResponse tr \<Rightarrow> Inr (JObj (
          (''results'', JArr (map (query_json wi) (tr_Results tr))) #
          (if tr_Error tr = [] then [] else [(''error'', jstr (tr_Error tr))])))
      | LoginResponse lr \<Rightarrow> Inr (JObj
          [(''token'', jstr (lr_Token lr)), (''token_type'', jstr (lr_TokenType lr)),
           (''user'', JObj [(''id'', jint (AU_ID (lr_User lr))),
                            (''username'', jstr (AU_Username (lr_User lr))),
                            (''role'', jstr (AU_Role (lr_User lr))),
                            (''auth_type'', jstr (auth_type_text (AU_AuthType (lr_User lr))))]),
           (''password_change_required'', JBool (lr_PasswordChangeRequired lr))])
      | DatabasesResponse dbs \<Rightarrow> Inr (JObj [(''databases'', JArr (map jstr dbs))])
      | _ \<Rightarrow> wi_other wi p)"

definition request_of :: "wire \<Rightarrow> http_call \<Rightarrow> request" where
  "request_of wi call =
     \<lparr>rq_method = hc_method call, rq_path = hc_path call, rq_headers = hc_headers call,
      rq_remote = wi_remote wi, rq_pathval = (\<lambda>_. []), rq_query = (\<lambda>_. []), rq_user = None\<rparr>"

definition server_http :: "wire \<Rightarrow> server http" where
  "server_http wi base call sv =
     (case pipeline (wi_static wi) (wi_call wi) (request_of wi call) (hc_body call) sv of
        (Inl e, sv1) \<Rightarrow> (NoAnswer e, sv1)
      | (Inr resp, sv1) \<Rightarrow>
          (Answer (rs_status resp) (wi_raw wi resp) (payload_json wi (rs_payload resp)), sv1))"

section \<open>A call that reaches its route\<close>

text \<open>The server after the limiters have counted a call.\<close>

definition counted :: "wire \<Rightarrow> server \<Rightarrow> server" where
  "counted wi sv = sv
     \<lparr>sv_ipLimiter := snd (RateLimiter_Allow (ce_now (wi_call wi)) (wi_remote wi) (sv_ipLimiter sv)),
      sv_userLimiter := snd (RateLimiter_Allow (ce_now (wi_call wi)) (wi_remote wi) (sv_userLimiter sv))\<rparr>"

definition admits :: "wire \<Rightarrow> server \<Rightarrow> bool" where
  "admits wi sv \<longleftrightarrow>
     fst (RateLimiter_Allow (ce_now (wi_call wi)) (wi_remote wi) (sv_ipLimiter sv)) \<and>
     fst (RateLimiter_Allow (ce_now (wi_call wi)) (wi_remote wi) (sv_userLimiter sv))"

lemma counted_handler [simp]: "sv_handler (counted wi sv) = sv_handler sv"
  by (simp add: counted_def)

lemma server_http_route:
  assumes "admits wi sv" and "hc_method call \<noteq> ''OPTIONS''" and "b_size (hc_body call) \<le> max_body"
    and "find_route routes (hc_method call) (path_segs (hc_path call)) = Some (g, f, vals)"
    and "guarded g f (wi_call wi) ((request_of wi call)\<lparr>rq_pathval := vals\<rparr>) (hc_body call)
           (counted wi sv) = (Inr resp, sv1)"
  shows "\<exists>raw. server_http wi base call sv =
      (Answer (rs_status resp) raw (payload_json wi (rs_payload resp)), sv1)"
proof -
  have body: "limit_body max_body (hc_body call) = hc_body call"
    using assms(3) by (simp add: limit_body_def)
  have "mux (wi_static wi) (wi_call wi) (request_of wi call) (hc_body call) (counted wi sv) = (Inr resp, sv1)"
    using assms(4,5) by (simp add: mux_def request_of_def Let_def)
  then have "pipeline (wi_static wi) (wi_call wi) (request_of wi call) (hc_body call) sv =
      (add_headers (cors_headers (allow_origin (sv_origins sv) (hc_headers call ''Origin''))) (Inr resp), sv1)"
    using assms(1,2) body
    by (simp add: pipeline_def rateLimitMiddleware_def corsMiddleware_def bodyLimitMiddleware_def
        recoveryMiddleware_def loggingMiddleware_def admits_def counted_def request_of_def Let_def
        case_prod_beta)
  then show ?thesis by (simp add: server_http_def add_headers_def)
qed

section \<open>Reading the fields back\<close>

lemma lower_names:
  "to_lower ''columns'' = ''columns''" "to_lower ''rows'' = ''rows''" "to_lower ''error'' = ''error''"
  "to_lower ''time'' = ''time''" "to_lower ''token'' = ''token''" "to_lower ''code'' = ''code''"
  "to_lower ''token_type'' = ''token_type''" "to_lower ''user'' = ''user''"
  "to_lower ''password_change_required'' = ''password_change_required''"
  by code_simp+

lemma all_strings_jstr: "all_strings (map jstr ss) = Some (map json_clean ss)"
  by (induction ss) (simp_all add: jstr_def)

lemma all_rows_arr: "all_rows (map (\<lambda>r. JArr (f r)) rs) = Some (map f rs)"
  by (induction rs) simp_all

text \<open>What the client has of a query's outcome.\<close>

definition client_view :: "wire \<Rightarrow> query_response \<Rightarrow> api_response" where
  "client_view wi qr =
     \<lparr>ar_Columns = map json_clean (qr_Columns qr), ar_Rows = map (map (wi_value wi)) (qr_Rows qr),
      ar_Error = json_clean (qr_Error qr),
      ar_Time = (case qr_Time qr of None \<Rightarrow> [] | Some d \<Rightarrow> json_clean (wi_dur wi d))\<rparr>"

lemma json_clean_Nil [simp]: "json_clean [] = []"
  by (simp add: json_clean_def)

lemma query_json_read:
  "and_then (decode_object (query_json wi qr)) query_response_of = Inr (client_view wi qr)"
  by (simp add: query_json_def decode_object_def query_response_of_def strings_field_def rows_field_def
      str_field_def field_def lower_names jstr_def all_strings_jstr
      all_rows_arr client_view_def del: to_lower.simps split: option.split)

definition error_view :: "string \<Rightarrow> api_response" where
  "error_view msg = \<lparr>ar_Columns = [], ar_Rows = [], ar_Error = json_clean msg, ar_Time = []\<rparr>"

lemma error_json_read:
  "and_then (and_then (payload_json wi (ErrorResponse msg code)) decode_object) query_response_of =
     Inr (error_view msg)"
  by (simp add: payload_json_def decode_object_def query_response_of_def strings_field_def
      rows_field_def str_field_def field_def lower_names jstr_def error_view_def del: to_lower.simps)

lemma login_json_read:
  "and_then (and_then (payload_json wi (LoginResponse lr)) decode_object) (\<lambda>kvs.
     and_then (str_field ''token'' kvs) (\<lambda>token.
       map_sum id (\<lambda>err. (token, err)) (str_field ''error'' kvs))) =
   Inr (json_clean (lr_Token lr), [])"
  by (simp add: payload_json_def decode_object_def str_field_def field_def lower_names jstr_def
      del: to_lower.simps)

section \<open>Logging in and querying\<close>

lemma route_segs:
  "path_segs ''/auth/login'' = [''auth'', ''login'']" "path_segs ''/query'' = [''query'']"
  by code_simp+

lemma client_routes:
  "find_route routes ''POST'' [''auth'', ''login''] = Some (OptionalAuth, plain HandleLogin, \<lambda>_. [])"
  "find_route routes ''POST'' [''query''] = Some (RequireAuth, plain HandleQuery, \<lambda>_. [])"
  by (simp_all add: routes_def method_matches_def)

text \<open>Texts that are valid UTF-8 go through JSON unchanged.\<close>

definition clean :: "string \<Rightarrow> bool" where
  "clean s \<longleftrightarrow> json_clean s = s"

lemma client_Login_server:
  assumes "admits wi sv" and "b_size (login_body u p) \<le> max_body" and "clean u" and "clean p"
    and "u \<noteq> []" and "p \<noteq> []" and "clean (lr_Token lr)" and "lr_Token lr \<noteq> []"
    and "Login (ce_auth (wi_call wi)) (ce_now (wi_call wi)) u p (hd_auth (sv_handler sv)) = (Inr lr, a')"
  shows "client_Login (server_http wi) u p cl sv =
    (Inr (), cl\<lparr>cl_token := lr_Token lr\<rparr>,
     (counted wi sv)\<lparr>sv_handler := (sv_handler sv)\<lparr>hd_auth := a'\<rparr>\<rparr>)"
proof -
  let ?call = "\<lparr>hc_method = ''POST'', hc_path = ''/auth/login'', hc_headers = json_headers,
      hc_body = login_body u p\<rparr>"
  let ?rq = "(request_of wi ?call)\<lparr>rq_pathval := \<lambda>_. []\<rparr>"
  let ?sv' = "(counted wi sv)\<lparr>sv_handler := (sv_handler sv)\<lparr>hd_auth := a'\<rparr>\<rparr>"
  have none: "AuthenticateRequest e now (rq_headers (request_of wi ?call)) a =
      (Inl (Err ''no authentication provided''), a)" for e now a
    by (simp add: AuthenticateRequest_def request_of_def json_headers_def Let_def)
  have "HandleLogin (wi_call wi) ?rq (login_body u p) (sv_handler sv) =
      (Inr (writeJSON 200 (LoginResponse lr)), (sv_handler sv)\<lparr>hd_auth := a'\<rparr>)"
    using assms(3-6,9) by (simp add: HandleLogin_def login_body_def clean_def with_auth_def)
  then have "guarded OptionalAuth (plain HandleLogin) (wi_call wi) ?rq (login_body u p) (counted wi sv) =
      (Inr (writeJSON 200 (LoginResponse lr)), ?sv')"
    by (simp add: guarded_def optionalAuthMiddleware_def on_handler_def with_auth_def none plain_def)
  then obtain raw where "server_http wi (cl_baseURL cl) ?call sv =
      (Answer 200 raw (payload_json wi (LoginResponse lr)), ?sv')"
    using server_http_route [of wi sv ?call OptionalAuth "plain HandleLogin" "\<lambda>_. []"] assms(1,2)
      client_routes(1) route_segs(1) by (fastforce simp: writeJSON_def)
  then show ?thesis
    using login_json_read [of wi lr] assms(7,8) by (simp add: client_Login_def clean_def)
qed

text \<open>The request that the query handler gets from a client.\<close>

definition query_request :: "wire \<Rightarrow> client \<Rightarrow> string \<Rightarrow> string \<Rightarrow> AuthUser \<Rightarrow> request" where
  "query_request wi cl db q u = (request_of wi (query_call cl db q))\<lparr>rq_user := Some u\<rparr>"

lemma client_Query_server:
  assumes "admits wi sv" and "b_size (request_body db q) \<le> max_body"
    and "AuthenticateRequest (ce_auth (wi_call wi)) (ce_now (wi_call wi)) (client_auth cl json_headers)
           (hd_auth (sv_handler sv)) = (Inr u, hd_auth (sv_handler sv))"
    and "HandleQuery (wi_call wi) (query_request wi cl db q u) (request_body db q) (sv_handler sv) =
           (Inr resp, h')"
    and "rs_payload resp = QueryResponse qr \<and> view = client_view wi qr \<or>
         rs_payload resp = ErrorResponse msg code \<and> view = error_view msg"
  shows "client_Query (server_http wi) cl db q sv = (Inr view, (counted wi sv)\<lparr>sv_handler := h'\<rparr>)"
proof -
  let ?call = "query_call cl db q"
  have rq: "(request_of wi ?call)\<lparr>rq_pathval := \<lambda>_. []\<rparr> = request_of wi ?call"
    by (simp add: request_of_def)
  have hdrs: "rq_headers (request_of wi ?call) = client_auth cl json_headers"
    by (simp add: request_of_def query_call_def)
  have same: "(sv_handler sv)\<lparr>hd_auth := hd_auth (sv_handler sv)\<rparr> = sv_handler sv" by simp
  have keep: "(counted wi sv)\<lparr>sv_handler := sv_handler sv\<rparr> = counted wi sv"
    by (simp add: counted_def)
  have "guarded RequireAuth (plain HandleQuery) (wi_call wi) (request_of wi ?call) (request_body db q)
      (counted wi sv) = (Inr resp, (counted wi sv)\<lparr>sv_handler := h'\<rparr>)"
    using assms(3,4)
    by (simp add: guarded_def authMiddleware_def on_handler_def with_auth_def hdrs same keep plain_def
        query_request_def)
  then obtain raw where "server_http wi (cl_baseURL cl) ?call sv =
      (Answer (rs_status resp) raw (payload_json wi (rs_payload resp)), (counted wi sv)\<lparr>sv_handler := h'\<rparr>)"
    using server_http_route [of wi sv ?call RequireAuth "plain HandleQuery" "\<lambda>_. []"] assms(1,2)
      client_routes(2) route_segs(2) rq by (fastforce simp: query_call_def)
  moreover have "and_then (and_then (payload_json wi (rs_payload resp)) decode_object) query_response_of =
      Inr view"
    using assms(5) query_json_read error_json_read by (auto simp: payload_json_def)
  ultimately show ?thesis by (simp add: client_Query_def)
qed

section \<open>A session\<close>

text \<open>No step of the server changes the signing key or the life of its tokens.\<close>

lemma handler_op_jwt: "handler_op h h' \<Longrightarrow> a_jwt (hd_auth h') = a_jwt (hd_auth h)"
  by (induction rule: handler_op.induct) (simp_all add: with_sysdb_def with_auth_def case_prod_beta)

interpretation jwt: kept_by_ops "\<lambda>h. a_jwt (hd_auth h) = m" for m
  by unfold_locales (simp add: handler_op_jwt)

lemma server_step_jwt:
  "server_step e sv sv' \<Longrightarrow> server_ok e sv \<Longrightarrow> a_jwt (hd_auth (sv_handler sv')) = a_jwt (hd_auth (sv_handler sv))"
proof (induction rule: server_step.induct)
  case (request c sv rq b static)
  then have "handler_ops (sv_handler sv) (sv_handler (snd (pipeline static c rq b sv)))"
    by (intro pipeline_is_ops) simp_all
  from jwt.ops_keep [OF this refl] show ?case .
next
  case (operation sv h)
  then show ?case by (simp add: handler_op_jwt)
qed (simp_all add: with_dbs_def case_prod_beta after_poll_def Let_def shutdown_work_def with_sysdb_def with_auth_def)

lemma server_run_jwt:
  "(server_step e)\<^sup>*\<^sup>* sv sv' \<Longrightarrow> server_ok e sv \<Longrightarrow> a_jwt (hd_auth (sv_handler sv')) = a_jwt (hd_auth (sv_handler sv))"
proof (induction rule: rtranclp_induct)
  case (step sv1 sv2)
  then show ?case using server_step_jwt [OF step.hyps(2) server_reach_ok [OF step.hyps(1)]] by simp
qed simp

text \<open>The token of a login authenticates, as long as it lasts, as the user who logged in.\<close>

lemma Login_identity:
  assumes "sysdb_ok (a_db a)" and "db_faults (a_db a) = []" and "jwt_accepts (en_crypto e)"
    and "Login e t u p a = (Inr lr, a')" and "now < numeric_date (t + jm_duration (a_jwt a))"
    and "h ''X-API-Key'' = []" and "h ''Authorization'' = ''Bearer '' @ lr_Token lr" and "a_jwt b = a_jwt a"
  shows "AuthenticateRequest e now h b = (Inr (lr_User lr), b)"
proof -
  have "fst (Login e t u p a) = Inr lr" using assms(4) by simp
  then obtain r :: user_row and tok where
      sign: "cr_sign (en_crypto e) (jm_secret (a_jwt a)) (jwt_claims (a_jwt a) t (u_id r) u (u_role r)) = Inr tok"
    and lr': "lr = \<lparr>lr_Token = tok, lr_TokenType = ''bearer'',
        lr_User = \<lparr>AU_ID = u_id r, AU_Username = u, AU_Role = u_role r, AU_AuthType = AuthTypeJWT\<rparr>,
        lr_PasswordChangeRequired = (u_pwd_change r = 1)\<rparr>"
    unfolding Login_Inr_iff [OF assms(1,2)] by blast
  note lr = lr' [THEN arg_cong [of _ _ lr_Token], simplified] lr' [THEN arg_cong [of _ _ lr_User], simplified]
  show ?thesis
    using token_authenticates(1) [where e = e and a = b and t = t and i = "u_id r" and u = u and
        role = "u_role r" and tok = tok and h = h and now = now] assms(3,5-8) sign lr
    by (simp add: jwt_claims_def)
qed

text \<open>A query under the identity of a login, on any server that knows the signing key.\<close>

lemma client_Query_runs:
  fixes wi sv db q and lr :: login_response
  defines "h0 \<equiv> sv_handler sv" and "c \<equiv> wi_call wi"
  assumes auth: "AuthenticateRequest (ce_auth c) (ce_now c) (client_auth cl json_headers) (hd_auth h0) =
      (Inr user, hd_auth h0)"
    and "admits wi sv" and "b_size (request_body db q) \<le> max_body"
    and qs: "clean q" "clean db" "q \<noteq> []" "query_guard [] (Some user) q = None"
    and ready: "\<not> audit_closed (a_db (hd_auth h0))" "db_faults (a_db (hd_auth h0)) = []"
      "length (audit_ch (a_db (hd_auth h0))) < audit_cap"
    and run: "ExecuteContext (ce_db c) (ce_now c) (ce_dur c) (db_name db) q [] (hd_executor h0) (hd_os h0) =
      (res, ex', s')"
  shows "\<exists>sv2 x. client_Query (server_http wi) cl db q sv =
       (Inr (case res of Inl err \<Rightarrow> error_view (err_text err) | Inr y \<Rightarrow> client_view wi y), sv2) \<and>
     hd_executor (sv_handler sv2) = ex' \<and> hd_os (sv_handler sv2) = s' \<and>
     audit_ch (a_db (hd_auth (sv_handler sv2))) = audit_ch (a_db (hd_auth h0)) @ [x] \<and>
     ae_user x = Some (AU_ID user) \<and> ae_username x = AU_Username user \<and> ae_query x = q"
proof -
  obtain r h' where hq: "HandleQuery c (query_request wi cl db q user) (request_body db q) h0 = (r, h')"
    by (rule prod.exhaust)
  have body: "b_ok (request_body db q)" "b_str (request_body db q) ''query'' = q"
    "b_str (request_body db q) ''database'' = db" "b_params (request_body db q) = []"
    using qs(1,2) by (simp_all add: request_body_def clean_def)
  have rq: "rq_user (query_request wi cl db q user) = Some user" by (simp add: query_request_def)
  note runs = HandleQuery_runs [OF body(1) _ _ _ _ _ hq, unfolded body rq, OF qs(3,4) ready]
  let ?view = "case res of Inl err \<Rightarrow> error_view (err_text err) | Inr y \<Rightarrow> client_view wi y"
  obtain resp where r: "r = Inr resp" and "\<exists>qr msg code.
      rs_payload resp = QueryResponse qr \<and> ?view = client_view wi qr \<or>
      rs_payload resp = ErrorResponse msg code \<and> ?view = error_view msg"
    using runs(1) run by (cases res) (auto simp: writeJSON_def write_error_def)
  then obtain qr msg code where view: "rs_payload resp = QueryResponse qr \<and> ?view = client_view wi qr \<or>
      rs_payload resp = ErrorResponse msg code \<and> ?view = error_view msg" by blast
  note q = client_Query_server [OF assms(4,5) auth [unfolded h0_def c_def] hq [unfolded r h0_def c_def] view]
  show ?thesis
    unfolding q using runs(2-4) run by (auto simp: audit_entry_of_def split: sum.split)
qed

text \<open>
  A session: the login, and then any query while the token lasts, whatever other requests, backups
  and replication the server has gone through in between.
\<close>

lemma client_session_runs:
  assumes ok: "server_ok (ce_auth (wi_call wi)) sv" and "db_faults (a_db (hd_auth (sv_handler sv))) = []"
    and "jwt_accepts (en_crypto (ce_auth (wi_call wi)))"
    and login: "Login (ce_auth (wi_call wi)) (ce_now (wi_call wi)) u p (hd_auth (sv_handler sv)) = (Inr lr, a')"
    and "admits wi sv" and "b_size (login_body u p) \<le> max_body" and "clean u" and "clean p"
    and "clean (lr_Token lr)" and "u \<noteq> []" and "p \<noteq> []" and "lr_Token lr \<noteq> []"
  obtains cl' sv1 where "client_Login (server_http wi) u p cl sv = (Inr (), cl', sv1)"
    and "\<And>now sv'. now < numeric_date (ce_now (wi_call wi) + jm_duration (a_jwt (hd_auth (sv_handler sv)))) \<Longrightarrow>
      (server_step (ce_auth (wi_call wi)))\<^sup>*\<^sup>* sv1 sv' \<Longrightarrow>
      AuthenticateRequest (ce_auth (wi_call wi)) now (client_auth cl' json_headers) (hd_auth (sv_handler sv')) =
        (Inr (lr_User lr), hd_auth (sv_handler sv'))"
proof -
  let ?e = "ce_auth (wi_call wi)" and ?a = "hd_auth (sv_handler sv)"
  let ?cl = "cl\<lparr>cl_token := lr_Token lr\<rparr>"
  let ?sv1 = "(counted wi sv)\<lparr>sv_handler := (sv_handler sv)\<lparr>hd_auth := a'\<rparr>\<rparr>"
  let ?h = "client_auth ?cl json_headers"
  have h: "?h ''X-API-Key'' = []" "?h ''Authorization'' = ''Bearer '' @ lr_Token lr"
    using assms(12) by (simp_all add: client_auth_def json_headers_def)
  have step: "auth_step ?e ?a a'" using auth_step.login [of ?e ?a "ce_now (wi_call wi)" u p] login by simp
  then have jwt: "a_jwt a' = a_jwt ?a" using auth_step_wired by blast
  have "auth_ok ?e a'" using step ok auth_ok_step by (auto simp: server_ok_def handler_ok_def)
  then have ok1: "server_ok ?e ?sv1" using ok by (simp add: server_ok_def handler_ok_def)
  have db: "sysdb_ok (a_db ?a)" using ok by (simp add: server_ok_def handler_ok_def auth_ok_def)
  show thesis
  proof (rule that)
    show "client_Login (server_http wi) u p cl sv = (Inr (), ?cl, ?sv1)"
      by (rule client_Login_server) (use assms in simp_all)
  next
    fix now sv'
    assume "now < numeric_date (ce_now (wi_call wi) + jm_duration (a_jwt ?a))" and "(server_step ?e)\<^sup>*\<^sup>* ?sv1 sv'"
    then show "AuthenticateRequest ?e now ?h (hd_auth (sv_handler sv')) = (Inr (lr_User lr), hd_auth (sv_handler sv'))"
      using Login_identity [OF db assms(2,3) login _ h] server_run_jwt [OF _ ok1] jwt by simp
  qed
qed

end
