(* ===== verification/Csv.thy ===== *)
theory Csv
  imports ToolValues
begin

text \<open>
  What the import and export commands use of \<open>encoding/csv\<close>: the writer and the reader with their
  default settings (comma, no comments, no lazy quotes, no trimming, every record as long as the
  first), and that the reader gives back what the writer wrote.
\<close>

section \<open>Writing\<close>

abbreviation dquote :: char where "dquote \<equiv> CHR 0x22"
abbreviation lf :: char where "lf \<equiv> CHR 0x0A"
abbreviation cr :: char where "cr \<equiv> CHR 0x0D"

definition fieldNeedsQuotes :: "string \<Rightarrow> bool" where
  "fieldNeedsQuotes f \<longleftrightarrow>
     f \<noteq> [] \<and>
     (f = [CHR 0x5C, CHR ''.''] \<or> (\<exists>c\<in>set f. c \<in> {lf, cr, dquote, CHR '',''}) \<or>
      lead_rune space_runes f \<noteq> None)"

definition quote_field :: "string \<Rightarrow> string" where
  "quote_field f = dquote # concat (map (\<lambda>c. if c = dquote then [dquote, dquote] else [c]) f) @ [dquote]"

definition write_field :: "string \<Rightarrow> string" where
  "write_field f = (if fieldNeedsQuotes f then quote_field f else f)"

definition csv_record :: "string list \<Rightarrow> string" where
  "csv_record fs = join '','' (map write_field fs) @ [lf]"

definition csv_write :: "string list list \<Rightarrow> string" where
  "csv_write rows = concat (map csv_record rows)"

section \<open>Reading\<close>

text \<open>The lines with their line feeds; \<open>\r\n\<close> becomes \<open>\n\<close>, and a last \<open>\r\<close> is dropped.\<close>

definition drop_cr :: "string \<Rightarrow> string" where
  "drop_cr l = (if l \<noteq> [] \<and> last l = cr then butlast l else l)"

fun csv_lines_from :: "string \<Rightarrow> string \<Rightarrow> string list" where
  "csv_lines_from cur [] = (if cur = [] then [] else [drop_cr cur])"
| "csv_lines_from cur (c # s) =
     (if c = lf then (drop_cr cur @ [lf]) # csv_lines_from [] s else csv_lines_from (cur @ [c]) s)"

definition csv_lines :: "string \<Rightarrow> string list" where
  "csv_lines s = csv_lines_from [] s"

definition drop_lf :: "string \<Rightarrow> string" where
  "drop_lf l = (if l \<noteq> [] \<and> last l = lf then butlast l else l)"

definition ErrBareQuote :: gerr where
  "ErrBareQuote = Err ''bare quote in non-quoted-field''"

definition ErrQuote :: gerr where
  "ErrQuote = Err ''extraneous or missing quote in quoted-field''"

definition ErrFieldCount :: gerr where
  "ErrFieldCount = Err ''wrong number of fields''"

text \<open>
  One record from the current line, with the lines after it: its fields and the lines left. In a
  quoted field the text so far is kept; the end of the line is part of it.
\<close>

definition add_field :: "string \<Rightarrow> (string list \<times> string list) res \<Rightarrow> (string list \<times> string list) res" where
  "add_field f r = map_sum id (\<lambda>(fs, ls). (f # fs, ls)) r"

lemma dropWhile_shorter: "dropWhile P xs = y # ys \<Longrightarrow> length ys < length xs"
  using length_dropWhile_le [of P xs] by simp

datatype csv_mode = Field | Quoted string

function csv_parse :: "csv_mode \<Rightarrow> string \<Rightarrow> string list \<Rightarrow> (string list \<times> string list) res" where
  "csv_parse Field line ls =
     (if line \<noteq> [] \<and> hd line = dquote then csv_parse (Quoted []) (tl line) ls
      else case dropWhile (\<lambda>c. c \<noteq> CHR '','') line of
        [] \<Rightarrow> if dquote \<in> set (drop_lf line) then Inl ErrBareQuote else Inr ([drop_lf line], ls)
      | _ # l \<Rightarrow>
          let f = takeWhile (\<lambda>c. c \<noteq> CHR '','') line in
          if dquote \<in> set f then Inl ErrBareQuote else add_field f (csv_parse Field l ls))"
| "csv_parse (Quoted acc) line ls =
     (case dropWhile (\<lambda>c. c \<noteq> dquote) line of
        [] \<Rightarrow>
          (if line = [] then Inl ErrQuote
           else case ls of [] \<Rightarrow> Inl ErrQuote | l # ls' \<Rightarrow> csv_parse (Quoted (acc @ line)) l ls')
      | _ # l \<Rightarrow>
          let f = acc @ takeWhile (\<lambda>c. c \<noteq> dquote) line in
          if l \<noteq> [] \<and> hd l = dquote then csv_parse (Quoted (f @ [dquote])) (tl l) ls
          else if l \<noteq> [] \<and> hd l = CHR '','' then add_field f (csv_parse Field (tl l) ls)
          else if l = [] \<or> l = [lf] then Inr ([f], ls)
          else Inl ErrQuote)"
  by pat_completeness auto
termination
proof (relation "measure (\<lambda>(m, line, ls). length line + sum_list (map (\<lambda>l. Suc (length l)) ls))")
qed (auto dest: dropWhile_shorter simp: less_imp_diff_less)

declare csv_parse.simps [simp del]

lemma add_field_Inr_iff [simp]:
  "add_field f r = Inr (fs, ls) \<longleftrightarrow> (\<exists>fs'. r = Inr (fs', ls) \<and> fs = f # fs')"
  by (cases r) (auto simp: add_field_def)

lemma csv_parse_rest: "csv_parse m line ls = Inr (fs, ls') \<Longrightarrow> suffix ls' ls"
proof (induction m line ls arbitrary: fs rule: csv_parse.induct)
  case (1 line ls)
  then show ?case
    by (auto simp: csv_parse.simps(1) [of line] Let_def split: if_splits list.splits sum.splits)
next
  case (2 acc line ls)
  then show ?case
    by (auto simp: csv_parse.simps(2) [of acc line] Let_def intro: suffix_ConsI
        split: if_splits list.splits sum.splits)
qed

text \<open>All records; an empty line is skipped.\<close>

function csv_records :: "nat option \<Rightarrow> string list \<Rightarrow> string list list res" where
  "csv_records n [] = Inr []"
| "csv_records n (l # ls) =
     (if l = [lf] \<or> l = [] then csv_records n ls
      else case csv_parse Field l ls of
        Inl e \<Rightarrow> Inl e
      | Inr (fs, ls') \<Rightarrow>
          if n \<noteq> None \<and> n \<noteq> Some (length fs) then Inl ErrFieldCount
          else map_sum id (\<lambda>rs. fs # rs) (csv_records (Some (length fs)) ls'))"
  by pat_completeness auto
termination
proof (relation "measure (\<lambda>(n, ls). length ls)")
  fix n l ls p fs ls'
  assume "csv_parse Field l ls = Inr p" and "(fs, ls') = p"
  then have "suffix ls' ls" using csv_parse_rest by blast
  then show "((Some (length fs), ls'), n, l # ls) \<in> measure (\<lambda>(n, ls). length ls)"
    using suffix_length_le by fastforce
qed auto

definition csv_read :: "string \<Rightarrow> string list list res" where
  "csv_read s = csv_records None (csv_lines s)"

section \<open>Reading what was written\<close>

text \<open>A text that ends with a line feed, split at its first one.\<close>

definition ends_lf :: "string \<Rightarrow> bool" where
  "ends_lf s \<longleftrightarrow> s \<noteq> [] \<and> last s = lf"

lemma ends_lf_Cons: "ends_lf s \<Longrightarrow> ends_lf (c # s)"
  by (simp add: ends_lf_def)

lemma ends_lf_append: "ends_lf t \<Longrightarrow> ends_lf (s @ t)"
  by (simp add: ends_lf_def)

lemma ends_lf_split:
  assumes "ends_lf s"
  obtains b r where "s = b @ lf # r" and "lf \<notin> set b"
  using assms by (metis ends_lf_def last_in_set split_list_first)

lemma csv_lines_split: "lf \<notin> set b \<Longrightarrow> csv_lines_from cur (b @ lf # r) = (drop_cr (cur @ b) @ [lf]) # csv_lines r"
  by (induction b arbitrary: cur) (auto simp: csv_lines_def)

lemma csv_lines_lf [simp]: "csv_lines (lf # s) = [lf] # csv_lines s"
  using csv_lines_split [of "[]" "[]" s] by (simp add: csv_lines_def drop_cr_def)

text \<open>Reading on by one byte of the text.\<close>

lemma csv_lines_Cons:
  assumes "ends_lf s" and "c \<noteq> lf" and "\<not> (c = cr \<and> hd s = lf)"
  obtains l ls where "csv_lines s = l # ls" and "l \<noteq> []" and "csv_lines (c # s) = (c # l) # ls"
proof -
  obtain b r where s: "s = b @ lf # r" and b: "lf \<notin> set b"
    using ends_lf_split [OF assms(1)] by blast
  have "csv_lines (c # s) = (drop_cr (c # b) @ [lf]) # csv_lines r"
    using csv_lines_split [of "c # b" "[]" r] b assms(2) by (simp add: csv_lines_def s)
  moreover have "csv_lines s = (drop_cr b @ [lf]) # csv_lines r"
    using csv_lines_split [OF b, of "[]" r] by (simp add: csv_lines_def s)
  moreover have "drop_cr (c # b) = c # drop_cr b"
    using assms(3) s by (cases b) (auto simp: drop_cr_def)
  ultimately show thesis using that by simp
qed

lemma csv_lines_char:
  assumes "ends_lf s" and "c \<noteq> lf" and "c \<noteq> cr"
  shows "\<exists>l ls. csv_lines s = l # ls \<and> csv_lines (c # s) = (c # l) # ls"
  using csv_lines_Cons [OF assms(1,2)] assms(3) by metis

definition parse_at :: "csv_mode \<Rightarrow> string \<Rightarrow> (string list \<times> string list) res" where
  "parse_at m s = (case csv_lines s of [] \<Rightarrow> csv_parse m [] [] | l # ls \<Rightarrow> csv_parse m l ls)"

lemma csv_lines_ends:
  assumes "ends_lf s"
  obtains l ls where "csv_lines s = l # ls"
  by (rule ends_lf_split [OF assms]) (use csv_lines_split [of _ "[]"] that in \<open>auto simp: csv_lines_def\<close>)

lemma quoted_plain:
  assumes "ends_lf s" and "c \<noteq> lf" and "c \<noteq> dquote" and "\<not> (c = cr \<and> hd s = lf)"
  shows "parse_at (Quoted acc) (c # s) = parse_at (Quoted (acc @ [c])) s"
proof -
  obtain l ls where l: "csv_lines s = l # ls" "l \<noteq> []" "csv_lines (c # s) = (c # l) # ls"
    using csv_lines_Cons [OF assms(1,2,4)] by blast
  then show ?thesis
    using assms(3)
    by (cases "dropWhile (\<lambda>c. c \<noteq> dquote) l")
      (simp_all add: parse_at_def csv_parse.simps(2) [of acc] csv_parse.simps(2) [of "acc @ [c]"] Let_def
        del: dropWhile_eq_Nil_conv split: list.split)
qed

lemma quoted_lf:
  assumes "ends_lf s"
  shows "parse_at (Quoted acc) (lf # s) = parse_at (Quoted (acc @ [lf])) s"
proof -
  obtain l ls where "csv_lines s = l # ls" using csv_lines_ends [OF assms] by blast
  then show ?thesis by (simp add: parse_at_def csv_parse.simps(2) [of acc])
qed

lemma quoted_twice:
  assumes "ends_lf s"
  shows "parse_at (Quoted acc) (dquote # dquote # s) = parse_at (Quoted (acc @ [dquote])) s"
proof -
  obtain l ls where l: "csv_lines s = l # ls" "csv_lines (dquote # s) = (dquote # l) # ls"
    using csv_lines_char [OF assms, of dquote] by auto
  moreover have "csv_lines (dquote # dquote # s) = (dquote # dquote # l) # ls"
    using csv_lines_char [OF ends_lf_Cons [OF assms], of dquote dquote] l by auto
  ultimately show ?thesis by (simp add: parse_at_def csv_parse.simps(2) [of acc] Let_def)
qed

lemma quoted_comma:
  assumes "ends_lf s"
  shows "parse_at (Quoted acc) (dquote # CHR '','' # s) = add_field acc (parse_at Field s)"
proof -
  obtain l ls where l: "csv_lines s = l # ls" "csv_lines (CHR '','' # s) = (CHR '','' # l) # ls"
    using csv_lines_char [OF assms, of "CHR '',''"] by auto
  moreover have "csv_lines (dquote # CHR '','' # s) = (dquote # CHR '','' # l) # ls"
    using csv_lines_char [OF ends_lf_Cons [OF assms], of dquote "CHR '',''"] l by auto
  ultimately show ?thesis by (simp add: parse_at_def csv_parse.simps(2) [of acc] Let_def)
qed

lemma quoted_end: "parse_at (Quoted acc) (dquote # lf # s) = Inr ([acc], csv_lines s)"
proof -
  have "csv_lines (dquote # lf # s) = [dquote, lf] # csv_lines s"
    using csv_lines_split [of "[dquote]" "[]" s] by (simp add: csv_lines_def drop_cr_def)
  then show ?thesis by (simp add: parse_at_def csv_parse.simps(2) [of acc] Let_def)
qed

text \<open>No carriage return stands before a line feed, where the reader would drop it.\<close>

fun no_crlf :: "string \<Rightarrow> bool" where
  "no_crlf (a # b # s) \<longleftrightarrow> \<not> (a = cr \<and> b = lf) \<and> no_crlf (b # s)"
| "no_crlf s \<longleftrightarrow> True"

definition double_quotes :: "string \<Rightarrow> string" where
  "double_quotes f = concat (map (\<lambda>c. if c = dquote then [dquote, dquote] else [c]) f)"

lemma quoted_field:
  "ends_lf s \<Longrightarrow> no_crlf f \<Longrightarrow>
     parse_at (Quoted acc) (double_quotes f @ dquote # s) = parse_at (Quoted (acc @ f)) (dquote # s)"
proof (induction f arbitrary: acc)
  case Nil
  then show ?case by (simp add: double_quotes_def)
next
  case (Cons c f)
  let ?t = "double_quotes f @ dquote # s"
  have t: "ends_lf ?t" using Cons.prems(1) by (simp add: ends_lf_append ends_lf_Cons)
  have IH: "parse_at (Quoted (acc @ [c])) ?t = parse_at (Quoted (acc @ c # f)) (dquote # s)"
    using Cons.IH [of "acc @ [c]"] Cons.prems by (cases f) simp_all
  consider "c = dquote" | "c = lf" | "c \<noteq> dquote" "c \<noteq> lf" by blast
  then show ?case
  proof cases
    case 1
    then show ?thesis using quoted_twice [OF t] IH by (simp add: double_quotes_def)
  next
    case 2
    then show ?thesis using quoted_lf [OF t] IH by (simp add: double_quotes_def)
  next
    case 3
    have "\<not> (c = cr \<and> hd ?t = lf)"
      using Cons.prems(2) by (cases f) (auto simp: double_quotes_def)
    then show ?thesis using quoted_plain [OF t 3(2,1)] 3 IH by (simp add: double_quotes_def)
  qed
qed

lemma csv_lines_plain:
  assumes "ends_lf s" and "lf \<notin> set f" and "cr \<notin> set f" and "csv_lines s = l # ls"
  shows "csv_lines (f @ s) = (f @ l) # ls"
  using assms
proof (induction f)
  case (Cons c f)
  then show ?case
    using csv_lines_char [of "f @ s" c] ends_lf_append [OF assms(1), of f] by auto
qed simp

lemma plain_not_quoted:
  assumes "\<not> fieldNeedsQuotes f"
  shows "lf \<notin> set f" "cr \<notin> set f" "dquote \<notin> set f" "CHR '','' \<notin> set f"
  using assms by (auto simp: fieldNeedsQuotes_def)

lemma field_then_comma:
  assumes "ends_lf s" and "no_crlf f"
  shows "parse_at Field (write_field f @ CHR '','' # s) = add_field f (parse_at Field s)"
proof (cases "fieldNeedsQuotes f")
  case True
  let ?t = "double_quotes f @ dquote # CHR '','' # s"
  have t: "ends_lf ?t" using assms(1) by (simp add: ends_lf_append ends_lf_Cons)
  obtain l ls where "csv_lines ?t = l # ls" "csv_lines (dquote # ?t) = (dquote # l) # ls"
    using csv_lines_char [OF t, of dquote] by auto
  then have "parse_at Field (dquote # ?t) = parse_at (Quoted []) ?t"
    by (simp add: parse_at_def csv_parse.simps(1) [of "dquote # l"])
  also have "\<dots> = parse_at (Quoted f) (dquote # CHR '','' # s)"
    using quoted_field [OF ends_lf_Cons [OF assms(1)] assms(2), of "[]" "CHR '',''"] by simp
  finally show ?thesis
    using True quoted_comma [OF assms(1)] by (simp add: write_field_def quote_field_def double_quotes_def)
next
  case False
  note plain = plain_not_quoted [OF False]
  obtain l ls where l: "csv_lines s = l # ls" "csv_lines (CHR '','' # s) = (CHR '','' # l) # ls"
    using csv_lines_char [OF assms(1), of "CHR '',''"] by auto
  have line: "csv_lines (f @ CHR '','' # s) = (f @ CHR '','' # l) # ls"
    using csv_lines_plain [OF ends_lf_Cons [OF assms(1)] plain(1,2) l(2)] .
  have "\<not> (f @ CHR '','' # l \<noteq> [] \<and> hd (f @ CHR '','' # l) = dquote)"
    using plain(3) by (cases f) auto
  moreover have "takeWhile (\<lambda>c. c \<noteq> CHR '','') (f @ CHR '','' # l) = f"
    "dropWhile (\<lambda>c. c \<noteq> CHR '','') (f @ CHR '','' # l) = CHR '','' # l"
    using plain(4) by (auto simp: takeWhile_append dropWhile_append)
  ultimately show ?thesis
    using False plain(3) line l(1)
    by (simp add: parse_at_def write_field_def csv_parse.simps(1) [of "f @ CHR '','' # l"] Let_def)
qed

lemma field_then_end:
  assumes "no_crlf f" and "s = [] \<or> ends_lf s"
  shows "parse_at Field (write_field f @ lf # s) = Inr ([f], csv_lines s)"
proof (cases "fieldNeedsQuotes f")
  case True
  let ?t = "double_quotes f @ dquote # lf # s"
  have tail: "ends_lf (lf # s)" using assms(2) by (auto simp: ends_lf_def)
  have t: "ends_lf ?t" using ends_lf_append [OF ends_lf_Cons [OF tail]] by blast
  obtain l ls where "csv_lines ?t = l # ls" "csv_lines (dquote # ?t) = (dquote # l) # ls"
    using csv_lines_char [OF t, of dquote] by auto
  then have "parse_at Field (dquote # ?t) = parse_at (Quoted []) ?t"
    by (simp add: parse_at_def csv_parse.simps(1) [of "dquote # l"])
  also have "\<dots> = parse_at (Quoted f) (dquote # lf # s)"
    using quoted_field [OF tail assms(1), of "[]"] by simp
  finally show ?thesis
    using True quoted_end by (simp add: write_field_def quote_field_def double_quotes_def)
next
  case False
  note plain = plain_not_quoted [OF False]
  have "csv_lines (f @ lf # s) = (f @ [lf]) # csv_lines s"
  proof -
    have "last f \<noteq> cr \<or> f = []" using plain(2) last_in_set [of f] by metis
    then have "drop_cr f = f" by (auto simp: drop_cr_def)
    then show ?thesis using csv_lines_split [OF plain(1), of "[]" s] by (simp add: csv_lines_def)
  qed
  moreover have "\<not> (f @ [lf] \<noteq> [] \<and> hd (f @ [lf]) = dquote)" using plain(3) by (cases f) auto
  moreover have "dropWhile (\<lambda>c. c \<noteq> CHR '','') (f @ [lf]) = []" using plain(4) by (auto simp: dropWhile_eq_Nil_conv)
  ultimately show ?thesis
    using False plain(3)
    by (simp add: parse_at_def write_field_def csv_parse.simps(1) [of "f @ [lf]"] drop_lf_def)
qed

lemma record_read:
  assumes "fs \<noteq> []" and "\<forall>f\<in>set fs. no_crlf f" and "s = [] \<or> ends_lf s"
  shows "parse_at Field (csv_record fs @ s) = Inr (fs, csv_lines s)"
  using assms
proof (induction fs)
  case (Cons f fs)
  show ?case
  proof (cases fs)
    case Nil
    then show ?thesis using field_then_end [of f s] Cons.prems by (simp add: csv_record_def)
  next
    case (Cons g gs)
    have "ends_lf (csv_record fs @ s)" using Cons.prems(3) by (auto simp: csv_record_def ends_lf_def)
    then have "parse_at Field (csv_record (f # fs) @ s) = add_field f (parse_at Field (csv_record fs @ s))"
      using field_then_comma [of "csv_record fs @ s" f] Cons.prems(2) Cons by (simp add: csv_record_def)
    then show ?thesis using Cons.IH Cons.prems Cons by simp
  qed
qed simp

text \<open>Only a record of a single empty field is written as an empty line, which the reader skips.\<close>

lemma record_line:
  assumes "fs \<noteq> []" and "fs \<noteq> [[]]" and "s = [] \<or> ends_lf s"
  obtains l ls where "csv_lines (csv_record fs @ s) = l # ls" and "l \<noteq> [lf]" and "l \<noteq> []"
proof -
  obtain c t where t: "csv_record fs @ s = c # t" and "c \<noteq> lf" "c \<noteq> cr" and "ends_lf t"
  proof (cases "hd fs")
    case Nil
    then obtain g gs where "fs = [] # g # gs" using assms(1,2) by (cases fs; cases "tl fs") auto
    then show thesis
      using that [of "CHR '',''" "csv_record (g # gs) @ s"] assms(3)
      by (auto simp: csv_record_def write_field_def fieldNeedsQuotes_def ends_lf_def)
  next
    case (Cons a f)
    then obtain gs where fs: "fs = (a # f) # gs" using assms(1) by (cases fs) auto
    define w where "w = write_field (a # f)"
    have w: "w \<noteq> []" "hd w \<noteq> lf" "hd w \<noteq> cr"
      by (auto simp: w_def write_field_def quote_field_def fieldNeedsQuotes_def)
    have "csv_record fs @ s = w @ (if gs = [] then [] else CHR '','' # join '','' (map write_field gs)) @ lf # s"
      by (cases gs) (simp_all add: fs csv_record_def w_def)
    then obtain u where u: "csv_record fs @ s = w @ u" "ends_lf u"
      using assms(3) by (auto simp: ends_lf_def)
    then show thesis
      using that [of "hd w" "tl w @ u"] w ends_lf_append [of u "tl w"] by (cases w) auto
  qed
  then show thesis using csv_lines_char [of t c] that by auto
qed

lemma csv_write_ends: "csv_write rows = [] \<or> ends_lf (csv_write rows)"
proof (induction rows)
  case (Cons r rows)
  then show ?case by (auto simp: csv_write_def csv_record_def ends_lf_def)
qed (simp add: csv_write_def)

lemma blank_record: "csv_record [[]] = [lf]"
  by (simp add: csv_record_def write_field_def fieldNeedsQuotes_def)

lemma csv_records_write:
  assumes "\<forall>r\<in>set rows. length r = k \<and> (\<forall>f\<in>set r. no_crlf f)" and "0 < k"
    and "n = None \<or> n = Some k"
  shows "csv_records n (csv_lines (csv_write rows)) = Inr (filter (\<lambda>r. r \<noteq> [[]]) rows)"
  using assms
proof (induction rows arbitrary: n)
  case Nil
  then show ?case by (simp add: csv_write_def csv_lines_def)
next
  case (Cons r rows)
  let ?s = "csv_write rows"
  have split: "csv_write (r # rows) = csv_record r @ ?s" by (simp add: csv_write_def)
  show ?case
  proof (cases "r = [[]]")
    case True
    then show ?thesis using Cons.IH [of n] Cons.prems split by (simp add: blank_record)
  next
    case False
    then have r: "r \<noteq> []" "r \<noteq> [[]]" "\<forall>f\<in>set r. no_crlf f" "length r = k" using Cons.prems by auto
    obtain l ls where l: "csv_lines (csv_record r @ ?s) = l # ls" "l \<noteq> [lf]" "l \<noteq> []"
      using record_line [OF r(1,2) csv_write_ends] by blast
    have "csv_parse Field l ls = Inr (r, csv_lines ?s)"
      using record_read [OF r(1,3) csv_write_ends, of rows] l(1) by (simp add: parse_at_def)
    then show ?thesis
      using Cons.IH [of "Some k"] Cons.prems l r(2,4) split by auto
  qed
qed

lemma csv_read_write:
  assumes "\<forall>r\<in>set rows. length r = k \<and> (\<forall>f\<in>set r. no_crlf f)" and "0 < k"
  shows "csv_read (csv_write rows) = Inr (filter (\<lambda>r. r \<noteq> [[]]) rows)"
  using csv_records_write [OF assms, of None] by (simp add: csv_read_def)

end
