(* ===== verification/ImportExport.thy ===== *)
theory ImportExport
  imports Client Csv
begin

text \<open>
  The commands \<open>import\<close> and \<open>export\<close> (\<open>cmd/sparkdb/commands/import.go\<close>, \<open>export.go\<close>,
  \<open>utils.go\<close>): choosing the format, inferring column types, building the statements, sending them in
  batches, and writing a table as CSV or JSON. The local files are a function from paths; the
  network is that of \<open>Client\<close>. What they print about their progress is left out.
\<close>

section \<open>Identifiers and values\<close>

abbreviation squote :: char where "squote \<equiv> CHR 0x27"

definition quoteIdent :: "string \<Rightarrow> string" where
  "quoteIdent name = dquote # name @ [dquote]"

definition quoteIdents :: "string list \<Rightarrow> string list" where
  "quoteIdents names = map quoteIdent names"

definition escapeValue :: "string \<Rightarrow> string \<Rightarrow> string" where
  "escapeValue val0 colType =
     (let val = trim_space val0 in
      if val = [] \<or> to_upper val = ''NULL'' then ''NULL''
      else if (colType = ''INTEGER'' \<or> colType = ''REAL'') \<and> parse_float_ok val then val
      else squote # replace_char squote [squote, squote] val @ [squote])"

section \<open>Column types\<close>

definition infer_value :: "string \<Rightarrow> string \<Rightarrow> string" where
  "infer_value t val0 =
     (let val = trim_space val0 in
      if val = [] then t
      else if parse_int64 val \<noteq> None then (if t = ''TEXT'' then ''INTEGER'' else t)
      else if parse_float_ok val then (if t \<noteq> ''INTEGER'' then ''REAL'' else t)
      else ''TEXT'')"

fun infer_row :: "string list \<Rightarrow> string list \<Rightarrow> string list" where
  "infer_row (t # ts) (v # vs) = infer_value t v # infer_row ts vs"
| "infer_row ts vs = ts"

definition inferTypes :: "string list \<Rightarrow> string list list \<Rightarrow> string list" where
  "inferTypes headers data = foldl infer_row (replicate (length headers) ''TEXT'') data"

definition inferJSONType :: "jval \<Rightarrow> string" where
  "inferJSONType v =
     (case v of
        JNum neg ds dp \<Rightarrow> if parse_int64 (sprint v) \<noteq> None then ''INTEGER'' else ''REAL''
      | JBool b \<Rightarrow> ''INTEGER''
      | _ \<Rightarrow> ''TEXT'')"

section \<open>Statements\<close>

definition create_sql :: "string \<Rightarrow> string list \<Rightarrow> string list \<Rightarrow> string" where
  "create_sql table headers types =
     ''CREATE TABLE IF NOT EXISTS '' @ quoteIdent table @ '' ('' @
     join '', '' (map (\<lambda>(h, t). quoteIdent h @ '' '' @ t) (zip headers types)) @ '')''"

definition insert_sql :: "string \<Rightarrow> string list \<Rightarrow> string list list \<Rightarrow> string" where
  "insert_sql table headers rows =
     ''INSERT INTO '' @ quoteIdent table @ '' ('' @ join '', '' (quoteIdents headers) @ '') VALUES '' @
     join '', '' (map (\<lambda>vals. ''('' @ join '','' vals @ '')'') rows)"

function batches :: "'a list \<Rightarrow> 'a list list" where
  "batches [] = []"
| "batches (x # xs) = take 100 (x # xs) # batches (drop 100 (x # xs))"
  by pat_completeness auto
termination by (relation "measure length") auto

declare batches.simps(2) [simp del]

text \<open>The lines of a script, comments and blank lines left out, cut after a line ending in \<open>;\<close>.\<close>

fun split_lines :: "string list \<Rightarrow> string \<Rightarrow> string list" where
  "split_lines [] buf = (let s = trim_space buf in if s \<noteq> [] then [s] else [])"
| "split_lines (line # ls) buf =
     (let trimmed = trim_space line in
      if trimmed = [] \<or> prefix ''--'' trimmed then split_lines ls buf
      else let buf' = buf @ line @ [lf] in
        if suffix '';'' (trim_space trimmed) then trim_space buf' # split_lines ls []
        else split_lines ls buf')"

definition splitSQL :: "string \<Rightarrow> string list" where
  "splitSQL src = split_lines (split_on lf src) []"

section \<open>Sending statements\<close>

text \<open>A failing call and an error in the response end the command, with the statement's label.\<close>

definition send :: "'w http \<Rightarrow> client \<Rightarrow> string \<Rightarrow> string \<Rightarrow> string \<Rightarrow> 'w \<Rightarrow> unit res \<times> 'w" where
  "send net cl db label q w =
     (case client_Query net cl db q w of
        (Inl e, w1) \<Rightarrow> (Inl (Wrap label e), w1)
      | (Inr res, w1) \<Rightarrow>
          if ar_Error res \<noteq> [] then (Inl (Err (label @ '': '' @ ar_Error res)), w1) else (Inr (), w1))"

fun send_all :: "'w http \<Rightarrow> client \<Rightarrow> string \<Rightarrow> (string \<times> string) list \<Rightarrow> 'w \<Rightarrow> unit res \<times> 'w" where
  "send_all net cl db [] w = (Inr (), w)"
| "send_all net cl db ((label, q) # qs) w =
     (case send net cl db label q w of
        (Inl e, w1) \<Rightarrow> (Inl e, w1)
      | (Inr _, w1) \<Rightarrow> send_all net cl db qs w1)"

definition batch_statements :: "('a list \<Rightarrow> string) \<Rightarrow> 'a list \<Rightarrow> (string \<times> string) list" where
  "batch_statements sql rows =
     map (\<lambda>(i, b). (''insert batch '' @ dec_nat i, sql b)) (enumerate 0 (batches rows))"

section \<open>Import\<close>

text \<open>\<open>filepath.Base\<close>.\<close>

definition path_base :: "string \<Rightarrow> string" where
  "path_base p =
     (if p = [] then ''.''
      else let q = rev (dropWhile (\<lambda>c. c = CHR ''/'') (rev p)) in
        if q = [] then ''/'' else rev (takeWhile (\<lambda>c. c \<noteq> CHR ''/'') (rev q)))"

type_synonym files = "string \<Rightarrow> string res"

definition csv_statements :: "string \<Rightarrow> string list \<Rightarrow> string list list \<Rightarrow> (string \<times> string) list" where
  "csv_statements table headers data =
     (let colTypes = inferTypes headers data in
      (''create table'', create_sql table headers colTypes) #
      batch_statements (\<lambda>batch. insert_sql table headers
        (map (\<lambda>row. map (\<lambda>(v, t). escapeValue v t) (zip row colTypes)) batch)) data)"

definition importCSV :: "files \<Rightarrow> 'w http \<Rightarrow> client \<Rightarrow> string \<Rightarrow> string \<Rightarrow> 'w \<Rightarrow> unit res \<times> 'w" where
  "importCSV fs net cl db path w =
     (case fs path of
        Inl e \<Rightarrow> (Inl (Wrap ''open file'' e), w)
      | Inr src \<Rightarrow>
          case csv_read src of
            Inl e \<Rightarrow> (Inl (Wrap ''read csv'' e), w)
          | Inr rows \<Rightarrow>
              if length rows < 2
              then (Inl (Err ''csv must have at least a header row and one data row''), w)
              else send_all net cl db
                (csv_statements (trim_suffix (path_base path) ''.csv'') (hd rows) (tl rows)) w)"

text \<open>
  A JSON file is an array of objects, decoded by \<open>unmarshal\<close>. The columns are the keys of the first
  object, in the order in which Go happens to range over the map: \<open>order\<close>. A key that a row does
  not have reads as nil.
\<close>

definition entry :: "(string \<times> jval) list \<Rightarrow> string \<Rightarrow> jval" where
  "entry row h = (case map_of (rev row) h of None \<Rightarrow> JNull | Some v \<Rightarrow> v)"

definition json_statements ::
  "(string list \<Rightarrow> string list) \<Rightarrow> string \<Rightarrow> (string \<times> jval) list list \<Rightarrow> (string \<times> string) list" where
  "json_statements order table rows =
     (let headers = order (remdups (map fst (hd rows)));
          colTypes = map (\<lambda>h. inferJSONType (entry (hd rows) h)) headers in
      (''create table'', create_sql table headers colTypes) #
      batch_statements (\<lambda>batch. insert_sql table headers
        (map (\<lambda>row. map (\<lambda>h. escapeValue (sprint (entry row h)) ''TEXT'') headers) batch)) rows)"

definition importJSON ::
  "files \<Rightarrow> (string \<Rightarrow> (string \<times> jval) list list res) \<Rightarrow> (string list \<Rightarrow> string list) \<Rightarrow> 'w http \<Rightarrow>
   client \<Rightarrow> string \<Rightarrow> string \<Rightarrow> 'w \<Rightarrow> unit res \<times> 'w" where
  "importJSON fs unmarshal order net cl db path w =
     (case fs path of
        Inl e \<Rightarrow> (Inl (Wrap ''read file'' e), w)
      | Inr src \<Rightarrow>
          case unmarshal src of
            Inl e \<Rightarrow> (Inl (Wrap ''parse json'' e), w)
          | Inr rows \<Rightarrow>
              if rows = [] then (Inl (Err ''json must contain at least one object''), w)
              else send_all net cl db
                (json_statements order (trim_suffix (path_base path) ''.json'') rows) w)"

definition importSQL :: "files \<Rightarrow> 'w http \<Rightarrow> client \<Rightarrow> string \<Rightarrow> string \<Rightarrow> 'w \<Rightarrow> unit res \<times> 'w" where
  "importSQL fs net cl db path w =
     (case fs path of
        Inl e \<Rightarrow> (Inl (Wrap ''read file'' e), w)
      | Inr src \<Rightarrow>
          let statements = splitSQL src in
          if statements = [] then (Inl (Err ''no SQL statements found''), w)
          else send_all net cl db
            (map (\<lambda>(i, q). (''statement '' @ dec_nat i, q)) (enumerate 1 statements)) w)"

text \<open>The flags of the commands that talk to a server.\<close>

record flags =
  fl_host :: string
  fl_port :: int
  fl_user :: string
  fl_pass :: string
  fl_apiKey :: string
  fl_db :: string
  fl_format :: string
  fl_output :: string

text \<open>The client with its credentials: a key, or a login.\<close>

definition connect :: "'w http \<Rightarrow> flags \<Rightarrow> 'w \<Rightarrow> client res \<times> 'w" where
  "connect net fl w =
     (let cl = Client_New (fl_host fl) (fl_port fl) in
      if fl_apiKey fl \<noteq> [] then (Inr (SetAPIKey (fl_apiKey fl) cl), w)
      else if fl_user fl = [] \<or> fl_pass fl = []
      then (Inl (Err ''credentials required: use --user and --pass, or --api-key''), w)
      else case client_Login net (fl_user fl) (fl_pass fl) cl w of
        (Inl e, _, w1) \<Rightarrow> (Inl (Wrap ''login'' e), w1)
      | (Inr _, cl1, w1) \<Rightarrow> (Inr cl1, w1))"

text \<open>\<open>%q\<close> of a text without characters to escape.\<close>

definition go_quote :: "string \<Rightarrow> string" where
  "go_quote s = dquote # s @ [dquote]"

definition infer_format :: "string \<Rightarrow> string \<Rightarrow> string res" where
  "infer_format format path =
     (if format \<noteq> [] then Inr format
      else let ext = trim_prefix (path_ext path) ''.'' in
        if ext = ''csv'' then Inr ''csv''
        else if ext = ''json'' \<or> ext = ''jsonl'' then Inr ''json''
        else if ext = ''sql'' then Inr ''sql''
        else Inl (Err (''could not infer format from extension '' @ go_quote ext @ '', use --format'')))"

definition runImport ::
  "files \<Rightarrow> (string \<Rightarrow> (string \<times> jval) list list res) \<Rightarrow> (string list \<Rightarrow> string list) \<Rightarrow> 'w http \<Rightarrow>
   flags \<Rightarrow> string \<Rightarrow> 'w \<Rightarrow> unit res \<times> 'w" where
  "runImport fs unmarshal order net fl path w =
     (case infer_format (fl_format fl) path of
        Inl e \<Rightarrow> (Inl e, w)
      | Inr fmt \<Rightarrow>
          case connect net fl w of
            (Inl e, w1) \<Rightarrow> (Inl e, w1)
          | (Inr cl, w1) \<Rightarrow>
              if fmt = ''csv'' then importCSV fs net cl (fl_db fl) path w1
              else if fmt = ''json'' then importJSON fs unmarshal order net cl (fl_db fl) path w1
              else if fmt = ''sql'' then importSQL fs net cl (fl_db fl) path w1
              else (Inl (Err (''unsupported format: '' @ fmt @ '' (use csv, json, or sql)'')), w1))"

section \<open>Export\<close>

definition csv_cell :: "jval \<Rightarrow> string" where
  "csv_cell v = (if v = JNull then [] else sprint v)"

definition exportCSV :: "string list \<Rightarrow> jval list list \<Rightarrow> string" where
  "exportCSV columns rows = csv_write (columns # map (map csv_cell) rows)"

text \<open>How \<open>encoding/json\<close> writes a number, and a value indented by two blanks.\<close>

definition json_float :: "bool \<Rightarrow> string \<Rightarrow> int \<Rightarrow> string" where
  "json_float neg ds dp =
     (if neg then ''-'' else []) @
     (if ds \<noteq> [] \<and> (dp \<le> -6 \<or> 22 \<le> dp)
      then let t = float_e ds dp; n = length t in
        if 4 \<le> n \<and> t ! (n - 4) = CHR ''e'' \<and> t ! (n - 3) = CHR ''-'' \<and> t ! (n - 2) = CHR ''0''
        then take (n - 2) t @ drop (n - 1) t else t
      else float_f ds dp)"

definition json_break :: "nat \<Rightarrow> string" where
  "json_break d = lf # replicate (2 * d) CHR '' ''"

fun json_text :: "nat \<Rightarrow> jval \<Rightarrow> string" where
  "json_text d JNull = ''null''"
| "json_text d (JBool b) = (if b then ''true'' else ''false'')"
| "json_text d (JNum neg ds dp) = json_float neg ds dp"
| "json_text d (JStr s) = json_string s"
| "json_text d (JArr vs) =
     (if vs = [] then ''[]''
      else ''['' @ json_break (d + 1) @ join ('','' @ json_break (d + 1)) (map (json_text (d + 1)) vs) @
           json_break d @ '']'')"
| "json_text d (JObj kvs) =
     (let ents = map_entries (map (\<lambda>(k, v). (k, json_text (d + 1) v)) kvs) in
      if ents = [] then ''{}''
      else ''{'' @ json_break (d + 1) @
           join ('','' @ json_break (d + 1)) (map (\<lambda>(k, t). json_string k @ '': '' @ t) ents) @
           json_break d @ ''}'')"

text \<open>A row with fewer values than there are columns is an index out of range; no rows are \<open>null\<close>.\<close>

definition exportJSON :: "string list \<Rightarrow> jval list list \<Rightarrow> string res" where
  "exportJSON columns rows =
     (if \<exists>r\<in>set rows. length r < length columns then Inl (Panic ''index out of range'')
      else Inr (json_text 0 (if rows = [] then JNull
                             else JArr (map (\<lambda>r. JObj (zip columns r)) rows)) @ [lf]))"

text \<open>
  The command gives where the text goes (standard output for the empty name) and the text;
  \<open>create\<close> is the error of creating the output file, if any.
\<close>

definition runExport ::
  "(string \<Rightarrow> gerr option) \<Rightarrow> 'w http \<Rightarrow> flags \<Rightarrow> string \<Rightarrow> 'w \<Rightarrow> (string \<times> string) res \<times> 'w" where
  "runExport create net fl table w =
     (let fmt = (if fl_format fl = [] then ''csv'' else fl_format fl) in
      if fmt \<noteq> ''csv'' \<and> fmt \<noteq> ''json''
      then (Inl (Err (''format must be csv or json, got '' @ go_quote fmt)), w)
      else case connect net fl w of
        (Inl e, w1) \<Rightarrow> (Inl e, w1)
      | (Inr cl, w1) \<Rightarrow>
          case client_Query net cl (fl_db fl) (''SELECT * FROM '' @ quoteIdent table) w1 of
            (Inl e, w2) \<Rightarrow> (Inl (Wrap ''query'' e), w2)
          | (Inr res, w2) \<Rightarrow>
              if ar_Error res \<noteq> [] then (Inl (Err (''query: '' @ ar_Error res)), w2)
              else case (if fl_output fl = [] then None else create (fl_output fl)) of
                Some e \<Rightarrow> (Inl (Wrap ''create file'' e), w2)
              | None \<Rightarrow>
                  if fmt = ''csv'' then (Inr (fl_output fl, exportCSV (ar_Columns res) (ar_Rows res)), w2)
                  else (map_sum id (\<lambda>t. (fl_output fl, t)) (exportJSON (ar_Columns res) (ar_Rows res)), w2))"

section \<open>Batches and rows\<close>

lemma concat_batches: "concat (batches xs) = xs"
proof (induction xs rule: batches.induct)
  case (2 x xs)
  have "concat (batches (x # xs)) = take 100 (x # xs) @ concat (batches (drop 100 (x # xs)))"
    by (simp only: batches.simps concat.simps)
  then show ?case unfolding 2 by (simp only: append_take_drop_id)
qed simp

lemma batches_bounded: "b \<in> set (batches xs) \<Longrightarrow> b \<noteq> [] \<and> length b \<le> 100"
proof (induction xs rule: batches.induct)
  case (2 x xs)
  then consider "b = take 100 (x # xs)" | "b \<in> set (batches (drop 100 (x # xs)))"
    by (auto simp: batches.simps(2))
  then show ?case using "2.IH" by cases auto
qed simp

text \<open>
  A table that was exported as CSV is read back cell by cell, but for the records of one empty cell,
  which are written as blank lines: the rows of a table with one column whose value is NULL or the
  empty string, and an empty column name.
\<close>

definition exported_records :: "string list \<Rightarrow> jval list list \<Rightarrow> string list list" where
  "exported_records cols rows = filter (\<lambda>r. r \<noteq> [[]]) (cols # map (map csv_cell) rows)"

lemma exported_records_wide:
  assumes "length cols \<noteq> 1" and "\<forall>r\<in>set rows. length r = length cols"
  shows "exported_records cols rows = cols # map (map csv_cell) rows"
proof -
  have "r \<noteq> [[]]" if "r \<in> set (cols # map (map csv_cell) rows)" for r
  proof -
    have "length r = length cols" using that assms(2) by auto
    then show ?thesis using assms(1) by auto
  qed
  then show ?thesis unfolding exported_records_def by (simp add: filter_id_conv)
qed

lemma export_read:
  assumes "cols \<noteq> []" and "\<forall>c\<in>set cols. no_crlf c"
    and "\<forall>r\<in>set rows. length r = length cols \<and> (\<forall>v\<in>set r. no_crlf (csv_cell v))"
  shows "csv_read (exportCSV cols rows) = Inr (exported_records cols rows)"
  unfolding exportCSV_def exported_records_def
  by (rule csv_read_write [where k = "length cols"]) (use assms in auto)

lemma export_import:
  assumes "cols \<noteq> []" and "\<forall>c\<in>set cols. no_crlf c"
    and "\<forall>r\<in>set rows. length r = length cols \<and> (\<forall>v\<in>set r. no_crlf (csv_cell v))"
    and "fs path = Inr (exportCSV cols rows)"
  shows "importCSV fs net cl db path w =
    (let recs = exported_records cols rows in
     if length recs < 2 then (Inl (Err ''csv must have at least a header row and one data row''), w)
     else send_all net cl db (csv_statements (trim_suffix (path_base path) ''.csv'') (hd recs) (tl recs)) w)"
  using export_read [OF assms(1-3)] assms(4) by (simp add: importCSV_def Let_def)

section \<open>What the type of a column depends on\<close>

definition numeric :: "string \<Rightarrow> bool" where
  "numeric v \<longleftrightarrow> parse_int64 v \<noteq> None \<or> parse_float_ok v"

definition infer_column :: "string list \<Rightarrow> string" where
  "infer_column vals = foldl infer_value ''TEXT'' vals"

text \<open>The values after the last one that is not a number.\<close>

definition last_numbers :: "string list \<Rightarrow> string list" where
  "last_numbers vals = rev (takeWhile numeric (rev (filter (\<lambda>v. v \<noteq> []) (map trim_space vals))))"

lemma last_numbers_snoc:
  "last_numbers (vals @ [v]) =
     (if trim_space v = [] then last_numbers vals
      else if numeric (trim_space v) then last_numbers vals @ [trim_space v] else [])"
  by (simp add: last_numbers_def)

lemma infer_column_eq:
  "infer_column vals =
     (case last_numbers vals of [] \<Rightarrow> ''TEXT''
      | v # _ \<Rightarrow> if parse_int64 v \<noteq> None then ''INTEGER'' else ''REAL'')"
proof (induction vals rule: rev_induct)
  case Nil
  then show ?case by (simp add: infer_column_def last_numbers_def)
next
  case (snoc v vals)
  have "infer_column (vals @ [v]) = infer_value (infer_column vals) v" by (simp add: infer_column_def)
  then show ?case
    using snoc
    by (cases "last_numbers vals") (auto simp: last_numbers_snoc infer_value_def Let_def numeric_def)
qed

lemma infer_row_nth:
  "i < length ts \<Longrightarrow> infer_row ts vs ! i = (if i < length vs then infer_value (ts ! i) (vs ! i) else ts ! i)"
proof (induction ts vs arbitrary: i rule: infer_row.induct)
  case (1 t ts v vs)
  then show ?case by (cases i) auto
qed auto

lemma length_infer_row [simp]: "length (infer_row ts vs) = length ts"
  by (induction ts vs rule: infer_row.induct) auto

lemma infer_rows_nth:
  "i < length ts \<Longrightarrow> foldl infer_row ts data ! i =
     foldl infer_value (ts ! i) (map (\<lambda>r. r ! i) (filter (\<lambda>r. i < length r) data))"
  by (induction data arbitrary: ts) (auto simp: infer_row_nth)

lemma inferTypes_nth:
  "i < length headers \<Longrightarrow> inferTypes headers data ! i =
     infer_column (map (\<lambda>r. r ! i) (filter (\<lambda>r. i < length r) data))"
  by (simp add: inferTypes_def infer_rows_nth infer_column_def)

section \<open>Values as SQL literals\<close>

text \<open>How an SQL lexer reads a string literal: to the first quote that is not doubled.\<close>

fun sql_string_body :: "string \<Rightarrow> (string \<times> string) option" where
  "sql_string_body [] = None"
| "sql_string_body (c # s) =
     (if c \<noteq> squote then map_option (\<lambda>(v, r). (c # v, r)) (sql_string_body s)
      else case s of
        [] \<Rightarrow> Some ([], [])
      | d # r \<Rightarrow> if d = squote then map_option (\<lambda>(v, r). (squote # v, r)) (sql_string_body r)
                else Some ([], s))"

fun sql_string :: "string \<Rightarrow> (string \<times> string) option" where
  "sql_string [] = None"
| "sql_string (c # s) = (if c = squote then sql_string_body s else None)"

lemma sql_string_body_replace:
  assumes "rest = [] \<or> hd rest \<noteq> squote"
  shows "sql_string_body (replace_char squote [squote, squote] v @ squote # rest) = Some (v, rest)"
  using assms
  by (induction v) (auto simp: replace_char_def split: list.split)

text \<open>The characters of a number.\<close>

definition number_char :: "char \<Rightarrow> bool" where
  "number_char c \<longleftrightarrow> is_digit c \<or> lower_byte c \<in> set ''abcdefghijklmnopqrstuvwxyz'' \<or> c \<in> set ''+-._''"

lemma mantissa_parts:
  "mantissa dig dot s = (m, r) \<Longrightarrow> s = m @ r \<and> (\<forall>c\<in>set m. c = CHR ''_'' \<or> c = CHR ''.'' \<or> dig c)"
proof (induction dig dot s arbitrary: m r rule: mantissa.induct)
  case (2 dig dot c s)
  show ?case
  proof (cases "c = CHR ''_'' \<or> dig c")
    case True
    then obtain m' where "mantissa dig dot s = (m', r)" and "m = c # m'"
      using "2.prems" by (auto split: prod.splits)
    then show ?thesis using "2.IH"(1) True by auto
  next
    case False
    show ?thesis
    proof (cases "c = CHR ''.'' \<and> \<not> dot")
      case True
      then obtain m' where "mantissa dig True s = (m', r)" and "m = c # m'"
        using "2.prems" False by (auto split: prod.splits)
      then show ?thesis using "2.IH"(2) False True by auto
    next
      case not_point: False
      then show ?thesis using "2.prems" False by auto
    qed
  qed
qed simp

lemma strip_sign_chars: "c \<in> set s \<Longrightarrow> c \<in> set (strip_sign s) \<or> c = CHR ''+'' \<or> c = CHR ''-''"
  by (cases s) (auto simp: strip_sign_def)

lemma special_chars: "special_float s \<Longrightarrow> c \<in> set s \<Longrightarrow> number_char c"
proof -
  assume s: "special_float s" and c: "c \<in> set s"
  have letters: "number_char x" if "lower_byte x \<in> set ''nanifty''" for x
    using that by (auto simp: number_char_def)
  have in_map: "lower_byte x \<in> set (map lower_byte t)" if "x \<in> set t" for x t using that by simp
  consider "map lower_byte s = ''nan''" | "map lower_byte (strip_sign s) = ''inf''"
    | "map lower_byte (strip_sign s) = ''infinity''"
    using s by (auto simp: special_float_def)
  then show "number_char c"
  proof cases
    case 1
    then show ?thesis using in_map [OF c] letters by auto
  next
    case 2
    then show ?thesis using strip_sign_chars [OF c] in_map [of c "strip_sign s"] letters
      by (auto simp: number_char_def)
  next
    case 3
    then show ?thesis using strip_sign_chars [OF c] in_map [of c "strip_sign s"] letters
      by (auto simp: number_char_def)
  qed
qed

lemma number_chars:
  assumes "parse_float_ok s" and "c \<in> set s"
  shows "number_char c"
proof (cases "special_float s")
  case True
  then show ?thesis using special_chars assms(2) by blast
next
  case False
  define t where "t = strip_sign s"
  define hex where "hex \<longleftrightarrow> 2 < length t \<and> t ! 0 = CHR ''0'' \<and> lower_byte (t ! 1) = CHR ''x''"
  define dig where "dig = (\<lambda>c. is_digit c \<or> hex \<and> is_hex_letter c)"
  obtain m r where mant: "mantissa dig False (if hex then drop 2 t else t) = (m, r)" by fastforce
  define es where "es = strip_sign (drop 1 r)"
  have tail: "r = [] \<or> lower_byte (hd r) = (if hex then CHR ''p'' else CHR ''e'') \<and>
      list_all (\<lambda>c. is_digit c \<or> c = CHR ''_'') es"
    using assms(1) False mant
    by (auto simp: parse_float_ok_def Let_def t_def hex_def dig_def es_def split: if_splits)
  have hexl: "is_hex_letter x \<Longrightarrow> number_char x" for x by (auto simp: number_char_def is_hex_letter_def)
  have dig: "dig x \<Longrightarrow> number_char x" for x using hexl by (auto simp: dig_def number_char_def)
  note parts = mantissa_parts [OF mant]
  have m: "\<forall>x\<in>set m. number_char x" using parts dig by (auto simp: number_char_def)
  have r: "\<forall>x\<in>set r. number_char x"
  proof (cases r)
    case (Cons a q)
    then have a: "number_char a" using tail by (auto simp: number_char_def split: if_splits)
    have "list_all (\<lambda>c. is_digit c \<or> c = CHR ''_'') (strip_sign q)" using tail Cons by (simp add: es_def)
    then have "\<forall>x\<in>set q. number_char x"
      using strip_sign_chars [of _ q] by (fastforce simp: list_all_iff number_char_def)
    then show ?thesis using a Cons by simp
  qed simp
  have "\<forall>x\<in>set t. number_char x"
  proof (cases hex)
    case True
    then obtain a b u where t: "t = a # b # u" and "a = CHR ''0''" and "lower_byte b = CHR ''x''"
      unfolding hex_def by (cases t; cases "tl t") auto
    then have "number_char a" "number_char b" by (auto simp: number_char_def is_digit_def byte_def)
    then show ?thesis using True parts m r t by auto
  next
    case False
    then show ?thesis using parts m r by auto
  qed
  then show ?thesis using strip_sign_chars [OF assms(2)] by (auto simp: t_def number_char_def)
qed

text \<open>
  Every value of a CSV file becomes \<open>NULL\<close>, a bare number, or a string literal that reads back as the
  value, whatever characters it has.
\<close>

lemma escapeValue_cases:
  "escapeValue v t = ''NULL'' \<and> (trim_space v = [] \<or> to_upper (trim_space v) = ''NULL'') \<or>
   escapeValue v t = trim_space v \<and> (t = ''INTEGER'' \<or> t = ''REAL'') \<and> parse_float_ok (trim_space v) \<and>
     (\<forall>c\<in>set (trim_space v). number_char c) \<or>
   (\<forall>rest. rest = [] \<or> hd rest \<noteq> squote \<longrightarrow>
      sql_string (escapeValue v t @ rest) = Some (trim_space v, rest))"
proof -
  have "sql_string ((squote # replace_char squote [squote, squote] (trim_space v) @ [squote]) @ rest) =
      Some (trim_space v, rest)" if "rest = [] \<or> hd rest \<noteq> squote" for rest
    using sql_string_body_replace [OF that] by simp
  then show ?thesis using number_chars unfolding escapeValue_def Let_def by auto
qed

end
