(* ===== verification/TableFormat.thy ===== *)
theory TableFormat
  imports ToolValues
begin

text \<open>
  The table that the shell prints, \<open>internal/format/table.go\<close>. Widths are computed in bytes, while
  \<open>%-*s\<close> pads to a number of runes; the table is aligned nevertheless, since no string has more
  runes than bytes.
\<close>

section \<open>The output\<close>

definition renderSep :: "nat list \<Rightarrow> string" where
  "renderSep ws = CHR ''+'' # concat (map (\<lambda>w. replicate (w + 2) CHR ''-'' @ ''+'') ws)"

definition plural :: "nat \<Rightarrow> string" where
  "plural n = (if n = 1 then [] else ''s'')"

text \<open>\<open>%-*s\<close>, and one cell.\<close>

definition pad_right :: "nat \<Rightarrow> string \<Rightarrow> string" where
  "pad_right w s = s @ replicate (w - rune_count s) CHR '' ''"

definition cell :: "nat \<Rightarrow> string \<Rightarrow> string" where
  "cell w s = CHR '' '' # pad_right w s @ '' |''"

definition table_line :: "nat list \<Rightarrow> string list \<Rightarrow> string" where
  "table_line ws ss = CHR ''|'' # concat (map (\<lambda>(w, s). cell w s) (zip ws ss))"

text \<open>A row with more values than there are columns is an index out of range.\<close>

fun widen :: "nat list \<Rightarrow> string list \<Rightarrow> nat list option" where
  "widen ws [] = Some ws"
| "widen [] (s # ss) = None"
| "widen (w # ws) (s # ss) = map_option (\<lambda>ws'. max w (length s) # ws') (widen ws ss)"

fun widen_all :: "nat list \<Rightarrow> jval list list \<Rightarrow> nat list option" where
  "widen_all ws [] = Some ws"
| "widen_all ws (r # rs) =
     (case widen ws (map sprint r) of None \<Rightarrow> None | Some ws' \<Rightarrow> widen_all ws' rs)"

definition newline :: string where
  "newline = [CHR 0x0A]"

definition table_lines :: "nat list \<Rightarrow> string list \<Rightarrow> jval list list \<Rightarrow> string list" where
  "table_lines ws columns rows =
     [renderSep ws, table_line ws columns, renderSep ws] @
     map (\<lambda>r. table_line ws (map sprint r)) rows @ [renderSep ws]"

definition Table :: "string list \<Rightarrow> jval list list \<Rightarrow> string res" where
  "Table columns rows =
     (if columns = [] then Inr []
      else case widen_all (map length columns) rows of
        None \<Rightarrow> Inl (Panic ''index out of range'')
      | Some ws0 \<Rightarrow>
          let ws = map (\<lambda>w. max w 3) ws0 in
          Inr (concat (map (\<lambda>l. l @ newline) (table_lines ws columns rows)) @
               ''('' @ dec_nat (length rows) @ '' row'' @ plural (length rows) @ '')'' @ newline))"

section \<open>Counting runes\<close>

lemma rune_size_le: "rune_size s \<le> length s"
proof (cases s)
  case (Cons a r)
  then show ?thesis using rune_len_pos [of a] by (auto simp: rune_size_def Let_def)
qed (simp add: rune_size_def)

lemma rune_count_Cons:
  "rune_count (c # s) = 1 + rune_count (drop (rune_size (c # s)) (c # s))"
  by (simp add: rune_count_def runes.simps(2))

lemma rune_count_Nil [simp]: "rune_count [] = 0"
  by (simp add: rune_count_def)

lemma rune_count_le: "rune_count s \<le> length s"
proof (induction s rule: runes.induct)
  case (2 c s)
  have "0 < rune_size (c # s)" by (rule rune_size_pos) simp
  then show ?case using 2 rune_size_le [of "c # s"] by (simp add: rune_count_Cons)
qed simp

text \<open>An ASCII byte begins a rune of its own, and ends whatever stands before it.\<close>

definition ascii :: "char \<Rightarrow> bool" where
  "ascii c \<longleftrightarrow> byte c < 0x80"

lemma rune_size_ascii: "ascii c \<Longrightarrow> rune_size (c # s) = 1"
  by (simp add: rune_size_def rune_len_def ascii_def Let_def)

lemma rune_tail_bytes: "rune_tail a t \<Longrightarrow> c \<in> set t \<Longrightarrow> \<not> ascii c"
  by (cases t) (auto simp: Let_def list_all_iff ascii_def split: if_splits)

lemma rune_size_append:
  assumes "s \<noteq> []" and "ascii c"
  shows "rune_size (s @ c # t) = rune_size s"
proof -
  obtain a r where s: "s = a # r" using assms(1) by (cases s) auto
  define k where "k = rune_len a - 1"
  have size: "rune_size (a # y) = (if length (take k y) = k \<and> rune_tail a (take k y) then rune_len a else 1)" for y
    by (simp add: rune_size_def k_def Let_def)
  show ?thesis
  proof (cases "k \<le> length r")
    case True
    then show ?thesis by (simp add: s size)
  next
    case False
    then have "c \<in> set (take k (r @ c # t))" by (cases "k - length r") simp_all
    then have "\<not> rune_tail a (take k (r @ c # t))" using rune_tail_bytes assms(2) by blast
    then show ?thesis using False by (simp add: s size)
  qed
qed

lemma rune_count_append:
  assumes "ascii c"
  shows "rune_count (s @ c # t) = rune_count s + rune_count (c # t)"
proof (induction s rule: runes.induct)
  case (2 d s)
  have size: "rune_size (d # s @ c # t) = rune_size (d # s)"
    using rune_size_append [of "d # s" c t] assms by simp
  have "drop (rune_size (d # s)) ((d # s) @ c # t) = drop (rune_size (d # s)) (d # s) @ c # t"
    using rune_size_le [of "d # s"] by (subst drop_append) simp
  then show ?case using 2 size by (simp add: rune_count_Cons [of d])
qed simp

lemma rune_count_ascii:
  assumes "list_all ascii s"
  shows "rune_count s = length s"
  using assms by (induction s) (simp_all add: rune_count_Cons rune_size_ascii)

lemma rune_count_append_ascii:
  assumes "list_all ascii t"
  shows "rune_count (s @ t) = rune_count s + length t"
proof (cases t)
  case (Cons c u)
  then show ?thesis using assms rune_count_append [of c s u] rune_count_ascii [of t] by simp
qed simp

section \<open>Alignment\<close>

lemma rune_count_pad: "rune_count s \<le> w \<Longrightarrow> rune_count (pad_right w s) = w"
  by (simp add: pad_right_def rune_count_append_ascii list_all_iff ascii_def byte_def)

lemma rune_count_cell:
  assumes "rune_count s \<le> w" and "list_all ascii (take 1 t)"
  shows "rune_count (cell w s @ t) = w + 3 + rune_count t"
proof -
  have a: "ascii CHR '' ''" "ascii CHR ''|''" by (simp_all add: ascii_def byte_def)
  have bar: "rune_count ('' |'' @ t) = 2 + rune_count t"
    using a by (simp add: rune_count_Cons rune_size_ascii)
  have "rune_count (cell w s @ t) = 1 + rune_count (pad_right w s @ CHR '' '' # CHR ''|'' # t)"
    using a by (simp add: cell_def rune_count_Cons rune_size_ascii)
  also have "\<dots> = 1 + (w + rune_count ('' |'' @ t))"
    using a assms(1) by (simp add: rune_count_append rune_count_pad)
  finally show ?thesis using bar by simp
qed

lemma cells_start: "list_all ascii (take 1 (concat (map (\<lambda>(w, s). cell w s) wss)))"
  by (cases wss) (auto simp: cell_def ascii_def byte_def)

lemma rune_count_cells:
  "\<forall>(w, s) \<in> set wss. rune_count s \<le> w \<Longrightarrow>
     rune_count (concat (map (\<lambda>(w, s). cell w s) wss)) = sum_list (map (\<lambda>(w, s). w + 3) wss)"
proof (induction wss)
  case (Cons x wss)
  then show ?case
    using rune_count_cell [of "snd x" "fst x" "concat (map (\<lambda>(w, s). cell w s) wss)"]
      cells_start [of wss] by (cases x) auto
qed simp

lemma rune_count_line:
  assumes "length ss = length ws" and "list_all2 (\<lambda>w s. rune_count s \<le> w) ws ss"
  shows "rune_count (table_line ws ss) = 1 + sum_list (map (\<lambda>w. w + 3) ws)"
proof -
  have "ascii CHR ''|''" by (simp add: ascii_def byte_def)
  then have "rune_count (table_line ws ss) = 1 + rune_count (concat (map (\<lambda>(w, s). cell w s) (zip ws ss)))"
    by (simp add: table_line_def rune_count_Cons rune_size_ascii)
  also have "\<dots> = 1 + sum_list (map (\<lambda>(w, s). w + 3) (zip ws ss))"
    using assms(2) by (subst rune_count_cells) (auto simp: list_all2_iff)
  also have "map (\<lambda>(w, s). w + 3) (zip ws ss) = map (\<lambda>w. w + 3) (map fst (zip ws ss))"
    by (simp add: case_prod_beta comp_def)
  also have "map fst (zip ws ss) = ws" using assms(1) by simp
  finally show ?thesis .
qed

lemma rune_count_sep: "rune_count (renderSep ws) = 1 + sum_list (map (\<lambda>w. w + 3) ws)"
proof -
  have "list_all ascii (renderSep ws)" by (auto simp: renderSep_def list_all_iff ascii_def byte_def)
  moreover have "length (renderSep ws) = 1 + sum_list (map (\<lambda>w. w + 3) ws)"
    by (induction ws) (simp_all add: renderSep_def)
  ultimately show ?thesis by (simp add: rune_count_ascii)
qed

text \<open>Widening keeps the number of columns and makes room for every value.\<close>

lemma widen_Some_iff: "(\<exists>ws'. widen ws ss = Some ws') \<longleftrightarrow> length ss \<le> length ws"
  by (induction ws ss rule: widen.induct) auto

lemma widen_fits:
  "widen ws ss = Some ws' \<Longrightarrow> list_all2 (\<le>) ws ws' \<and> list_all2 (\<lambda>w s. length s \<le> w) (take (length ss) ws') ss"
proof (induction ws ss arbitrary: ws' rule: widen.induct)
  case (1 ws)
  then show ?case by (simp add: list.rel_refl)
qed auto

lemma fits_mono:
  "\<lbrakk>list_all2 (\<lambda>w s. length s \<le> w) ws ss; list_all2 (\<le>) ws ws'\<rbrakk> \<Longrightarrow>
     list_all2 (\<lambda>w s. length s \<le> w) ws' ss"
  by (induction arbitrary: ws' rule: list_all2_induct)
    (auto simp: list_all2_Cons1 intro: order_trans)

lemma widen_all_fits:
  "widen_all ws rs = Some ws' \<Longrightarrow>
     list_all2 (\<le>) ws ws' \<and>
     (\<forall>r\<in>set rs. list_all2 (\<lambda>w s. length s \<le> w) (take (length r) ws') (map sprint r))"
proof (induction rs arbitrary: ws)
  case Nil
  then show ?case by (simp add: list.rel_refl)
next
  case (Cons r rs)
  obtain ws1 where w: "widen ws (map sprint r) = Some ws1" and rest: "widen_all ws1 rs = Some ws'"
    using Cons.prems by (auto split: option.splits)
  note one = widen_fits [OF w] and IH = Cons.IH [OF rest]
  have le: "list_all2 (\<le>) ws1 ws'" using IH by simp
  have "list_all2 (\<le>) (take (length r) ws1) (take (length r) ws')" using le by (rule list_all2_takeI)
  moreover have "list_all2 (\<lambda>w s. length s \<le> w) (take (length r) ws1) (map sprint r)" using one by simp
  ultimately have "list_all2 (\<lambda>w s. length s \<le> w) (take (length r) ws') (map sprint r)"
    using fits_mono by blast
  moreover have "list_all2 (\<le>) ws ws'"
    using list_all2_trans [of "(\<le>)" "(\<le>)" "(\<le>)" ws ws1 ws'] one le by (simp add: order_trans)
  ultimately show ?case using IH by simp
qed

lemma widen_all_Some_iff:
  "(\<exists>ws'. widen_all ws rs = Some ws') \<longleftrightarrow> (\<forall>r\<in>set rs. length r \<le> length ws)"
proof (induction rs arbitrary: ws)
  case (Cons r rs)
  show ?case
  proof (cases "widen ws (map sprint r)")
    case None
    then show ?thesis using widen_Some_iff [of ws "map sprint r"] by auto
  next
    case (Some ws1)
    then have "length ws1 = length ws" and "length r \<le> length ws"
      using widen_fits [OF Some] widen_Some_iff [of ws "map sprint r"]
      by (auto dest: list_all2_lengthD)
    then show ?thesis using Cons.IH [of ws1] Some by simp
  qed
qed simp

lemma Table_panics_iff:
  "(\<exists>e. Table columns rows = Inl e) \<longleftrightarrow> columns \<noteq> [] \<and> (\<exists>r\<in>set rows. length columns < length r)"
  using widen_all_Some_iff [of "map length columns" rows]
  by (cases "widen_all (map length columns) rows") (auto simp: Table_def Let_def not_le)

lemma Table_aligned:
  assumes "columns \<noteq> []" and "\<forall>r\<in>set rows. length r = length columns"
  obtains ws where "length ws = length columns"
    and "Table columns rows = Inr (concat (map (\<lambda>l. l @ newline) (table_lines ws columns rows)) @
           ''('' @ dec_nat (length rows) @ '' row'' @ plural (length rows) @ '')'' @ newline)"
    and "\<forall>l\<in>set (table_lines ws columns rows). rune_count l = 1 + sum_list (map (\<lambda>w. w + 3) ws)"
proof -
  obtain ws0 where w: "widen_all (map length columns) rows = Some ws0"
    using widen_all_Some_iff [of "map length columns" rows] assms(2) by auto
  define ws where "ws = map (\<lambda>w. max w 3) ws0"
  note fits = widen_all_fits [OF w]
  have len0: "length ws0 = length columns" using fits by (auto dest: list_all2_lengthD)
  then have len: "length ws = length columns" by (simp add: ws_def)
  have enough: "list_all2 (\<lambda>w s. rune_count s \<le> w) ws ss"
    if "length ss = length columns" "\<forall>i<length ss. length (ss ! i) \<le> ws0 ! i" for ss
    unfolding list_all2_conv_all_nth
  proof (intro conjI allI impI)
    fix i
    assume "i < length ws"
    then have "length (ss ! i) \<le> ws0 ! i" using that len by simp
    then have "length (ss ! i) \<le> ws ! i" using \<open>i < length ws\<close> by (simp add: ws_def)
    then show "rune_count (ss ! i) \<le> ws ! i" using rune_count_le [of "ss ! i"] by simp
  qed (use that len in simp)
  have "rune_count (table_line ws columns) = 1 + sum_list (map (\<lambda>w. w + 3) ws)"
    using fits by (intro rune_count_line enough) (simp_all add: len list_all2_conv_all_nth)
  moreover have "rune_count (table_line ws (map sprint r)) = 1 + sum_list (map (\<lambda>w. w + 3) ws)"
    if "r \<in> set rows" for r
  proof -
    have "list_all2 (\<lambda>w s. length s \<le> w) (take (length r) ws0) (map sprint r)" "length r = length columns"
      using fits assms(2) that by auto
    then show ?thesis
      by (intro rune_count_line enough) (simp_all add: len len0 list_all2_conv_all_nth)
  qed
  ultimately have "\<forall>l\<in>set (table_lines ws columns rows). rune_count l = 1 + sum_list (map (\<lambda>w. w + 3) ws)"
    by (auto simp: table_lines_def rune_count_sep)
  then show thesis using that [OF len] assms(1) w by (simp add: Table_def ws_def Let_def)
qed

end
