(* ===== verification/Shell.thy ===== *)
theory Shell
  imports ImportExport TableFormat
begin

text \<open>
  The interactive shell, \<open>cmd/sparkdb/commands/shell.go\<close>: what it prints, the statements it sends, its
  meta-commands, and the loop that collects lines into statements. The input is the list of lines
  that the scanner yields; the output is the text on standard output.
\<close>

section \<open>State\<close>

record 'w shell =
  sh_db :: string
  sh_out :: string
  sh_world :: 'w

definition put :: "string \<Rightarrow> 'w shell \<Rightarrow> 'w shell" where
  "put s sh = sh\<lparr>sh_out := sh_out sh @ s\<rparr>"

definition put_line :: "string \<Rightarrow> 'w shell \<Rightarrow> 'w shell" where
  "put_line s sh = put (s @ newline) sh"

definition shell_Query :: "'w http \<Rightarrow> client \<Rightarrow> string \<Rightarrow> 'w shell \<Rightarrow> api_response res \<times> 'w shell" where
  "shell_Query net cl q sh =
     (case client_Query net cl (sh_db sh) q (sh_world sh) of (r, w) \<Rightarrow> (r, sh\<lparr>sh_world := w\<rparr>))"

section \<open>Queries\<close>

text \<open>Printing a table panics on a row that is too long; the panic ends the program.\<close>

definition executeQuery :: "'w http \<Rightarrow> client \<Rightarrow> string \<Rightarrow> 'w shell \<Rightarrow> unit res \<times> 'w shell" where
  "executeQuery net cl query sh =
     (case shell_Query net cl query sh of
        (Inl e, sh1) \<Rightarrow> (Inr (), put_line (''Error: '' @ err_text e) sh1)
      | (Inr res, sh1) \<Rightarrow>
          if ar_Error res \<noteq> [] then (Inr (), put_line (''Error: '' @ ar_Error res) sh1)
          else if ar_Columns res = []
          then (Inr (), put_line (if ar_Time res \<noteq> [] then ''Query OK ('' @ ar_Time res @ '')'' else ''Query OK'') sh1)
          else case Table (ar_Columns res) (ar_Rows res) of
            Inl e \<Rightarrow> (Inl e, sh1)
          | Inr t \<Rightarrow>
              let sh2 = put t sh1 in
              (Inr (), if ar_Time res \<noteq> [] then put_line (''Time: '' @ ar_Time res) sh2 else sh2))"

section \<open>Meta-commands\<close>

text \<open>\<open>%s\<close> with a width, for the values of an SQL row.\<close>

definition print_s :: "nat \<Rightarrow> jval \<Rightarrow> string" where
  "print_s w v =
     (case v of
        JStr s \<Rightarrow> pad_right w s
      | JNull \<Rightarrow> ''%!s(<nil>)''
      | JBool b \<Rightarrow> ''%!s(bool='' @ pad_right w (sprint v) @ '')''
      | JNum neg ds dp \<Rightarrow> ''%!s(float64='' @ pad_right w (sprint v) @ '')''
      | _ \<Rightarrow> pad_right w (sprint v))"

definition backslash :: "string \<Rightarrow> string" where
  "backslash s = CHR 0x5C # s"

definition help_text :: string where
  "help_text = join newline
     [''Meta-commands:'',
      ''  '' @ backslash ''q          quit'',
      ''  '' @ backslash ''dt         list tables in current db'',
      ''  '' @ backslash ''d <name>   describe table columns'',
      ''  '' @ backslash ''use <db>   switch to a different database'',
      ''  '' @ backslash ''db         show current database'',
      ''  '' @ backslash ''list       list all databases'',
      ''  '' @ backslash ''?          this help'']"

definition tables_query :: string where
  "tables_query = ''SELECT name FROM sqlite_master WHERE type='' @ squote # ''table'' @ squote #
     '' AND name NOT LIKE '' @ squote # ''sqlite_%'' @ squote # '' ORDER BY name''"

text \<open>One column of \<open>PRAGMA table_info\<close>: the flags are compared with the string 1.\<close>

definition describe_row :: "jval list \<Rightarrow> string" where
  "describe_row row =
     (let null = (if row ! 3 = JStr ''1'' then ''NO'' else ''YES'');
          pk = (if row ! 5 = JStr ''1'' then '' PK'' else []);
          def = (if row ! 4 \<noteq> JNull then '' DEFAULT '' @ sprint (row ! 4) else [])
      in ''  '' @ print_s 20 (row ! 1) @ '' '' @ print_s 10 (row ! 2) @ '' '' @ null @ def @ pk)"

definition put_lines :: "string list \<Rightarrow> 'w shell \<Rightarrow> 'w shell" where
  "put_lines ss sh = foldl (\<lambda>sh s. put_line s sh) sh ss"

text \<open>A meta-command ends the program (\<open>None\<close>) or goes on.\<close>

definition handleMeta :: "'w http \<Rightarrow> client \<Rightarrow> string \<Rightarrow> 'w shell \<Rightarrow> bool \<times> 'w shell" where
  "handleMeta net cl line sh =
     (case go_fields line of
        [] \<Rightarrow> (True, sh)
      | cmd # args \<Rightarrow>
          if cmd = backslash ''q'' \<or> cmd = backslash ''quit'' \<or> cmd = ''exit''
          then (False, put_line ''bye'' sh)
          else if cmd = backslash ''?'' then (True, put_line help_text sh)
          else if cmd = backslash ''dt'' then
            (case shell_Query net cl tables_query sh of
               (Inl e, sh1) \<Rightarrow> (True, put_line (''Error: '' @ err_text e) sh1)
             | (Inr res, sh1) \<Rightarrow>
                 (True, put_lines
                    ((''Tables in '' @ squote # sh_db sh1 @ squote # '':'') #
                     map (\<lambda>r. ''  '' @ print_s 0 (hd r)) (filter (\<lambda>r. r \<noteq> []) (ar_Rows res)) @
                     (if ar_Rows res = [] then [''  (none)''] else [])) sh1))
          else if cmd = backslash ''d'' then
            (case args of
               [] \<Rightarrow> (True, put_line (''Usage: '' @ backslash ''d <table_name>'') sh)
             | name # _ \<Rightarrow>
                 case shell_Query net cl (''PRAGMA table_info('' @ quoteIdent name @ '')'') sh of
                   (Inl e, sh1) \<Rightarrow> (True, put_line (''Error: '' @ err_text e) sh1)
                 | (Inr res, sh1) \<Rightarrow>
                     (True, put_lines ((''Columns of '' @ name @ '':'') #
                        map describe_row (filter (\<lambda>r. 6 \<le> length r) (ar_Rows res))) sh1))
          else if cmd = backslash ''use'' then
            (case args of
               [] \<Rightarrow> (True, put_line (''Current database: '' @ sh_db sh) sh)
             | db # _ \<Rightarrow> (True, put_line (''Switched to database '' @ squote # db @ [squote]) (sh\<lparr>sh_db := db\<rparr>)))
          else if cmd = backslash ''db'' then (True, put_line (''Current database: '' @ sh_db sh) sh)
          else if cmd = backslash ''list'' then
            (case client_ListDatabases net cl (sh_world sh) of
               (Inl e, w) \<Rightarrow> (True, put_line (''Error: '' @ err_text e) (sh\<lparr>sh_world := w\<rparr>))
             | (Inr dbs, w) \<Rightarrow>
                 (True, put_lines (''Available databases:'' #
                    map (\<lambda>db. ''  '' @ db @ (if db = sh_db sh then ''  <-- current'' else [])) dbs @
                    (if dbs = [] then [''  (create one with: sparkdb create-db <name>)''] else []))
                    (sh\<lparr>sh_world := w\<rparr>)))
          else (True, put_line (''Unknown meta-command: '' @ cmd @ '' (try '' @ backslash ''?)'') sh))"

section \<open>The loop\<close>

definition prompt :: "bool \<Rightarrow> 'w shell \<Rightarrow> 'w shell" where
  "prompt continuation sh =
     put (if continuation then ''  -> '' else ''sparkdb['' @ sh_db sh @ '']> '') sh"

text \<open>The rest of the lines, the statement collected so far, and whether it goes on.\<close>

fun shell_loop ::
  "'w http \<Rightarrow> client \<Rightarrow> string list \<Rightarrow> string \<Rightarrow> bool \<Rightarrow> 'w shell \<Rightarrow> unit res \<times> 'w shell" where
  "shell_loop net cl [] buf continuation sh0 =
     (let sh = prompt continuation sh0; s = trim_space buf in
      if s \<noteq> [] then executeQuery net cl (trim_suffix s '';'') sh else (Inr (), sh))"
| "shell_loop net cl (line0 # ls) buf continuation sh0 =
     (let sh = prompt continuation sh0; line = trim_space line0 in
      if \<not> continuation \<and> prefix (backslash []) line then
        (case handleMeta net cl line sh of
           (True, sh1) \<Rightarrow> shell_loop net cl ls buf continuation sh1
         | (False, sh1) \<Rightarrow> (Inr (), sh1))
      else
        let buf1 = buf @ line @ '' ''; trimmed = trim_space buf1 in
        if suffix '';'' trimmed \<or> prefix (backslash []) (to_upper trimmed) then
          let q = trim_space (trim_suffix (trim_space buf1) '';'') in
          if q = [] then shell_loop net cl ls [] False sh
          else if prefix (backslash []) q then
            (case handleMeta net cl q sh of
               (True, sh1) \<Rightarrow> shell_loop net cl ls [] False sh1
             | (False, sh1) \<Rightarrow> (Inr (), sh1))
          else
            (case executeQuery net cl q sh of
               (Inl e, sh1) \<Rightarrow> (Inl e, sh1)
             | (Inr _, sh1) \<Rightarrow> shell_loop net cl ls [] False sh1)
        else shell_loop net cl ls buf1 True sh)"

definition runShell ::
  "'w http \<Rightarrow> flags \<Rightarrow> string \<Rightarrow> string list \<Rightarrow> 'w \<Rightarrow> unit res \<times> 'w shell" where
  "runShell net fl oneLine lines w =
     (let start = (\<lambda>w. \<lparr>sh_db = fl_db fl, sh_out = [], sh_world = w\<rparr>) in
      case connect net fl w of
        (Inl e, w1) \<Rightarrow> (Inl e, start w1)
      | (Inr cl, w1) \<Rightarrow>
          if oneLine \<noteq> [] then executeQuery net cl oneLine (start w1)
          else shell_loop net cl lines [] False
            (put_lines
               [''Connected to SparkDB at '' @ fl_host fl @ '':'' @ dec_int (fl_port fl) @ '' (user: '' @
                  fl_user fl @ '', db: '' @ fl_db fl @ '')'',
                ''Type '' @ backslash ''q to quit, '' @ backslash ''? for help'', []]
               (start w1)))"

section \<open>Statements over several lines\<close>

text \<open>What the lines have collected, when it is complete, and the statement it is.\<close>

definition joined :: "string list \<Rightarrow> string" where
  "joined ls = concat (map (\<lambda>l. trim_space l @ '' '') ls)"

definition complete :: "string \<Rightarrow> bool" where
  "complete buf \<longleftrightarrow>
     suffix '';'' (trim_space buf) \<or> prefix (backslash []) (to_upper (trim_space buf))"

definition statement_of :: "string \<Rightarrow> string" where
  "statement_of buf = trim_space (trim_suffix (trim_space buf) '';'')"

text \<open>Lines that make up one statement: complete with the last line and not before.\<close>

definition statement_lines :: "string list \<Rightarrow> bool" where
  "statement_lines ls \<longleftrightarrow>
     ls \<noteq> [] \<and> \<not> prefix (backslash []) (trim_space (hd ls)) \<and> complete (joined ls) \<and>
     \<not> prefix (backslash []) (statement_of (joined ls)) \<and>
     (\<forall>i\<in>set [1..<length ls]. \<not> complete (joined (take i ls)))"

fun prompts :: "bool \<Rightarrow> 'a list \<Rightarrow> 'w shell \<Rightarrow> 'w shell" where
  "prompts continuation [] sh = sh"
| "prompts continuation (l # ls) sh = prompts True ls (prompt continuation sh)"

definition run_statement ::
  "'w http \<Rightarrow> client \<Rightarrow> string list \<Rightarrow> 'w shell \<Rightarrow> unit res \<times> 'w shell" where
  "run_statement net cl ls sh =
     (let q = statement_of (joined ls); sh1 = prompts False ls sh in
      if q = [] then (Inr (), sh1) else executeQuery net cl q sh1)"

fun run_statements ::
  "'w http \<Rightarrow> client \<Rightarrow> string list list \<Rightarrow> 'w shell \<Rightarrow> unit res \<times> 'w shell" where
  "run_statements net cl [] sh = (Inr (), sh)"
| "run_statements net cl (b # bs) sh =
     (case run_statement net cl b sh of
        (Inl e, sh1) \<Rightarrow> (Inl e, sh1)
      | (Inr _, sh1) \<Rightarrow> run_statements net cl bs sh1)"

lemma shell_collects:
  assumes "ls \<noteq> []" and "continuation \<or> \<not> prefix (backslash []) (trim_space (hd ls))"
    and "complete (buf @ joined ls)" and "\<not> prefix (backslash []) (statement_of (buf @ joined ls))"
    and "\<forall>i\<in>{1..<length ls}. \<not> complete (buf @ joined (take i ls))"
  shows "shell_loop net cl (ls @ rest) buf continuation sh =
     (let q = statement_of (buf @ joined ls); sh1 = prompts continuation ls sh in
      if q = [] then shell_loop net cl rest [] False sh1
      else case executeQuery net cl q sh1 of
        (Inl e, sh2) \<Rightarrow> (Inl e, sh2)
      | (Inr _, sh2) \<Rightarrow> shell_loop net cl rest [] False sh2)"
  using assms
proof (induction ls arbitrary: buf continuation sh)
  case (Cons l ls)
  let ?buf = "buf @ trim_space l @ '' ''"
  have first: "\<not> (\<not> continuation \<and> prefix (backslash []) (trim_space l))" using Cons.prems(2) by auto
  have joined: "buf @ joined (l # ls) = ?buf @ joined ls" by (simp add: joined_def)
  show ?case
  proof (cases "ls = []")
    case True
    have "complete ?buf" and "\<not> prefix (backslash []) (statement_of ?buf)"
      using Cons.prems(3,4) True by (simp_all add: joined_def)
    then show ?thesis using first True
      by (cases continuation) (simp_all add: joined_def complete_def statement_of_def Let_def)
  next
    case False
    then have "1 \<in> {1..<length (l # ls)}" by (cases ls) simp_all
    from bspec [OF Cons.prems(5) this] have unfinished: "\<not> complete ?buf" by (simp add: joined_def)
    have later: "\<not> complete (?buf @ joined (take i ls))" if "i \<in> {1..<length ls}" for i
    proof -
      have "Suc i \<in> {1..<length (l # ls)}" using that by simp
      from bspec [OF Cons.prems(5) this] show ?thesis by (simp add: joined_def)
    qed
    have "shell_loop net cl ((l # ls) @ rest) buf continuation sh =
        shell_loop net cl (ls @ rest) ?buf True (prompt continuation sh)"
      using first unfinished by (cases continuation) (simp_all add: complete_def Let_def)
    then show ?thesis
      using Cons.IH [of True ?buf "prompt continuation sh"] False Cons.prems(3,4) later
      unfolding joined by simp
  qed
qed simp

lemma shell_statements:
  assumes "\<forall>b\<in>set bs. statement_lines b"
  shows "shell_loop net cl (concat bs @ rest) [] False sh =
     (case run_statements net cl bs sh of
        (Inl e, sh1) \<Rightarrow> (Inl e, sh1)
      | (Inr _, sh1) \<Rightarrow> shell_loop net cl rest [] False sh1)"
  using assms
proof (induction bs arbitrary: sh)
  case (Cons b bs)
  have "statement_lines b" using Cons.prems by simp
  then have "shell_loop net cl (b @ concat bs @ rest) [] False sh =
      (case run_statement net cl b sh of
        (Inl e, sh1) \<Rightarrow> (Inl e, sh1)
      | (Inr _, sh1) \<Rightarrow> shell_loop net cl (concat bs @ rest) [] False sh1)"
    using shell_collects [of b False "[]" net cl "concat bs @ rest" sh]
    by (auto simp: statement_lines_def run_statement_def Let_def split: prod.splits sum.splits)
  then show ?case using Cons by (auto split: prod.splits sum.splits)
qed simp

text \<open>A server sends the flags of \<open>table_info\<close> as numbers, which are never equal to the string 1.\<close>

lemma describe_row_numbers:
  assumes "row ! 3 = JNum n1 ds1 p1" and "row ! 4 = JNull" and "row ! 5 = JNum n2 ds2 p2"
  shows "describe_row row = ''  '' @ print_s 20 (row ! 1) @ '' '' @ print_s 10 (row ! 2) @ '' YES''"
  using assms by (simp add: describe_row_def)

end
