(* ===== verification/AdminCommands.thy ===== *)
theory AdminCommands
  imports ImportExport SchemaMigration
begin

text \<open>
  The commands that work on the files of a server or send it a single request
  (\<open>admin.go\<close>, \<open>backup.go\<close>, \<open>crypto.go\<close>, \<open>init.go\<close>, \<open>health.go\<close>, \<open>stop.go\<close> under
  \<open>cmd/sparkdb/commands/\<close>) and the certificate files of \<open>internal/encryption/tls.go\<close>. A command
  gives the text it prints, or its error. The surroundings (viper, SQLite, cryptography, the
  network) are the arguments that the components it calls already have.
\<close>

section \<open>What the commands share\<close>

text \<open>The cipher of the configuration; unlike the server, the commands do not wrap its error.\<close>

definition command_cipher :: "string \<Rightarrow> config \<Rightarrow> os \<Rightarrow> cipher option res \<times> os" where
  "command_cipher env cfg s =
     (if cf_enc_enabled cfg
      then (case GetCipher env (cf_enc_key cfg) (cf_enc_key_file cfg) s of
              (Inl e, s1) \<Rightarrow> (Inl e, s1) | (Inr c, s1) \<Rightarrow> (Inr (Some c), s1))
      else (Inr None, s))"

definition print_line :: "string \<Rightarrow> string" where
  "print_line s = s @ [lf]"

definition quoted :: "string \<Rightarrow> string" where
  "quoted s = squote # s @ [squote]"

section \<open>Databases and users\<close>

definition create_db ::
  "db_env \<Rightarrow> viper \<Rightarrow> string \<Rightarrow> string \<Rightarrow> string \<Rightarrow> int \<Rightarrow> string \<Rightarrow> os \<Rightarrow> string res \<times> os" where
  "create_db d v cfgPath env tmp now name s =
     (case Load v cfgPath of
        Inl e \<Rightarrow> (Inl e, s)
      | Inr cfg \<Rightarrow>
          case command_cipher env cfg s of
            (Inl e, s1) \<Rightarrow> (Inl e, s1)
          | (Inr ciph, s1) \<Rightarrow>
              case Open d now name (new_manager ciph cfg tmp) s1 of
                (Inl e, _, s2) \<Rightarrow> (Inl (Wrap ''create database'' e), s2)
              | (Inr _, m, s2) \<Rightarrow>
                  case Close d now name m s2 of
                    (_, _, s3) \<Rightarrow> (Inr (print_line (''database '' @ quoted name @ '' created'')), s3))"

text \<open>The authenticator of this command has no secret and no limits of its own.\<close>

definition create_user ::
  "auth_env \<Rightarrow> viper \<Rightarrow> string \<Rightarrow> string option \<Rightarrow> string option \<Rightarrow> gerr option \<Rightarrow> gerr option \<Rightarrow> int \<Rightarrow>
   string \<Rightarrow> string \<Rightarrow> string \<Rightarrow> system_file \<Rightarrow> string res \<times> system_file" where
  "create_user e v cfgPath rnd_secret rnd opened prepare now username password role f =
     (case Load v cfgPath of
        Inl x \<Rightarrow> (Inl x, f)
      | Inr cfg \<Rightarrow>
          case NewSystemDB opened prepare now f of
            (Inl x, f1) \<Rightarrow> (Inl (Wrap ''open system database'' x), f1)
          | (Inr db, f1) \<Rightarrow>
              case NewAuthenticator e rnd_secret
                     \<lparr>cfg_JWTSecret = [], cfg_SessionTTL = 0, cfg_LoginLimit = 0, cfg_LockoutTime = 0\<rparr> db of
                Inl x \<Rightarrow> (Inl x, f1\<lparr>sf_rows := snd (close_audit db)\<rparr>)
              | Inr a \<Rightarrow>
                  case Auth_CreateUser e rnd now username password role a of
                    (Inl x, a1) \<Rightarrow> (Inl (Wrap ''create user'' x), f1\<lparr>sf_rows := snd (close_audit (a_db a1))\<rparr>)
                  | (Inr u, a1) \<Rightarrow>
                      (Inr (print_line (''user '' @ quoted (User_Username u) @ '' created with role '' @
                         quoted (User_Role u) @ '' (id='' @ dec_int (User_ID u) @ '')'')),
                       f1\<lparr>sf_rows := snd (close_audit (a_db a1))\<rparr>))"

section \<open>Backups\<close>

definition backup_command ::
  "db_env \<Rightarrow> viper \<Rightarrow> string \<Rightarrow> string \<Rightarrow> string \<Rightarrow> int \<Rightarrow> string \<Rightarrow> string list \<Rightarrow> os \<Rightarrow> string res \<times> os" where
  "backup_command d v cfgPath env tmp now timestamp args s =
     (case Load v cfgPath of
        Inl e \<Rightarrow> (Inl e, s)
      | Inr cfg \<Rightarrow>
          case command_cipher env cfg s of
            (Inl e, s1) \<Rightarrow> (Inl e, s1)
          | (Inr ciph, s1) \<Rightarrow>
              case CreateBackup d now timestamp (case args of [] \<Rightarrow> ''main'' | a # _ \<Rightarrow> a)
                     (NewBackupManager (cf_backup_dir cfg) (cf_data_dir cfg) ciph)
                     (new_manager ciph cfg tmp) s1 of
                (Inl e, _, s2) \<Rightarrow> (Inl (Wrap ''backup failed'' e), s2)
              | (Inr info, _, s2) \<Rightarrow>
                  (Inr (print_line (''backup created: '' @ bi_Name info @ '' ('' @ dec_nat (bi_Size info) @
                     '' bytes)'')), s2))"

text \<open>With encryption the manager gets \<open>walMode\<close> false, which \<open>NewEncryptedManager\<close> ignores anyway.\<close>

definition restore_command ::
  "db_env \<Rightarrow> viper \<Rightarrow> string \<Rightarrow> string \<Rightarrow> string \<Rightarrow> int \<Rightarrow> string \<Rightarrow> string \<Rightarrow> os \<Rightarrow> string res \<times> os" where
  "restore_command d v cfgPath env tmp now database file s =
     (case Load v cfgPath of
        Inl e \<Rightarrow> (Inl e, s)
      | Inr cfg \<Rightarrow>
          case command_cipher env cfg s of
            (Inl e, s1) \<Rightarrow> (Inl e, s1)
          | (Inr ciph, s1) \<Rightarrow>
              let dbName = (if database = [] then ''main'' else database) in
              case RestoreBackup d now file dbName
                     (NewBackupManager (cf_backup_dir cfg) (cf_data_dir cfg) ciph)
                     (new_manager ciph cfg tmp) s1 of
                (Inl e, _, s2) \<Rightarrow> (Inl (Wrap ''restore failed'' e), s2)
              | (Inr _, _, s2) \<Rightarrow>
                  (Inr (print_line (''restored '' @ quoted dbName @ '' from '' @ file)), s2))"

text \<open>\<open>%-40s\<close> pads to a width, as in \<open>TableFormat\<close>; how a date is written is an argument.\<close>

definition pad_to :: "nat \<Rightarrow> string \<Rightarrow> string" where
  "pad_to w s = s @ replicate (w - rune_count s) CHR '' ''"

definition backup_line :: "string \<Rightarrow> string \<Rightarrow> string \<Rightarrow> string \<Rightarrow> string" where
  "backup_line name database bytes date =
     print_line (pad_to 40 name @ '' '' @ pad_to 15 database @ '' '' @ pad_to 12 bytes @ '' '' @ date)"

definition list_backups_command :: "(int \<Rightarrow> string) \<Rightarrow> viper \<Rightarrow> string \<Rightarrow> os \<Rightarrow> string res \<times> os" where
  "list_backups_command fmt_date v cfgPath s =
     (case Load v cfgPath of
        Inl e \<Rightarrow> (Inl e, s)
      | Inr cfg \<Rightarrow>
          case ListBackups (NewBackupManager (cf_backup_dir cfg) (cf_data_dir cfg) None) s of
            (Inl e, s1) \<Rightarrow> (Inl (Wrap ''list backups'' e), s1)
          | (Inr bs, s1) \<Rightarrow>
              (Inr (if bs = [] then print_line ''no backups found''
                    else backup_line ''NAME'' ''DATABASE'' ''SIZE'' ''DATE'' @
                      concat (map (\<lambda>b. backup_line (bi_Name b) (bi_Database b) (dec_nat (bi_Size b))
                        (fmt_date (bi_CreatedAt b))) bs)), s1))"

section \<open>Keys and files\<close>

definition gen_key :: "os \<Rightarrow> string res \<times> os" where
  "gen_key s =
     (case GenerateKey s of
        (Inl e, s1) \<Rightarrow> (Inl (Wrap ''generate key'' e), s1)
      | (Inr key, s1) \<Rightarrow>
          (Inr (print_line (''Encryption key: '' @ hex_encode key) @
             print_line ''Store this key securely! Set it as SPARKDB_ENCRYPTION_KEY or in config encryption.key''),
           s1))"

definition command_key :: "string \<Rightarrow> string \<Rightarrow> cipher res" where
  "command_key env key =
     (let keyHex = (if key = [] then env else key) in
      if keyHex = [] then Inl (Err ''encryption key required (--key or SPARKDB_ENCRYPTION_KEY)'')
      else wrap_err ''init cipher'' (NewCipherFromHex keyHex))"

definition encrypt_command :: "gcm \<Rightarrow> string \<Rightarrow> string \<Rightarrow> int \<Rightarrow> string \<Rightarrow> os \<Rightarrow> string res \<times> os" where
  "encrypt_command g env key now file s =
     (case command_key env key of
        Inl e \<Rightarrow> (Inl e, s)
      | Inr c \<Rightarrow>
          case EncryptFile g c now file s of
            (Inl e, s1) \<Rightarrow> (Inl (Wrap ''encrypt'' e), s1)
          | (Inr _, s1) \<Rightarrow> (Inr (print_line (''encrypted: '' @ file)), s1))"

definition decrypt_command :: "gcm \<Rightarrow> string \<Rightarrow> string \<Rightarrow> int \<Rightarrow> string \<Rightarrow> os \<Rightarrow> string res \<times> os" where
  "decrypt_command g env key now file s =
     (case command_key env key of
        Inl e \<Rightarrow> (Inl e, s)
      | Inr c \<Rightarrow>
          case DecryptFile g c now file s of
            (Inl e, s1) \<Rightarrow> (Inl (Wrap ''decrypt'' e), s1)
          | (Inr _, s1) \<Rightarrow> (Inr (print_line (''decrypted: '' @ file)), s1))"

section \<open>Certificates\<close>

text \<open>
  The steps of \<open>crypto/ecdsa\<close> and \<open>crypto/x509\<close>: the private key, the certificate signed with it
  (for the template of the code), and the key's encoding.
\<close>

record cert_env =
  ct_key :: "string res"
  ct_serial :: "string res"
  ct_certificate :: "string \<Rightarrow> string \<Rightarrow> int \<Rightarrow> int \<Rightarrow> string res"
  ct_marshal :: "string \<Rightarrow> string res"
  ct_load :: "string \<Rightarrow> string \<Rightarrow> string res"

text \<open>\<open>pem.Encode\<close>: padded base64 in lines of 64 characters.\<close>

function lines64 :: "string \<Rightarrow> string" where
  "lines64 [] = []"
| "lines64 (c # s) = take 64 (c # s) @ [lf] @ lines64 (drop 64 (c # s))"
  by pat_completeness auto
termination by (relation "measure length") auto

definition pem_encode :: "string \<Rightarrow> string \<Rightarrow> string" where
  "pem_encode ty bytes =
     print_line (''-----BEGIN '' @ ty @ ''-----'') @
     lines64 (b64_encode bytes @ replicate ((3 - length bytes mod 3) mod 3) CHR ''='') @
     print_line (''-----END '' @ ty @ ''-----'')"

definition write_open :: "int \<Rightarrow> nat \<Rightarrow> string \<Rightarrow> os \<Rightarrow> unit res \<times> os" where
  "write_open now i data =
     sys_call (\<lambda>n s. put_main i now (take n data) s) (\<lambda>s. (Inr (), put_main i now data s))"

definition ten_years :: int where
  "ten_years = 10 * 365 * 24 * hour"

definition GenerateSelfSignedCert :: "cert_env \<Rightarrow> int \<Rightarrow> string \<Rightarrow> string \<Rightarrow> os \<Rightarrow> unit res \<times> os" where
  "GenerateSelfSignedCert ce now certPath keyPath s =
     (case ct_key ce of
        Inl e \<Rightarrow> (Inl (Wrap ''generate key'' e), s)
      | Inr priv \<Rightarrow>
          case ct_serial ce of
            Inl e \<Rightarrow> (Inl (Wrap ''generate serial'' e), s)
          | Inr serial \<Rightarrow>
              case ct_certificate ce serial priv now (now + ten_years) of
                Inl e \<Rightarrow> (Inl (Wrap ''create certificate'' e), s)
              | Inr der \<Rightarrow>
                  case os_Create now certPath s of
                    (Inl e, s1) \<Rightarrow> (Inl (Wrap ''create cert file'' e), s1)
                  | (Inr i, s1) \<Rightarrow>
                      case write_open now i (pem_encode ''CERTIFICATE'' der) s1 of
                        (Inl e, s2) \<Rightarrow> (Inl (Wrap ''encode cert'' e), s2)
                      | (Inr _, s2) \<Rightarrow>
                          case os_Create now keyPath s2 of
                            (Inl e, s3) \<Rightarrow> (Inl (Wrap ''create key file'' e), s3)
                          | (Inr j, s3) \<Rightarrow>
                              case ct_marshal ce priv of
                                Inl e \<Rightarrow> (Inl (Wrap ''marshal key'' e), s3)
                              | Inr bytes \<Rightarrow>
                                  case write_open now j (pem_encode ''EC PRIVATE KEY'' bytes) s3 of
                                    (Inl e, s4) \<Rightarrow> (Inl (Wrap ''encode key'' e), s4)
                                  | (Inr _, s4) \<Rightarrow> (Inr (), s4))"

text \<open>A file counts as missing only when \<open>Stat\<close> says so; another error of \<open>Stat\<close> is ignored.\<close>

definition EnsureCertFiles :: "cert_env \<Rightarrow> int \<Rightarrow> string \<Rightarrow> string \<Rightarrow> os \<Rightarrow> unit res \<times> os" where
  "EnsureCertFiles ce now certFile keyFile s =
     (case Stat certFile s of
        (r1, s1) \<Rightarrow>
          if r1 = Inl ErrNotExist then GenerateSelfSignedCert ce now certFile keyFile s1
          else case Stat keyFile s1 of
            (r2, s2) \<Rightarrow>
              if r2 = Inl ErrNotExist then GenerateSelfSignedCert ce now certFile keyFile s2 else (Inr (), s2))"

text \<open>The configuration of the listener: the pair it presents, and the least version, TLS 1.2.\<close>

definition TLSServerConfig :: "cert_env \<Rightarrow> string \<Rightarrow> string \<Rightarrow> (string \<times> nat) res" where
  "TLSServerConfig ce certFile keyFile =
     (case ct_load ce certFile keyFile of
        Inl e \<Rightarrow> Inl (Wrap ''load TLS cert'' e) | Inr cert \<Rightarrow> Inr (cert, 0x0303))"

definition gen_cert :: "cert_env \<Rightarrow> int \<Rightarrow> string \<Rightarrow> string \<Rightarrow> os \<Rightarrow> string res \<times> os" where
  "gen_cert ce now certFile keyFile s =
     (case GenerateSelfSignedCert ce now certFile keyFile s of
        (Inl e, s1) \<Rightarrow> (Inl (Wrap ''generate cert'' e), s1)
      | (Inr _, s1) \<Rightarrow>
          (Inr (print_line (''TLS certificate generated: '' @ certFile @ '', '' @ keyFile)), s1))"

section \<open>A new project\<close>

text \<open>
  The configuration that \<open>init\<close> writes, as viper reads it back over the defaults: the struct has no
  field for the settings that keep their defaults, which are all empty or false.
\<close>

record init_flags =
  in_dir :: string
  in_port :: int
  in_genCert :: bool
  in_genKey :: bool
  in_dataDir :: string
  in_backupDir :: string

definition init_config :: "init_flags \<Rightarrow> string \<Rightarrow> string \<Rightarrow> string \<Rightarrow> config" where
  "init_config fl absDir secret key =
     \<lparr>cf_host = ''0.0.0.0'', cf_port = in_port fl, cf_read_only = False, cf_allowed_origins = [],
      cf_data_dir = (if in_dataDir fl = [] then path_join [absDir, ''data''] else in_dataDir fl),
      cf_wal_mode = True, cf_max_conns = 100, cf_auth_enabled = False,
      cf_jwt_secret = hex_encode secret, cf_tls_enabled = in_genCert fl,
      cf_cert_file = path_join [absDir, ''sparkdb.crt''], cf_key_file = path_join [absDir, ''sparkdb.key''],
      cf_auto_cert = in_genCert fl, cf_enc_enabled = in_genKey fl, cf_enc_key = hex_encode key,
      cf_enc_key_file = [],
      cf_backup_dir = (if in_backupDir fl = [] then path_join [absDir, ''backups''] else in_backupDir fl),
      cf_backup_schedule = [], cf_keep_count = 10, cf_role = ''standalone'', cf_primary_url = [],
      cf_api_key = [], cf_poll_interval = 5\<rparr>"

text \<open>The text of \<open>config.json\<close>: the fields in the order of the struct, empty optional ones left out.\<close>

definition json_pair :: "string \<Rightarrow> string \<Rightarrow> string" where
  "json_pair k v = json_string k @ '': '' @ v"

definition json_section :: "string \<Rightarrow> string list \<Rightarrow> string" where
  "json_section k parts =
     json_pair k (''{'' @ json_break 2 @ join ('','' @ json_break 2) parts @ json_break 1 @ ''}'')"

definition json_bool :: "bool \<Rightarrow> string" where
  "json_bool b = (if b then ''true'' else ''false'')"

definition config_json :: "config \<Rightarrow> string" where
  "config_json cfg =
     ''{'' @ json_break 1 @ join ('','' @ json_break 1)
       [json_section ''server''
          [json_pair ''host'' (json_string (cf_host cfg)), json_pair ''port'' (dec_int (cf_port cfg))],
        json_section ''database''
          [json_pair ''data_dir'' (json_string (cf_data_dir cfg)),
           json_pair ''wal_mode'' (json_bool (cf_wal_mode cfg)),
           json_pair ''max_connections'' (dec_int (cf_max_conns cfg))],
        json_section ''auth'' [json_pair ''jwt_secret'' (json_string (cf_jwt_secret cfg))],
        json_section ''tls''
          [json_pair ''enabled'' (json_bool (cf_tls_enabled cfg)),
           json_pair ''auto_cert'' (json_bool (cf_auto_cert cfg)),
           json_pair ''cert_file'' (json_string (cf_cert_file cfg)),
           json_pair ''key_file'' (json_string (cf_key_file cfg))],
        json_section ''encryption''
          (json_pair ''enabled'' (json_bool (cf_enc_enabled cfg)) #
           (if cf_enc_key cfg = [] then [] else [json_pair ''key'' (json_string (cf_enc_key cfg))])),
        json_section ''backup''
          [json_pair ''dir'' (json_string (cf_backup_dir cfg)),
           json_pair ''schedule'' (json_string (cf_backup_schedule cfg)),
           json_pair ''keep_count'' (dec_int (cf_keep_count cfg))],
        json_section ''replication''
          (json_pair ''role'' (json_string (cf_role cfg)) #
           (if cf_primary_url cfg = [] then []
            else [json_pair ''primary_url'' (json_string (cf_primary_url cfg))]) @
           (if cf_api_key cfg = [] then [] else [json_pair ''api_key'' (json_string (cf_api_key cfg))]) @
           [json_pair ''poll_interval'' (dec_int (cf_poll_interval cfg))])] @
     json_break 0 @ ''}'' @ [lf]"

fun make_dirs :: "string list \<Rightarrow> os \<Rightarrow> unit res \<times> os" where
  "make_dirs [] s = (Inr (), s)"
| "make_dirs (d # ds) s =
     (case MkdirAll d s of
        (Inl e, s1) \<Rightarrow> (Inl (Wrap (''create directory '' @ d) e), s1)
      | (Inr _, s1) \<Rightarrow> make_dirs ds s1)"

text \<open>What it prints is left out; \<open>abs_path\<close> is \<open>filepath.Abs\<close>.\<close>

definition init_project :: "(string \<Rightarrow> string res) \<Rightarrow> int \<Rightarrow> init_flags \<Rightarrow> os \<Rightarrow> unit res \<times> os" where
  "init_project abs_path now fl s =
     (case abs_path (if in_dir fl = [] then ''.'' else in_dir fl) of
        Inl e \<Rightarrow> (Inl (Wrap ''resolve path'' e), s)
      | Inr absDir \<Rightarrow>
          case MkdirAll absDir s of
            (Inl e, s1) \<Rightarrow> (Inl (Wrap ''create directory'' e), s1)
          | (Inr _, s1) \<Rightarrow>
              let cfg0 = init_config fl absDir [] [] in
              case make_dirs [cf_data_dir cfg0, cf_backup_dir cfg0] s1 of
                (Inl e, s2) \<Rightarrow> (Inl e, s2)
              | (Inr _, s2) \<Rightarrow>
                  case rand_read 32 s2 of
                    (Inl e, s3) \<Rightarrow> (Inl (Wrap ''generate jwt secret'' e), s3)
                  | (Inr secret, s3) \<Rightarrow>
                      case (if in_genKey fl then rand_read 32 s3 else (Inr [], s3)) of
                        (Inl e, s4) \<Rightarrow> (Inl (Wrap ''generate encryption key'' e), s4)
                      | (Inr key, s4) \<Rightarrow>
                          case os_Create now (path_join [absDir, ''config.json'']) s4 of
                            (Inl e, s5) \<Rightarrow> (Inl (Wrap ''create config.json'' e), s5)
                          | (Inr i, s5) \<Rightarrow>
                              case write_open now i (config_json (init_config fl absDir secret key)) s5 of
                                (Inl e, s6) \<Rightarrow> (Inl (Wrap ''write config.json'' e), s6)
                              | (Inr _, s6) \<Rightarrow> (Inr (), s6))"

section \<open>Single requests\<close>

definition health_command :: "(string \<Rightarrow> (int \<times> string) res) \<Rightarrow> string \<Rightarrow> string res" where
  "health_command get url =
     (case get url of
        Inl e \<Rightarrow> Inl (Wrap ''health check failed'' e)
      | Inr (status, body) \<Rightarrow>
          if status \<noteq> 200
          then Inl (Err (''health check failed (status '' @ dec_int status @ ''): '' @ body))
          else Inr (print_line body))"

text \<open>
  The login of \<open>stop\<close> is pasted together, not marshalled; \<open>decode\<close> is what a server makes of the
  text. The answers are decoded without looking at the error.
\<close>

definition stop_login :: "string \<Rightarrow> string \<Rightarrow> string" where
  "stop_login user pass =
     (let q = (\<lambda>s. dquote # s @ [dquote]) in
      ''{'' @ q ''username'' @ '':'' @ q user @ '','' @ q ''password'' @ '':'' @ q pass @ ''}'')"

definition decoded_field :: "string \<Rightarrow> jval res \<Rightarrow> string" where
  "decoded_field name j =
     (case and_then (and_then j decode_object) (str_field name) of Inl _ \<Rightarrow> [] | Inr s \<Rightarrow> s)"

definition stop_headers :: "string \<Rightarrow> headers" where
  "stop_headers token =
     (if prefix ''vl_'' token then (\<lambda>_. [])(''X-API-Key'' := token)
      else (\<lambda>_. [])(''Authorization'' := ''Bearer '' @ token))"

definition runStop :: "'w http \<Rightarrow> (string \<Rightarrow> body) \<Rightarrow> flags \<Rightarrow> 'w \<Rightarrow> string res \<times> 'w" where
  "runStop net decode fl w =
     (let baseURL = cl_baseURL (Client_New (fl_host fl) (fl_port fl));
          shutdown = (\<lambda>token w.
            case net baseURL \<lparr>hc_method = ''POST'', hc_path = ''/shutdown'', hc_headers = stop_headers token,
                              hc_body = empty_body\<rparr> w of
              (NoAnswer e, w1) \<Rightarrow> (Inl (Wrap ''shutdown'' e), w1)
            | (Answer status raw j, w1) \<Rightarrow>
                if decoded_field ''error'' j \<noteq> [] then (Inl (Err (decoded_field ''error'' j)), w1)
                else (Inr (print_line (decoded_field ''message'' j)), w1))
      in if fl_apiKey fl \<noteq> [] then shutdown (fl_apiKey fl) w
         else if fl_user fl = [] \<or> fl_pass fl = []
         then (Inl (Err ''credentials required: use --user and --pass, or --api-key''), w)
         else case net baseURL \<lparr>hc_method = ''POST'', hc_path = ''/auth/login'', hc_headers = json_headers,
                                hc_body = decode (stop_login (fl_user fl) (fl_pass fl))\<rparr> w of
           (NoAnswer e, w1) \<Rightarrow> (Inl (Wrap ''login'' e), w1)
         | (Answer status raw j, w1) \<Rightarrow> shutdown (decoded_field ''token'' j) w1)"

section \<open>What the commands guarantee\<close>

text \<open>The configuration of a new project is one that the server loads, whatever the flags.\<close>

lemma init_config_ok:
  assumes "1 \<le> in_port fl" and "in_port fl \<le> 65535" and "in_genKey fl \<longrightarrow> key \<noteq> []"
  shows "check_config (init_config fl absDir secret key) = Inr (init_config fl absDir secret key)"
proof (rule check_config_id)
  have "hex_encode key \<noteq> []" if "key \<noteq> []" using that by (cases key) simp_all
  then show "config_ok (init_config fl absDir secret key)"
    using assms by (simp add: config_ok_def init_config_def repl_roles_def)
qed

text \<open>Certificate files that are both there are never touched.\<close>

lemma EnsureCertFiles_keeps:
  assumes "os_faults s = []" and "find_file certFile s \<noteq> None" and "find_file keyFile s \<noteq> None"
  shows "EnsureCertFiles ce now certFile keyFile s = (Inr (), s)"
proof -
  have "\<exists>r. Stat n s = (Inr r, s)" if "find_file n s \<noteq> None" for n
    using assms(1) that by (cases "is_dir n s"; cases "find_file n s") (simp_all add: Stat_def)
  from this[OF assms(2)] this[OF assms(3)] show ?thesis by (auto simp: EnsureCertFiles_def)
qed

end
