(* ===== verification/ToolProperties.thy ===== *)
theory ToolProperties
  imports Samples ClientServer Shell AdminCommands
begin

text \<open>
  The properties of the tools: the client library against the server, the import and export
  commands and the interactive shell.
\<close>

section \<open>Client and server\<close>

text \<open>A network with the sample server at its other end.\<close>

definition sample_wire :: wire where
  "sample_wire = \<lparr>wi_static = (\<lambda>_. None), wi_call = sample_call, wi_remote = ''10.0.0.1:5000'',
     wi_value = (\<lambda>_. JNull), wi_dur = (\<lambda>_. ''5ns''), wi_raw = (\<lambda>_. []), wi_other = (\<lambda>_. Inr JNull)\<rparr>"

text \<open>Claim C36.
  A session of the client library with this server: after a login that the server grants, any later
  query of the client that the guard lets pass, at any time before the token expires and whatever the
  server has gone through in between (\<open>server_step\<close>), runs once on the named database under the identity
  of the login; the client gets the columns, rows and error text of that run, and one audit entry with
  the user's id and name records the query. Conditions of both calls: the rate limits admit them
  (\<open>admits\<close>), their bodies are at most the limit of 1 MiB, their texts are valid UTF-8 (\<open>clean\<close>); of the
  query: at that moment the statements on the system database succeed and the audit queue is open
  and has room.\<close>

theorem client_session:
  assumes "server_ok (ce_auth (wi_call wi)) sv" and "db_faults (a_db (hd_auth (sv_handler sv))) = []"
    and "jwt_accepts (en_crypto (ce_auth (wi_call wi)))"
    and "Login (ce_auth (wi_call wi)) (ce_now (wi_call wi)) u p (hd_auth (sv_handler sv)) = (Inr lr, a')"
    and "admits wi sv" and "b_size (login_body u p) \<le> max_body" and "clean u" and "clean p"
    and "clean (lr_Token lr)" and "u \<noteq> []" and "p \<noteq> []" and "lr_Token lr \<noteq> []"
  shows "\<exists>cl' sv1. client_Login (server_http wi) u p cl sv = (Inr (), cl', sv1) \<and>
    (\<forall>wi' sv' db q res ex' s'.
       (server_step (ce_auth (wi_call wi)))\<^sup>*\<^sup>* sv1 sv' \<and> ce_auth (wi_call wi') = ce_auth (wi_call wi) \<and>
       ce_now (wi_call wi') < numeric_date (ce_now (wi_call wi) + jm_duration (a_jwt (hd_auth (sv_handler sv)))) \<and>
       admits wi' sv' \<and> b_size (request_body db q) \<le> max_body \<and> clean q \<and> clean db \<and> q \<noteq> [] \<and>
       query_guard [] (Some (lr_User lr)) q = None \<and> \<not> audit_closed (a_db (hd_auth (sv_handler sv'))) \<and>
       db_faults (a_db (hd_auth (sv_handler sv'))) = [] \<and>
       length (audit_ch (a_db (hd_auth (sv_handler sv')))) < audit_cap \<and>
       ExecuteContext (ce_db (wi_call wi')) (ce_now (wi_call wi')) (ce_dur (wi_call wi')) (db_name db) q []
           (hd_executor (sv_handler sv')) (hd_os (sv_handler sv')) = (res, ex', s') \<longrightarrow>
       (\<exists>sv2 x. client_Query (server_http wi') cl' db q sv' =
           (Inr (case res of Inl err \<Rightarrow> error_view (err_text err) | Inr y \<Rightarrow> client_view wi' y), sv2) \<and>
         hd_executor (sv_handler sv2) = ex' \<and> hd_os (sv_handler sv2) = s' \<and>
         audit_ch (a_db (hd_auth (sv_handler sv2))) = audit_ch (a_db (hd_auth (sv_handler sv'))) @ [x] \<and>
         ae_user x = Some (AU_ID (lr_User lr)) \<and> ae_username x = AU_Username (lr_User lr) \<and> ae_query x = q))"
proof -
  note session = client_session_runs [OF assms, where cl = cl]
  show ?thesis
  proof (rule session, intro exI conjI, assumption, intro allI impI, elim conjE)
    fix cl' :: client and sv1 sv' :: server and wi' :: wire and db q res ex' s'
    assume auth: "\<And>now sv'. now < numeric_date (ce_now (wi_call wi) + jm_duration (a_jwt (hd_auth (sv_handler sv)))) \<Longrightarrow>
      (server_step (ce_auth (wi_call wi)))\<^sup>*\<^sup>* sv1 sv' \<Longrightarrow>
      AuthenticateRequest (ce_auth (wi_call wi)) now (client_auth cl' json_headers) (hd_auth (sv_handler sv')) =
        (Inr (lr_User lr), hd_auth (sv_handler sv'))"
    assume "(server_step (ce_auth (wi_call wi)))\<^sup>*\<^sup>* sv1 sv'" and e: "ce_auth (wi_call wi') = ce_auth (wi_call wi)"
      and "ce_now (wi_call wi') < numeric_date (ce_now (wi_call wi) + jm_duration (a_jwt (hd_auth (sv_handler sv))))"
    then have a: "AuthenticateRequest (ce_auth (wi_call wi')) (ce_now (wi_call wi')) (client_auth cl' json_headers)
        (hd_auth (sv_handler sv')) = (Inr (lr_User lr), hd_auth (sv_handler sv'))"
      unfolding e by (intro auth)
    note query = client_Query_runs [OF a]
    assume "admits wi' sv'" "b_size (request_body db q) \<le> max_body" "clean q" "clean db" "q \<noteq> []"
      "query_guard [] (Some (lr_User lr)) q = None" "\<not> audit_closed (a_db (hd_auth (sv_handler sv')))"
      "db_faults (a_db (hd_auth (sv_handler sv'))) = []" "length (audit_ch (a_db (hd_auth (sv_handler sv')))) < audit_cap"
      "ExecuteContext (ce_db (wi_call wi')) (ce_now (wi_call wi')) (ce_dur (wi_call wi')) (db_name db) q []
         (hd_executor (sv_handler sv')) (hd_os (sv_handler sv')) = (res, ex', s')"
    then show "\<exists>sv2 x. client_Query (server_http wi') cl' db q sv' =
           (Inr (case res of Inl err \<Rightarrow> error_view (err_text err) | Inr y \<Rightarrow> client_view wi' y), sv2) \<and>
         hd_executor (sv_handler sv2) = ex' \<and> hd_os (sv_handler sv2) = s' \<and>
         audit_ch (a_db (hd_auth (sv_handler sv2))) = audit_ch (a_db (hd_auth (sv_handler sv'))) @ [x] \<and>
         ae_user x = Some (AU_ID (lr_User lr)) \<and> ae_username x = AU_Username (lr_User lr) \<and> ae_query x = q"
      by (rule query)
  qed
qed

text \<open>The query comes an hour later, with the clock of the second wire.\<close>

theorem client_session_witness:
  "\<exists>cl' sv1 sv2 view. client_Login (server_http sample_wire) ''alice'' ''Passw0rd''
       (Client_New ''localhost'' 9600) sample_server = (Inr (), cl', sv1) \<and>
     client_Query (server_http (sample_wire\<lparr>wi_call := sample_call\<lparr>ce_now := hour\<rparr>\<rparr>)) cl' ''app'' ''INSERT x'' sv1 =
       (Inr view, sv2) \<and> ar_Error view = [] \<and> content ''data/app'' (hd_os (sv_handler sv2)) = Some ''INSERT x''"
proof -
  let ?lr = "\<lparr>lr_Token = ''h.c.s'', lr_TokenType = ''bearer'',
      lr_User = \<lparr>AU_ID = 1, AU_Username = ''alice'', AU_Role = ''developer'', AU_AuthType = AuthTypeJWT\<rparr>,
      lr_PasswordChangeRequired = False\<rparr>"
  let ?later = "sample_wire\<lparr>wi_call := sample_call\<lparr>ce_now := hour\<rparr>\<rparr>" and ?cl = "Client_New ''localhost'' 9600"
  have wire: "wi_call sample_wire = sample_call" "wi_remote sample_wire = ''10.0.0.1:5000''"
    by (simp_all add: sample_wire_def)
  have env: "ce_auth sample_call = sample_env" "ce_now sample_call = 0" "ce_dur sample_call = 5"
    "ce_db sample_call = sample_db_env" by (simp_all add: sample_call_def)
  have h: "hd_auth (sv_handler sample_server) = sample_auth"
    "hd_executor (sv_handler sample_server) = NewExecutor (NewManager ''data'' False 1)"
    "hd_os (sv_handler sample_server) = empty_os" by (simp_all add: sample_server_def)
  have "fst (Login sample_env 0 ''alice'' ''Passw0rd'' sample_auth) = Inr ?lr"
    by (subst Login_Inr_iff) (auto simp: stored_user_def intro!: exI [of _ alice])
  then obtain a' where login: "Login sample_env 0 ''alice'' ''Passw0rd'' sample_auth = (Inr ?lr, a')"
    by (metis prod.collapse)
  have "snd (GetUserByUsername ''alice'' sample_db) = sample_db"
    by (simp add: GetUserByUsername_def query_row_def)
  then have db: "a_db a' = sample_db"
    using Login_db [of sample_env 0 "''alice''" "''Passw0rd''" sample_auth] login by auto
  obtain res ex' s' where run: "ExecuteContext sample_db_env hour 5 (db_name ''app'') ''INSERT x'' []
      (NewExecutor (NewManager ''data'' False 1)) empty_os = (res, ex', s')" by (metis prod_cases3)
  have "(case ExecuteContext sample_db_env hour 5 (db_name ''app'') ''INSERT x'' []
      (NewExecutor (NewManager ''data'' False 1)) empty_os of
      (Inr x, _, s) \<Rightarrow> qr_Error x = [] \<and> content ''data/app'' s = Some ''INSERT x'' | _ \<Rightarrow> False)"
    by code_simp
  then obtain y where y: "res = Inr y" "qr_Error y = []" "content ''data/app'' s' = Some ''INSERT x''"
    using run by (cases res) auto
  have texts: "clean ''alice''" "clean ''Passw0rd''" "clean ''h.c.s''" "clean ''INSERT x''" "clean ''app''"
    by code_simp+
  have fits: "b_size (login_body ''alice'' ''Passw0rd'') \<le> max_body"
    "b_size (request_body ''app'' ''INSERT x'') \<le> max_body" by code_simp+
  have guard: "query_guard [] (Some (lr_User ?lr)) ''INSERT x'' = None" by code_simp
  let ?sv1 = "(counted sample_wire sample_server)\<lparr>sv_handler := (sv_handler sample_server)\<lparr>hd_auth := a'\<rparr>\<rparr>"
  have ad: "admits sample_wire sample_server" "admits ?later ?sv1"
    by (simp_all add: admits_def counted_def sample_server_def RateLimiter_Allow_def NewRateLimiter_def
        rl_entries_def Let_def wire env minute_def second_def)
  have ok: "server_ok (ce_auth (wi_call sample_wire)) sample_server" using sample_server_ok by (simp add: wire env)
  have in1: "client_Login (server_http sample_wire) ''alice'' ''Passw0rd'' ?cl sample_server =
      (Inr (), ?cl\<lparr>cl_token := ''h.c.s''\<rparr>, ?sv1)"
    using client_Login_server [OF ad(1) fits(1) texts(1,2) _ _ _ _ login [folded env wire h(1)], of ?cl] texts(3)
    by (simp add: wire env)
  have healthy: "db_faults (a_db (hd_auth (sv_handler sample_server))) = []"
    and accepts: "jwt_accepts (en_crypto (ce_auth (wi_call sample_wire)))"
    by (simp_all add: h wire env sample_primitives)
  have token: "clean (lr_Token ?lr)" "lr_Token ?lr \<noteq> []" "''alice'' \<noteq> []" "''Passw0rd'' \<noteq> []" using texts(3) by simp_all
  from client_session [OF ok healthy accepts login [folded env wire(1) h(1)] ad(1) fits(1) texts(1,2) token(1,3,4,2), of ?cl]
  show ?thesis
  proof (elim exE conjE, goal_cases)
    case (1 cl' sv1)
    then have sv1: "sv1 = ?sv1" using in1 by simp
    have "\<exists>sv2 x. client_Query (server_http ?later) cl' ''app'' ''INSERT x'' sv1 =
        (Inr (case res of Inl err \<Rightarrow> error_view (err_text err) | Inr y \<Rightarrow> client_view ?later y), sv2) \<and>
      hd_executor (sv_handler sv2) = ex' \<and> hd_os (sv_handler sv2) = s' \<and>
      audit_ch (a_db (hd_auth (sv_handler sv2))) = audit_ch (a_db (hd_auth (sv_handler sv1))) @ [x] \<and>
      ae_user x = Some (AU_ID (lr_User ?lr)) \<and> ae_username x = AU_Username (lr_User ?lr) \<and> ae_query x = ''INSERT x''"
    proof (rule 1(2) [rule_format], intro conjI)
      show "(server_step (ce_auth (wi_call sample_wire)))\<^sup>*\<^sup>* sv1 sv1" by simp
      show "admits ?later sv1" unfolding sv1 by (rule ad(2))
      show "length (audit_ch (a_db (hd_auth (sv_handler sv1)))) < audit_cap"
        by (simp add: sv1 db audit_cap_def)
      show "ExecuteContext (ce_db (wi_call ?later)) (ce_now (wi_call ?later)) (ce_dur (wi_call ?later)) (db_name ''app'')
          ''INSERT x'' [] (hd_executor (sv_handler sv1)) (hd_os (sv_handler sv1)) = (res, ex', s')"
        using run by (simp add: sv1 env h)
      show "ce_now (wi_call ?later) < numeric_date (ce_now (wi_call sample_wire) +
          jm_duration (a_jwt (hd_auth (sv_handler sample_server))))"
        by (simp add: wire env h sample_primitives numeric_date_def hour_def minute_def second_def)
    qed (use guard fits(2) texts(4,5) in \<open>simp_all add: sv1 db wire env\<close>)
    then obtain sv2 where "client_Query (server_http ?later) cl' ''app'' ''INSERT x'' sv1 = (Inr (client_view ?later y), sv2)"
      "hd_os (sv_handler sv2) = s'" using y(1) by auto
    moreover have "ar_Error (client_view ?later y) = []" using y(2) by (simp add: client_view_def)
    ultimately show ?case using 1(1) y(3) by blast
  qed
qed

section \<open>Import and export\<close>

text \<open>Claim C37.
  What an import reads back from the CSV file of an export, for cells with any commas, quotes and line
  feeds (carriage returns before line feeds are outside): the header and every row with the very same
  cells, when the table has two columns or more. The rows of a table with one column come back
  without those whose cell is NULL or empty, for these are written as blank lines, which the reader
  skips. The import then sends one CREATE TABLE and the INSERT batches for what it read, each row in
  exactly one batch, in order, at most 100 rows in each; it refuses a file without a data row.\<close>

theorem exported_table_imports:
  assumes "cols \<noteq> []" and "\<forall>c\<in>set cols. no_crlf c"
    and "\<forall>r\<in>set rows. length r = length cols \<and> (\<forall>v\<in>set r. no_crlf (csv_cell v))"
    and "fs path = Inr (exportCSV cols rows)"
    and "recs = filter (\<lambda>r. r \<noteq> [[]]) (cols # map (map csv_cell) rows)"
  shows "(length cols \<noteq> 1 \<longrightarrow> recs = cols # map (map csv_cell) rows) \<and>
    importCSV fs net cl db path w =
      (if length recs < 2 then (Inl (Err ''csv must have at least a header row and one data row''), w)
       else send_all net cl db (csv_statements (trim_suffix (path_base path) ''.csv'') (hd recs) (tl recs)) w) \<and>
    concat (batches (tl recs)) = tl recs \<and> (\<forall>b\<in>set (batches (tl recs)). b \<noteq> [] \<and> length b \<le> 100)"
proof -
  have recs: "recs = exported_records cols rows" by (simp only: assms(5) exported_records_def)
  show ?thesis
    using export_import [OF assms(1-3), where fs = fs and path = path and net = net and cl = cl and db = db and w = w]
      assms(3,4) exported_records_wide [of cols rows]
    unfolding recs by (simp add: Let_def batches_bounded concat_batches)
qed

text \<open>A network that keeps the statements it is sent and answers nothing.\<close>

definition recording :: "string list http" where
  "recording base call w = (NoAnswer (Err ''down''), w @ [b_str (hc_body call) ''query''])"

theorem exported_table_imports_witness:
  "importCSV (\<lambda>_. Inr (exportCSV [''name'', ''note''] [[JStr ''a,b'', JNull], [JStr [dquote, lf], JBool True]]))
     recording (Client_New ''localhost'' 9600) ''main'' ''dir/t.csv'' [] =
   send_all recording (Client_New ''localhost'' 9600) ''main''
     (csv_statements ''t'' [''name'', ''note''] [[''a,b'', []], [[dquote, lf], ''true'']]) [] \<and>
   importCSV (\<lambda>_. Inr (exportCSV [''name''] [[JStr ''x''], [JNull], [JStr ''y'']]))
     recording (Client_New ''localhost'' 9600) ''main'' ''dir/t.csv'' [] =
   send_all recording (Client_New ''localhost'' 9600) ''main'' (csv_statements ''t'' [''name''] [[''x''], [''y'']]) []"
proof -
  let ?rows = "[[JStr ''a,b'', JNull], [JStr [dquote, lf], JBool True]]" and ?one = "[[JStr ''x''], [JNull], [JStr ''y'']]"
  let ?cl = "Client_New ''localhost'' 9600"
  have cells: "map (map csv_cell) ?rows = [[''a,b'', []], [[dquote, lf], ''true'']]"
    "map (map csv_cell) ?one = [[''x''], [[]], [''y'']]"
    and crlf: "no_crlf ''a,b'' \<and> no_crlf [] \<and> no_crlf [dquote, lf] \<and> no_crlf ''true'' \<and>
      no_crlf ''name'' \<and> no_crlf ''note'' \<and> no_crlf ''x'' \<and> no_crlf ''y''"
    and name: "trim_suffix (path_base ''dir/t.csv'') ''.csv'' = ''t''"
    by code_simp+
  have claim: "importCSV (\<lambda>_. Inr (exportCSV cols rows)) recording ?cl ''main'' ''dir/t.csv'' [] =
      (if length recs < 2 then (Inl (Err ''csv must have at least a header row and one data row''), [])
       else send_all recording ?cl ''main'' (csv_statements ''t'' (hd recs) (tl recs)) [])"
    if "cols \<noteq> []" "\<forall>c\<in>set cols. no_crlf c" "recs = filter (\<lambda>r. r \<noteq> [[]]) (cols # map (map csv_cell) rows)"
      "\<forall>r\<in>set rows. length r = length cols \<and> (\<forall>v\<in>set r. no_crlf (csv_cell v))" for cols rows recs
    using exported_table_imports [OF that(1,2,4) _ that(3), of "\<lambda>_. Inr (exportCSV cols rows)" "''dir/t.csv''"
        recording ?cl "''main''" "[]"] name by simp
  show ?thesis
    using claim [OF _ _ refl, of "[''name'', ''note'']" ?rows] claim [OF _ _ refl, of "[''name'']" ?one] cells crlf
    by simp
qed

text \<open>Claim C38.
  No value of a CSV file can end its literal early: it is sent as NULL exactly when it is blank or
  spells NULL, as a bare number only in a numeric column and only if it has no character but digits,
  letters, signs, points and underscores, and otherwise as a string literal that an SQL lexer reads
  back as the trimmed value with whatever follows left over.\<close>

theorem csv_value_is_one_literal:
  "(trim_space v = [] \<or> to_upper (trim_space v) = ''NULL'' \<longrightarrow> escapeValue v t = ''NULL'') \<and>
   (trim_space v \<noteq> [] \<and> to_upper (trim_space v) \<noteq> ''NULL'' \<longrightarrow>
      (if (t = ''INTEGER'' \<or> t = ''REAL'') \<and> parse_float_ok (trim_space v)
       then escapeValue v t = trim_space v \<and> (\<forall>c\<in>set (trim_space v). number_char c)
       else \<forall>rest. rest = [] \<or> hd rest \<noteq> squote \<longrightarrow>
         sql_string (escapeValue v t @ rest) = Some (trim_space v, rest)))"
  using number_chars sql_string_body_replace [of _ "trim_space v"]
  by (auto simp: escapeValue_def Let_def)

theorem csv_value_is_one_literal_witness:
  "sql_string (escapeValue (''O'' @ squote # ''Brien '') ''INTEGER'' @ '',2)'') = Some (''O'' @ squote # ''Brien'', '',2)'')"
proof -
  let ?v = "''O'' @ squote # ''Brien ''"
  have "trim_space ?v = ''O'' @ squote # ''Brien''" "to_upper (trim_space ?v) \<noteq> ''NULL''"
    "\<not> parse_float_ok (trim_space ?v)" "hd '',2)'' \<noteq> squote"
    by code_simp+
  then show ?thesis using csv_value_is_one_literal [of ?v "''INTEGER''"] by simp
qed

text \<open>Claim C39.
  The type that the import gives a column, whatever the rows: only the values after the last one that
  is not a number count, blank ones aside; the column is TEXT when there are none, INTEGER when
  the first of them parses as a 64-bit integer, and REAL otherwise. So a column with text in
  it still becomes numeric when numbers follow the text.\<close>

theorem column_type_result:
  assumes "i < length headers"
  shows "inferTypes headers data ! i =
     (case last_numbers (map (\<lambda>r. r ! i) (filter (\<lambda>r. i < length r) data)) of
        [] \<Rightarrow> ''TEXT''
      | v # _ \<Rightarrow> if parse_int64 v \<noteq> None then ''INTEGER'' else ''REAL'')"
  using inferTypes_nth [OF assms] by (simp only: infer_column_eq)

theorem column_type_result_witness:
  "inferTypes [''code''] [[''17''], [''n/a''], ['' 4 ''], [''2.5'']] ! 0 = ''INTEGER'' \<and>
   inferTypes [''code''] [[''17''], [''n/a'']] ! 0 = ''TEXT''"
proof -
  have "last_numbers [''17'', ''n/a'', '' 4 '', ''2.5''] = [''4'', ''2.5'']" "last_numbers [''17'', ''n/a''] = []"
    "parse_int64 ''4'' \<noteq> None" by code_simp+
  then show ?thesis
    using column_type_result [of 0 "[''code'']" "[[''17''], [''n/a''], ['' 4 ''], [''2.5'']]"]
      column_type_result [of 0 "[''code'']" "[[''17''], [''n/a'']]"] by simp
qed

section \<open>The shell\<close>

text \<open>Claim C40.
  The interactive shell runs what is typed statement by statement: lines that make up statements,
  each complete with the last of its lines, have exactly the effect of executing the joined
  statements one after the other; a panic while a result is printed ends it, and what follows the
  statements is read with an empty buffer.\<close>

theorem shell_runs_statements:
  assumes "\<forall>b\<in>set bs. statement_lines b"
  shows "shell_loop net cl (concat bs @ rest) [] False sh =
     (case run_statements net cl bs sh of
        (Inl e, sh1) \<Rightarrow> (Inl e, sh1)
      | (Inr _, sh1) \<Rightarrow> shell_loop net cl rest [] False sh1)"
  using assms by (rule shell_statements)

theorem shell_runs_statements_witness:
  "sh_world (snd (shell_loop recording (Client_New ''localhost'' 9600)
      [''SELECT a'', '' FROM t;'', ''DELETE FROM u;''] [] False \<lparr>sh_db = ''main'', sh_out = [], sh_world = []\<rparr>)) =
   [''SELECT a FROM t'', ''DELETE FROM u'']"
proof -
  let ?bs = "[[''SELECT a'', '' FROM t;''], [''DELETE FROM u;'']]"
  let ?sh = "\<lparr>sh_db = ''main'', sh_out = [], sh_world = []\<rparr>"
  have ends: "complete (joined [''SELECT a'', '' FROM t;''])" "\<not> complete (joined [''SELECT a''])"
    "complete (joined [''DELETE FROM u;''])" "\<not> prefix (backslash []) (trim_space ''SELECT a'')"
    "\<not> prefix (backslash []) (trim_space ''DELETE FROM u;'')"
    and stmts: "statement_of (joined [''SELECT a'', '' FROM t;'']) = ''SELECT a FROM t''"
    "statement_of (joined [''DELETE FROM u;'']) = ''DELETE FROM u''"
    "\<not> prefix (backslash []) ''SELECT a FROM t''" "\<not> prefix (backslash []) ''DELETE FROM u''"
    by code_simp+
  then have "list_all statement_lines ?bs" by (simp add: statement_lines_def)
  then have "shell_loop recording (Client_New ''localhost'' 9600) (concat ?bs @ []) [] False ?sh =
     (case run_statements recording (Client_New ''localhost'' 9600) ?bs ?sh of
        (Inl e, sh1) \<Rightarrow> (Inl e, sh1)
      | (Inr _, sh1) \<Rightarrow> shell_loop recording (Client_New ''localhost'' 9600) [] [] False sh1)"
    by (intro shell_runs_statements) (simp add: list_all_iff)
  moreover have "json_clean ''SELECT a FROM t'' = ''SELECT a FROM t''" "json_clean ''DELETE FROM u'' = ''DELETE FROM u''"
    "trim_space [] = []" by code_simp+
  ultimately show ?thesis
    by (simp add: stmts run_statement_def executeQuery_def shell_Query_def client_Query_def recording_def
        query_call_def request_body_def put_line_def put_def prompt_def Let_def)
qed

end
