(* ===== verification/ServerLife.thy ===== *)
theory ServerLife
  imports HandlerFrame
begin

text \<open>
  The life of the server process, \<open>Start\<close> and \<open>Shutdown\<close> of \<open>internal/server/server.go\<close> with the
  goroutines around them: the listener, the requests, the backup schedule, the replica loop, the audit
  worker, the goroutine that every accepted \<open>POST /shutdown\<close> starts, and \<open>main\<close> waiting for a signal or
  for the listener. They run concurrently, so a run is a sequence of their steps in any order. Requests
  are accepted, run operation by operation, any number at a time, and are answered; a shutdown waits for
  those still running, and goes on without them when its ten seconds have passed.
\<close>

section \<open>The process\<close>

text \<open>
  The statements of the two shutdown sequences. \<open>httpServer.Shutdown\<close> closes the listener, then waits
  for the requests; \<open>systemDB.Close\<close> closes the channel and waits for the worker.
\<close>

datatype stage =
  StopSched | StopRepl | CloseListener | AwaitRequests | CloseDatabases | CloseAudit | AwaitAudit

definition Shutdown :: "stage list" where
  "Shutdown = [StopSched, StopRepl, CloseListener, AwaitRequests, CloseDatabases, CloseAudit, AwaitAudit]"

definition shutdown_goroutine :: "stage list" where
  "shutdown_goroutine = [CloseListener, AwaitRequests, CloseDatabases, CloseAudit, AwaitAudit]"

text \<open>Where \<open>main\<close> is: in the select of \<open>Start\<close>, or in \<open>Shutdown\<close> with the stages left.\<close>

datatype main_at = Waiting | Stopping "stage list"

text \<open>
  \<open>ps_running\<close> counts the requests being served; \<open>ps_expired\<close> records that a wait for them has ended
  with its context's deadline.
\<close>

record process =
  ps_server :: server
  ps_main :: main_at
  ps_api :: "stage list list"
  ps_listening :: bool
  ps_running :: nat
  ps_expired :: bool
  ps_errCh :: "gerr option"
  ps_stopSched :: bool
  ps_stopCh :: bool
  ps_backups :: bool
  ps_polling :: bool
  ps_lastID :: int
  ps_exit :: "unit res option"

definition ErrServerClosed :: gerr where
  "ErrServerClosed = Err ''http: Server closed''"

definition process_db :: "process \<Rightarrow> sysdb" where
  "process_db p = a_db (hd_auth (sv_handler (ps_server p)))"

definition open_dbs :: "process \<Rightarrow> (string \<times> handle) list" where
  "open_dbs p = m_dbs (ex_manager (hd_executor (sv_handler (ps_server p))))"

definition on_server :: "(handler \<Rightarrow> handler) \<Rightarrow> process \<Rightarrow> process" where
  "on_server f p = p\<lparr>ps_server := (ps_server p)\<lparr>sv_handler := f (sv_handler (ps_server p))\<rparr>\<rparr>"

text \<open>
  \<open>Start\<close>: the backup loop runs when there is a schedule that parses (\<open>schedule\<close> is the outcome of
  \<open>time.ParseDuration\<close>), the replica loop when the role asks for it and the state loads.
\<close>

definition Start :: "config \<Rightarrow> int res \<Rightarrow> repl_engine \<Rightarrow> server \<Rightarrow> process" where
  "Start cfg schedule eng sv =
     (let (st, db) = GetReplicationState (a_db (hd_auth (sv_handler sv)));
          p = \<lparr>ps_server = sv, ps_main = Waiting, ps_api = [], ps_listening = True, ps_running = 0,
               ps_expired = False, ps_errCh = None, ps_stopSched = False, ps_stopCh = False,
               ps_backups = (cf_backup_schedule cfg \<noteq> [] \<and> \<not> isl schedule), ps_polling = False,
               ps_lastID = 0, ps_exit = None\<rparr>
      in if starts_loop eng
         then (on_server (\<lambda>h. h\<lparr>hd_auth := (hd_auth h)\<lparr>a_db := db\<rparr>\<rparr>) p)
                \<lparr>ps_polling := \<not> isl st, ps_lastID := (case st of Inl _ \<Rightarrow> 0 | Inr x \<Rightarrow> rs_last_applied x)\<rparr>
         else p)"

text \<open>
  One stage: \<open>None\<close> while it waits, otherwise its panic, if any, and the process after it. \<open>late\<close> says
  that the ten seconds of the stage's context have passed. The errors of \<open>httpServer.Shutdown\<close>,
  \<open>CloseAll\<close> and \<open>Close\<close> are not looked at.
\<close>

definition run_stage :: "call_env \<Rightarrow> bool \<Rightarrow> stage \<Rightarrow> process \<Rightarrow> (unit res \<times> process) option" where
  "run_stage c late st p =
     (case st of
        StopSched \<Rightarrow>
          Some (if ps_stopSched p then (Inl (Panic ''close of closed channel''), p)
                else (Inr (), p\<lparr>ps_stopSched := True\<rparr>))
      | StopRepl \<Rightarrow>
          Some (if ps_stopCh p then (Inl (Panic ''close of closed channel''), p)
                else (Inr (), p\<lparr>ps_stopCh := True\<rparr>))
      | CloseListener \<Rightarrow> Some (Inr (), p\<lparr>ps_listening := False\<rparr>)
      | AwaitRequests \<Rightarrow>
          if ps_running p = 0 then Some (Inr (), p)
          else if late then Some (Inr (), p\<lparr>ps_expired := True\<rparr>)
          else None
      | CloseDatabases \<Rightarrow>
          Some (Inr (), on_server (\<lambda>h. snd (with_dbs (CloseAll (ce_db c) (ce_now c)) h)) p)
      | CloseAudit \<Rightarrow>
          (case with_sysdb close_audit (sv_handler (ps_server p)) of
             (r, h) \<Rightarrow> Some (r, on_server (\<lambda>_. h) p))
      | AwaitAudit \<Rightarrow> if audit_done (process_db p) then Some (Inr (), p) else None)"

text \<open>A panic in any goroutine ends the process.\<close>

definition after_stage :: "unit res \<times> process \<Rightarrow> (process \<Rightarrow> process) \<Rightarrow> process" where
  "after_stage x go = (case x of (Inl e, p) \<Rightarrow> p\<lparr>ps_exit := Some (Inl e)\<rparr> | (Inr _, p) \<Rightarrow> go p)"

definition poll_step :: "run_env \<Rightarrow> repl_engine \<Rightarrow> network list \<Rightarrow> process \<Rightarrow> process" where
  "poll_step rn eng nets p =
     (on_server (after_poll rn eng nets (ps_lastID p)) p)
       \<lparr>ps_lastID := re_lastID (pollOnce rn eng nets (replica_of (sv_handler (ps_server p)) (ps_lastID p)))\<rparr>"

definition audit_step_of :: "sysdb \<Rightarrow> process \<Rightarrow> process" where
  "audit_step_of db = on_server (\<lambda>h. h\<lparr>hd_auth := (hd_auth h)\<lparr>a_db := db\<rparr>\<rparr>)"

definition backup_step :: "db_env \<Rightarrow> int \<Rightarrow> string \<Rightarrow> int \<Rightarrow> process \<Rightarrow> process" where
  "backup_step d now ts keep = on_server (\<lambda>h. snd (with_dbs (\<lambda>m s.
      case backup_tick d now ts keep (hd_backup h) m s of (m', s') \<Rightarrow> ((), m', s')) h))"

text \<open>A request that a shutdown was granted to starts its goroutine.\<close>

definition serve_request ::
  "(string \<Rightarrow> string option) \<Rightarrow> call_env \<Rightarrow> request \<Rightarrow> body \<Rightarrow> process \<Rightarrow> process" where
  "serve_request static c rq b p =
     (let sv = snd (pipeline static c rq b ((ps_server p)\<lparr>sv_stopping := False\<rparr>))
      in p\<lparr>ps_server := sv,
           ps_api := (if sv_stopping sv then ps_api p @ [shutdown_goroutine] else ps_api p)\<rparr>)"

text \<open>
  A request that arrives on an open connection counts as accepted before the listener was closed.
  \<open>request\<close> is a request that nobody interrupts; in general a running request takes effect by
  operations of its own (\<open>operation\<close>, \<open>counted\<close> for the rate limits, \<open>granted\<close> for the goroutine of a
  shutdown), which those of others come between, and it ends in \<open>respond\<close>. As in \<open>server_step\<close>, tokens
  name users that were created, and nobody names the file of the system database.
\<close>

inductive process_step :: "auth_env \<Rightarrow> process \<Rightarrow> process \<Rightarrow> bool" for e where
  accept: "\<lbrakk>ps_exit p = None; ps_listening p\<rbrakk> \<Longrightarrow>
    process_step e p (p\<lparr>ps_running := Suc (ps_running p)\<rparr>)"
| request: "\<lbrakk>ps_exit p = None; ps_running p = Suc n; ce_auth c = e; tokens_known c (ps_server p);
     incoming rq; spares_body (data_dir (ps_server p)) b\<rbrakk> \<Longrightarrow>
    process_step e p ((serve_request static c rq b p)\<lparr>ps_running := n\<rparr>)"
| operation: "\<lbrakk>ps_exit p = None; 0 < ps_running p; handler_op (sv_handler (ps_server p)) h\<rbrakk> \<Longrightarrow>
    process_step e p (on_server (\<lambda>_. h) p)"
| counted: "\<lbrakk>ps_exit p = None; 0 < ps_running p\<rbrakk> \<Longrightarrow>
    process_step e p (p\<lparr>ps_server := (ps_server p)\<lparr>sv_ipLimiter := l, sv_userLimiter := l'\<rparr>\<rparr>)"
| granted: "\<lbrakk>ps_exit p = None; 0 < ps_running p\<rbrakk> \<Longrightarrow>
    process_step e p (p\<lparr>ps_api := ps_api p @ [shutdown_goroutine]\<rparr>)"
| respond: "\<lbrakk>ps_exit p = None; ps_running p = Suc n\<rbrakk> \<Longrightarrow> process_step e p (p\<lparr>ps_running := n\<rparr>)"
| audit: "\<lbrakk>ps_exit p = None; audit_work now (process_db p) = Some db\<rbrakk> \<Longrightarrow>
    process_step e p (audit_step_of db p)"
| backup: "\<lbrakk>ps_exit p = None; ps_backups p\<rbrakk> \<Longrightarrow> process_step e p (backup_step d now ts keep p)"
| backups_end: "\<lbrakk>ps_exit p = None; ps_backups p; ps_stopSched p\<rbrakk> \<Longrightarrow>
    process_step e p (p\<lparr>ps_backups := False\<rparr>)"
| poll: "\<lbrakk>ps_exit p = None; ps_polling p; list_all (spares_net (data_dir (ps_server p))) nets\<rbrakk> \<Longrightarrow>
    process_step e p (poll_step rn eng nets p)"
| polling_ends: "\<lbrakk>ps_exit p = None; ps_polling p; ps_stopCh p\<rbrakk> \<Longrightarrow>
    process_step e p (p\<lparr>ps_polling := False\<rparr>)"
| goroutine: "\<lbrakk>ps_exit p = None; ps_api p = xs @ (st # sts) # ys; run_stage c late st p = Some x\<rbrakk> \<Longrightarrow>
    process_step e p (after_stage x (\<lambda>p'. p'\<lparr>ps_api := xs @ sts # ys\<rparr>))"
| listen_fails: "\<lbrakk>ps_exit p = None; ps_listening p; ps_errCh p = None; err \<noteq> ErrServerClosed\<rbrakk> \<Longrightarrow>
    process_step e p (p\<lparr>ps_listening := False, ps_errCh := Some err\<rparr>)"
| listen_closed: "\<lbrakk>ps_exit p = None; \<not> ps_listening p; ps_errCh p = None\<rbrakk> \<Longrightarrow>
    process_step e p (p\<lparr>ps_errCh := Some ErrServerClosed\<rparr>)"
| signal: "\<lbrakk>ps_exit p = None; ps_main p = Waiting\<rbrakk> \<Longrightarrow>
    process_step e p (p\<lparr>ps_main := Stopping Shutdown\<rparr>)"
| main_stage: "\<lbrakk>ps_exit p = None; ps_main p = Stopping (st # sts); run_stage c late st p = Some x\<rbrakk> \<Longrightarrow>
    process_step e p (after_stage x (\<lambda>p'. p'\<lparr>ps_main := Stopping sts\<rparr>))"
| main_stopped: "\<lbrakk>ps_exit p = None; ps_main p = Stopping []\<rbrakk> \<Longrightarrow>
    process_step e p (p\<lparr>ps_exit := Some (Inr ())\<rparr>)"
| main_served: "\<lbrakk>ps_exit p = None; ps_main p = Waiting; ps_errCh p = Some err\<rbrakk> \<Longrightarrow>
    process_step e p (p\<lparr>ps_exit := Some (if err \<noteq> ErrServerClosed then Inl (Wrap ''server error'' err)
                                      else Inr ())\<rparr>)"

abbreviation process_steps :: "auth_env \<Rightarrow> process \<Rightarrow> process \<Rightarrow> bool" where
  "process_steps e \<equiv> (process_step e)\<^sup>*\<^sup>*"

section \<open>Effects of the steps\<close>

lemma CloseAll_empties: "m_dbs (fst (snd (CloseAll d now m s))) = []"
proof -
  have gone: "m_dbs (fst (snd (close_loop d now hs le m s))) = filter (\<lambda>x. fst x \<notin> fst ` set hs) (m_dbs m)"
    for hs le m s
  proof (induction hs arbitrary: le m s)
    case (Cons x hs)
    then show ?case
      by (cases x) (auto simp: Let_def case_prod_beta drop_db_def intro: filter_cong)
  qed simp
  have "filter (\<lambda>x. fst x \<notin> fst ` set (m_dbs m)) (m_dbs m) = []" by (auto simp: filter_empty_conv)
  then show ?thesis by (simp add: CloseAll_def case_prod_beta gone)
qed

lemma on_server_simps [simp]:
  "ps_main (on_server f p) = ps_main p" "ps_api (on_server f p) = ps_api p"
  "ps_listening (on_server f p) = ps_listening p" "ps_errCh (on_server f p) = ps_errCh p"
  "ps_running (on_server f p) = ps_running p" "ps_expired (on_server f p) = ps_expired p"
  "ps_stopSched (on_server f p) = ps_stopSched p" "ps_stopCh (on_server f p) = ps_stopCh p"
  "ps_backups (on_server f p) = ps_backups p" "ps_polling (on_server f p) = ps_polling p"
  "ps_lastID (on_server f p) = ps_lastID p" "ps_exit (on_server f p) = ps_exit p"
  "sv_handler (ps_server (on_server f p)) = f (sv_handler (ps_server p))"
  by (simp_all add: on_server_def)

definition process_ok :: "auth_env \<Rightarrow> process \<Rightarrow> bool" where
  "process_ok e p \<longleftrightarrow> server_ok e (ps_server p) \<and> worker_ok (process_db p)"

text \<open>The handler's side of a step, and what any sequence of operations keeps of it.\<close>

abbreviation process_handler :: "process \<Rightarrow> handler" where
  "process_handler p \<equiv> sv_handler (ps_server p)"

lemma ops_effect:
  assumes "process_ok e p" and "handler_ops (process_handler p) (process_handler p')"
  shows "process_ok e p'" and "audit_ends (process_db p') = audit_ends (process_db p)"
proof -
  have "audit_ends (process_db p') = audit_ends (process_db p) \<and> worker_ok (process_db p')"
    using channel.ops_keep [OF assms(2)] assms(1) by (simp add: process_ok_def process_db_def)
  moreover have "server_ok e (ps_server p')"
    using handler_ops_ok [OF assms(2)] assms(1) by (simp add: process_ok_def server_ok_def)
  ultimately show "process_ok e p'" and "audit_ends (process_db p') = audit_ends (process_db p)"
    by (simp_all add: process_ok_def)
qed

lemma request_is_ops:
  assumes "process_ok (ce_auth c) p" and "tokens_known c (ps_server p)" and "incoming rq"
  shows "handler_ops (process_handler p) (process_handler (serve_request static c rq b p))"
proof -
  have "handler_ops (sv_handler ((ps_server p)\<lparr>sv_stopping := False\<rparr>)) (sv_handler
      (snd (pipeline static c rq b ((ps_server p)\<lparr>sv_stopping := False\<rparr>))))"
    using assms by (intro pipeline_is_ops) (simp_all add: process_ok_def server_ok_def tokens_known_def)
  then show ?thesis by (simp add: serve_request_def Let_def)
qed

lemma backup_is_op:
  "process_ok e p \<Longrightarrow> handler_ops (process_handler p) (process_handler (backup_step d now ts keep p))"
  unfolding backup_step_def on_server_simps
  by (rule with_dbs_is_op [of e]) (auto simp: process_ok_def server_ok_def backup_tick_def case_prod_beta CreateBackup_ok)

lemma poll_is_ops:
  "process_ok e p \<Longrightarrow> handler_ops (process_handler p) (process_handler (poll_step rn eng nets p))"
  using after_poll_is_ops [of e "process_handler p" rn eng nets "ps_lastID p"]
  by (simp add: poll_step_def process_ok_def server_ok_def)

lemma CloseAll_is_op:
  "process_ok e p \<Longrightarrow> handler_ops (process_handler p)
     (process_handler (on_server (\<lambda>h. snd (with_dbs (CloseAll (ce_db c) (ce_now c)) h)) p))"
  unfolding on_server_simps by (rule with_dbs_is_op [of e]) (auto simp: process_ok_def server_ok_def CloseAll_ok)

lemma audit_effect:
  assumes "process_ok e p" and "audit_work now (process_db p) = Some db"
  shows "process_ok e (audit_step_of db p)" and "process_db (audit_step_of db p) = db"
    and "open_dbs (audit_step_of db p) = open_dbs p"
    and "audit_closed db = audit_closed (process_db p)" and "\<not> audit_done (process_db p)"
proof -
  show db: "process_db (audit_step_of db p) = db" "open_dbs (audit_step_of db p) = open_dbs p"
    by (simp_all add: audit_step_of_def process_db_def open_dbs_def)
  show running: "\<not> audit_done (process_db p)" using assms(2) by (auto simp: audit_work_def)
  have "audit_closed db = audit_closed (process_db p) \<and> worker_ok db"
  proof (cases "audit_ch (process_db p)")
    case Nil
    then show ?thesis using assms(2) by (auto simp: audit_work_def worker_ok_def split: if_splits)
  next
    case (Cons x xs)
    then show ?thesis using audit_work_shorter [OF assms(2) Cons] running by (simp add: worker_ok_def)
  qed
  moreover have "server_ok e (ps_server (audit_step_of db p))"
    using server_step_ok [OF server_step.audit [of now "ps_server p" db e]] assms
    by (simp add: audit_step_of_def on_server_def process_db_def process_ok_def)
  ultimately show "process_ok e (audit_step_of db p)" and "audit_closed db = audit_closed (process_db p)"
    by (simp_all add: process_ok_def db)
qed

lemma stage_effect:
  assumes "process_ok e p" and "run_stage c late st p = Some (r, p')"
  shows "process_ok e p'"
proof (cases st)
  case CloseDatabases
  then have "p' = on_server (\<lambda>h. snd (with_dbs (CloseAll (ce_db c) (ce_now c)) h)) p"
    using assms(2) by (simp add: run_stage_def)
  then show ?thesis using ops_effect(1) [OF assms(1) CloseAll_is_op [OF assms(1)]] by simp
next
  case CloseAudit
  have p': "p' = on_server (\<lambda>_. snd (with_sysdb close_audit (process_handler p))) p"
    using assms(2) CloseAudit by (simp add: run_stage_def case_prod_beta)
  have "handler_ok e (snd (with_sysdb close_audit (process_handler p)))"
    using assms(1) by (intro with_sysdb_ok) (auto simp: process_ok_def server_ok_def close_audit_def)
  moreover have "process_db p' = snd (close_audit (process_db p))"
    by (simp add: p' process_db_def with_sysdb_def with_auth_def case_prod_beta)
  ultimately show ?thesis
    using assms(1) by (auto simp: process_ok_def server_ok_def p' worker_ok_def close_audit_def process_db_def)
qed (use assms in \<open>auto simp: run_stage_def process_ok_def process_db_def split: if_splits\<close>)

section \<open>The invariant of a run\<close>

text \<open>
  What a stage has achieved once it is done; that databases stay closed is claimed for a process
  without backup schedule and replica loop (\<open>quiet\<close>), when no wait for the requests has expired.
\<close>

definition stage_done :: "bool \<Rightarrow> process \<Rightarrow> stage \<Rightarrow> bool" where
  "stage_done quiet p st =
     (case st of
        StopSched \<Rightarrow> ps_stopSched p
      | StopRepl \<Rightarrow> ps_stopCh p
      | CloseListener \<Rightarrow> \<not> ps_listening p
      | AwaitRequests \<Rightarrow> ps_running p = 0 \<or> ps_expired p
      | CloseDatabases \<Rightarrow> quiet \<and> \<not> ps_expired p \<longrightarrow> open_dbs p = []
      | CloseAudit \<Rightarrow> audit_closed (process_db p)
      | AwaitAudit \<Rightarrow> audit_done (process_db p))"

definition on_the_way :: "bool \<Rightarrow> stage list \<Rightarrow> process \<Rightarrow> stage list \<Rightarrow> bool" where
  "on_the_way quiet plan p left \<longleftrightarrow>
     (\<exists>past. plan = past @ left \<and> (\<forall>st\<in>set past. stage_done quiet p st))"

definition life_inv :: "bool \<Rightarrow> auth_env \<Rightarrow> process \<Rightarrow> bool" where
  "life_inv quiet e p \<longleftrightarrow>
     process_ok e p \<and>
     (quiet \<longrightarrow> \<not> ps_backups p \<and> \<not> ps_polling p) \<and>
     (\<forall>left. ps_main p = Stopping left \<longrightarrow> on_the_way quiet Shutdown p left) \<and>
     (\<forall>left\<in>set (ps_api p). on_the_way quiet shutdown_goroutine p left) \<and>
     (\<forall>left. ps_main p = Stopping left \<longrightarrow> ps_exit p = Some (Inr ()) \<longrightarrow> left = [])"

text \<open>Nothing that was achieved is undone.\<close>

definition later :: "bool \<Rightarrow> process \<Rightarrow> process \<Rightarrow> bool" where
  "later quiet p p' \<longleftrightarrow> (\<forall>st. stage_done quiet p st \<longrightarrow> stage_done quiet p' st)"

lemma laterI:
  assumes "ps_stopSched p \<longrightarrow> ps_stopSched p'" and "ps_stopCh p \<longrightarrow> ps_stopCh p'"
    and "ps_listening p' \<longrightarrow> ps_listening p" and "ps_running p' = ps_running p"
    and "ps_expired p \<longrightarrow> ps_expired p'" and "quiet \<longrightarrow> open_dbs p = [] \<longrightarrow> open_dbs p' = []"
    and "audit_closed (process_db p) \<longrightarrow> audit_closed (process_db p')"
    and "audit_done (process_db p) \<longrightarrow> audit_done (process_db p')"
  shows "later quiet p p'"
  using assms by (auto simp: later_def stage_done_def split: stage.split)

lemma on_the_way_later: "on_the_way quiet plan p left \<Longrightarrow> later quiet p p' \<Longrightarrow> on_the_way quiet plan p' left"
  by (auto simp: on_the_way_def later_def)

lemma on_the_way_next:
  "on_the_way quiet plan p (st # left) \<Longrightarrow> stage_done quiet p st \<Longrightarrow> on_the_way quiet plan p left"
  unfolding on_the_way_def by (elim exE conjE) (rule exI [of _ "_ @ [st]"], auto)

lemma before_await:
  assumes "plan = Shutdown \<or> plan = shutdown_goroutine" and "plan = past @ left"
    and "AwaitRequests \<notin> set past \<or> CloseListener \<notin> set past"
  shows "set past \<subseteq> {StopSched, StopRepl, CloseListener}"
  using assms by (auto simp: Shutdown_def shutdown_goroutine_def append_eq_Cons_conv)

text \<open>
  A process that listens or serves requests: no shutdown is past its wait for them, unless that wait
  has expired, whatever the requests do.
\<close>

definition busy :: "process \<Rightarrow> bool" where
  "busy p \<longleftrightarrow> ps_listening p \<or> 0 < ps_running p"

lemma on_the_way_busy:
  assumes "on_the_way quiet plan p left" and "plan = Shutdown \<or> plan = shutdown_goroutine"
    and "busy p" and "ps_stopSched p' = ps_stopSched p" and "ps_stopCh p' = ps_stopCh p"
    and "ps_listening p' = ps_listening p" and "ps_expired p' = ps_expired p"
    and "audit_ends (process_db p') = audit_ends (process_db p)"
  shows "on_the_way quiet plan p' left"
proof -
  obtain past where past: "plan = past @ left" "\<forall>st\<in>set past. stage_done quiet p st"
    using assms(1) by (auto simp: on_the_way_def)
  have "\<forall>st\<in>set past. stage_done quiet p' st"
  proof (cases "ps_expired p")
    case True
    then show ?thesis
      using past(2) assms(4-8) by (auto simp: stage_done_def audit_ends_def split: stage.splits)
  next
    case False
    then have "AwaitRequests \<notin> set past \<or> CloseListener \<notin> set past"
      using past(2) assms(3) by (fastforce simp: stage_done_def busy_def)
    from before_await [OF assms(2) past(1) this] show ?thesis
      using past(2) assms(4-6) by (auto simp: stage_done_def split: stage.splits)
  qed
  then show ?thesis using past(1) by (auto simp: on_the_way_def)
qed

lemma stage_later:
  assumes "process_ok e p" and "run_stage c late st p = Some (r, p')"
  shows "later quiet p p'" and "r = Inr () \<Longrightarrow> stage_done quiet p' st"
    and "ps_main p' = ps_main p" and "ps_api p' = ps_api p" and "ps_exit p' = ps_exit p"
    and "ps_backups p' = ps_backups p" and "ps_polling p' = ps_polling p"
  using assms
  by (cases st; auto simp: run_stage_def stage_done_def process_db_def open_dbs_def with_dbs_def
        with_sysdb_def with_auth_def case_prod_beta close_audit_def CloseAll_empties
        intro!: laterI split: if_splits)+

lemma life_inv_later:
  assumes "life_inv quiet e p" and "later quiet p p'" and "process_ok e p'"
    and "ps_main p' = ps_main p" and "ps_api p' = ps_api p" and "ps_exit p' = ps_exit p"
    and "ps_backups p' \<longrightarrow> ps_backups p" and "ps_polling p' \<longrightarrow> ps_polling p"
  shows "life_inv quiet e p'"
  using assms on_the_way_later [OF _ assms(2)] unfolding life_inv_def by metis

lemma fresh_plan: "on_the_way quiet plan p plan"
  unfolding on_the_way_def by (rule exI [of _ "[]"]) simp

lemma life_inv_busy:
  assumes "life_inv quiet e p" and "busy p" and "process_ok e p'"
    and "audit_ends (process_db p') = audit_ends (process_db p)"
    and "ps_main p' = ps_main p" and "ps_exit p' = ps_exit p"
    and "ps_backups p' = ps_backups p" and "ps_polling p' = ps_polling p"
    and "ps_stopSched p' = ps_stopSched p" and "ps_stopCh p' = ps_stopCh p"
    and "ps_listening p' = ps_listening p" and "ps_expired p' = ps_expired p"
    and "set (ps_api p') \<subseteq> insert shutdown_goroutine (set (ps_api p))"
  shows "life_inv quiet e p'"
proof -
  have "on_the_way quiet plan p' left"
    if "on_the_way quiet plan p left" "plan = Shutdown \<or> plan = shutdown_goroutine" for plan left
    using on_the_way_busy [OF that assms(2,9-12,4)] .
  then show ?thesis using assms fresh_plan by (auto simp: life_inv_def)
qed

lemma life_inv_stage:
  assumes inv: "life_inv quiet e p" and run: "run_stage c late st p = Some (r, p1)"
    and way: "on_the_way quiet plan p (st # left)"
  shows "life_inv quiet e p1" and "r = Inr () \<Longrightarrow> on_the_way quiet plan p1 left"
proof -
  have ok: "process_ok e p" using inv by (simp add: life_inv_def)
  note st = stage_later [OF ok run]
  show "life_inv quiet e p1"
    using life_inv_later [OF inv st(1) stage_effect [OF ok run]] st(3-7) by simp
  show "on_the_way quiet plan p1 left" if "r = Inr ()"
    using on_the_way_next [OF on_the_way_later [OF way st(1)] st(2) [OF that]] .
qed

text \<open>The fields that only say where the goroutines are.\<close>

lemma control_frame [simp]:
  "process_db (p\<lparr>ps_exit := x\<rparr>) = process_db p" "process_db (p\<lparr>ps_main := m\<rparr>) = process_db p"
  "process_db (p\<lparr>ps_api := gs\<rparr>) = process_db p" "process_db (p\<lparr>ps_errCh := r\<rparr>) = process_db p"
  "process_db (p\<lparr>ps_running := n\<rparr>) = process_db p" "process_db (p\<lparr>ps_expired := x'\<rparr>) = process_db p"
  "open_dbs (p\<lparr>ps_exit := x\<rparr>) = open_dbs p" "open_dbs (p\<lparr>ps_main := m\<rparr>) = open_dbs p"
  "open_dbs (p\<lparr>ps_api := gs\<rparr>) = open_dbs p" "open_dbs (p\<lparr>ps_errCh := r\<rparr>) = open_dbs p"
  "open_dbs (p\<lparr>ps_running := n\<rparr>) = open_dbs p"
  by (simp_all add: process_db_def open_dbs_def)

lemma stage_done_frame [simp]:
  "stage_done quiet (p\<lparr>ps_exit := x\<rparr>) = stage_done quiet p"
  "stage_done quiet (p\<lparr>ps_main := m\<rparr>) = stage_done quiet p"
  "stage_done quiet (p\<lparr>ps_api := gs\<rparr>) = stage_done quiet p"
  by (rule ext, simp add: stage_done_def split: stage.split)+

lemma on_the_way_frame [simp]:
  "on_the_way quiet plan (p\<lparr>ps_exit := x\<rparr>) left = on_the_way quiet plan p left"
  "on_the_way quiet plan (p\<lparr>ps_main := m\<rparr>) left = on_the_way quiet plan p left"
  "on_the_way quiet plan (p\<lparr>ps_api := gs\<rparr>) left = on_the_way quiet plan p left"
  by (simp_all add: on_the_way_def)

lemma life_inv_exit: "life_inv quiet e p \<Longrightarrow> life_inv quiet e (p\<lparr>ps_exit := Some (Inl x)\<rparr>)"
  by (simp add: life_inv_def process_ok_def)

lemma life_inv_main:
  assumes "life_inv quiet e p" and "on_the_way quiet Shutdown p left" and "ps_exit p = None"
  shows "life_inv quiet e (p\<lparr>ps_main := Stopping left\<rparr>)"
  using assms by (simp add: life_inv_def process_ok_def)

lemma life_inv_api:
  assumes "life_inv quiet e p" and "\<forall>left\<in>set gs. on_the_way quiet shutdown_goroutine p left"
  shows "life_inv quiet e (p\<lparr>ps_api := gs\<rparr>)"
  using assms by (simp add: life_inv_def process_ok_def)

lemma after_stage_cases:
  "after_stage x go = (case fst x of Inl e \<Rightarrow> (snd x)\<lparr>ps_exit := Some (Inl e)\<rparr> | Inr _ \<Rightarrow> go (snd x))"
  by (simp add: after_stage_def case_prod_beta)

lemma process_ok_frame [simp]:
  "process_ok e (p\<lparr>ps_exit := x\<rparr>) = process_ok e p" "process_ok e (p\<lparr>ps_main := m\<rparr>) = process_ok e p"
  "process_ok e (p\<lparr>ps_api := gs\<rparr>) = process_ok e p" "process_ok e (p\<lparr>ps_errCh := r\<rparr>) = process_ok e p"
  "process_ok e (p\<lparr>ps_running := n\<rparr>) = process_ok e p"
  by (simp_all add: process_ok_def)

lemma life_inv_step: "process_step e p p' \<Longrightarrow> life_inv quiet e p \<Longrightarrow> life_inv quiet e p'"
proof (induction rule: process_step.induct)
  case (accept p)
  have "process_ok e p" using accept.prems by (simp add: life_inv_def)
  then show ?case
    by (intro life_inv_busy [OF accept.prems]) (use accept.hyps in \<open>auto simp: busy_def\<close>)
next
  case (request p n c rq b static)
  have ok: "process_ok e p" using request.prems by (simp add: life_inv_def)
  note ops = ops_effect [OF ok request_is_ops [OF ok [folded request.hyps(3)] request.hyps(4,5)]]
  show ?case
    by (rule life_inv_busy [OF request.prems])
      (use ops request.hyps(2) in \<open>auto simp: busy_def serve_request_def Let_def\<close>)
next
  case (operation p h)
  have ok: "process_ok e p" using operation.prems by (simp add: life_inv_def)
  have "handler_ops (process_handler p) (process_handler (on_server (\<lambda>_. h) p))"
    using operation.hyps(3) by simp
  note ops = ops_effect [OF ok this]
  show ?case
    by (rule life_inv_busy [OF operation.prems]) (use ops operation.hyps(2) in \<open>auto simp: busy_def\<close>)
next
  case (counted p l l')
  have "process_ok e p" using counted.prems by (simp add: life_inv_def)
  then show ?case
    by (intro life_inv_busy [OF counted.prems])
      (use counted.hyps(2) in \<open>auto simp: busy_def process_ok_def process_db_def\<close>)
next
  case (granted p)
  have "process_ok e p" using granted.prems by (simp add: life_inv_def)
  then show ?case
    by (intro life_inv_busy [OF granted.prems]) (use granted.hyps(2) in \<open>auto simp: busy_def\<close>)
next
  case (respond p n)
  have "process_ok e p" using respond.prems by (simp add: life_inv_def)
  then show ?case
    by (intro life_inv_busy [OF respond.prems]) (use respond.hyps(2) in \<open>auto simp: busy_def\<close>)
next
  case (audit p now db)
  have ok: "process_ok e p" using audit.prems by (simp add: life_inv_def)
  note eff = audit_effect [OF ok audit.hyps(2)]
  show ?case
    by (rule life_inv_later [OF audit.prems _ eff(1)])
      (use eff audit.prems in \<open>auto simp: audit_step_of_def life_inv_def intro!: laterI\<close>)
next
  case (backup p d now ts keep)
  have ok: "process_ok e p" using backup.prems by (simp add: life_inv_def)
  note eff = ops_effect [OF ok backup_is_op [OF ok, of d now ts keep]]
  show ?case
    by (rule life_inv_later [OF backup.prems _ eff(1)])
      (use eff(2) backup in \<open>auto simp: backup_step_def life_inv_def audit_ends_def intro!: laterI\<close>)
next
  case (poll p nets rn eng)
  have ok: "process_ok e p" using poll.prems by (simp add: life_inv_def)
  note eff = ops_effect [OF ok poll_is_ops [OF ok, of rn eng nets]]
  show ?case
    by (rule life_inv_later [OF poll.prems _ eff(1)])
      (use eff(2) poll in \<open>auto simp: poll_step_def life_inv_def audit_ends_def process_db_def intro!: laterI\<close>)
next
  case (goroutine p xs st sts ys c late x)
  obtain r p1 where x: "x = (r, p1)" by (cases x)
  have way: "on_the_way quiet shutdown_goroutine p (st # sts)"
    and ok: "process_ok e p" using goroutine by (auto simp: life_inv_def)
  have run: "run_stage c late st p = Some (r, p1)" using goroutine.hyps(3) x by simp
  note next_inv = life_inv_stage [OF goroutine.prems run way]
  have api: "ps_api p1 = ps_api p" using stage_later(4) [OF ok run] .
  show ?case
  proof (cases r)
    case (Inl err)
    then show ?thesis using life_inv_exit [OF next_inv(1)] by (simp add: x after_stage_def)
  next
    case (Inr u)
    have "\<forall>left\<in>set (xs @ sts # ys). on_the_way quiet shutdown_goroutine p1 left"
      using next_inv Inr goroutine.hyps(2) api by (auto simp: life_inv_def)
    from life_inv_api [OF next_inv(1) this] show ?thesis using Inr by (simp add: x after_stage_def)
  qed
next
  case (main_stage p st sts c late x)
  obtain r p1 where x: "x = (r, p1)" by (cases x)
  have way: "on_the_way quiet Shutdown p (st # sts)"
    and ok: "process_ok e p" using main_stage by (auto simp: life_inv_def)
  have run: "run_stage c late st p = Some (r, p1)" using main_stage.hyps(3) x by simp
  note next_inv = life_inv_stage [OF main_stage.prems run way]
  show ?case
  proof (cases r)
    case (Inl err)
    then show ?thesis using life_inv_exit [OF next_inv(1)] by (simp add: x after_stage_def)
  next
    case (Inr u)
    have "ps_exit p1 = None" using stage_later(5) [OF ok run] main_stage.hyps(1) by simp
    with next_inv Inr show ?thesis by (simp add: x after_stage_def life_inv_main)
  qed
next
  case (signal p)
  then show ?case by (simp add: life_inv_main fresh_plan)
next
  case (main_stopped p)
  then show ?case by (auto simp: life_inv_def process_ok_def)
next
  case (main_served p err)
  then show ?case by (auto simp: life_inv_def process_ok_def)
qed (rule life_inv_later, assumption,
    (auto simp: life_inv_def process_ok_def process_db_def open_dbs_def intro!: laterI)[7])+

lemma life_inv_steps: "process_steps e p p' \<Longrightarrow> life_inv quiet e p \<Longrightarrow> life_inv quiet e p'"
  by (induction rule: rtranclp_induct) (auto intro: life_inv_step)

lemma read_state_db: "GetReplicationState s = (st, db) \<Longrightarrow> \<exists>fs. db = s\<lparr>db_faults := fs\<rparr>"
  using snd_read [of "\<lambda>s. query_row id (db_repl_state s)" s]
  by (auto simp: GetReplicationState_def split: prod.splits sum.splits if_splits)

lemma Start_inv:
  assumes "server_ok e sv" and "\<not> audit_closed (a_db (hd_auth (sv_handler sv)))"
    and "\<not> audit_done (a_db (hd_auth (sv_handler sv)))"
    and "quiet \<longrightarrow> cf_backup_schedule cfg = [] \<and> \<not> starts_loop eng"
  shows "life_inv quiet e (Start cfg schedule eng sv)"
proof -
  obtain st db where g: "GetReplicationState (a_db (hd_auth (sv_handler sv))) = (st, db)" by fastforce
  obtain fs where "db = (a_db (hd_auth (sv_handler sv)))\<lparr>db_faults := fs\<rparr>"
    using read_state_db [OF g] by blast
  then show ?thesis
    using assms g
    by (auto simp: Start_def Let_def life_inv_def process_ok_def worker_ok_def process_db_def on_server_def
        server_ok_def handler_ok_def auth_ok_def auth_wired_def)
qed


section \<open>A signal ends the process\<close>

text \<open>Before a signal no channel of the process was closed by \<open>main\<close>, nor the audit channel unless
  a shutdown request was granted, and nothing has waited for requests in vain.\<close>

definition undisturbed :: "process \<Rightarrow> bool" where
  "undisturbed p \<longleftrightarrow>
     (ps_main p = Waiting \<longrightarrow> \<not> ps_stopSched p \<and> \<not> ps_stopCh p \<and>
        (ps_api p = [] \<longrightarrow> \<not> audit_closed (process_db p) \<and> \<not> ps_expired p))"

lemma undisturbed_frame [simp]:
  "undisturbed (p\<lparr>ps_exit := x\<rparr>) = undisturbed p"
  "undisturbed (p\<lparr>ps_errCh := r\<rparr>) = undisturbed p"
  "undisturbed (p\<lparr>ps_running := n\<rparr>) = undisturbed p"
  by (simp_all add: undisturbed_def)

lemma undisturbed_same:
  assumes "undisturbed p" and "audit_ends (process_db p') = audit_ends (process_db p)"
    and "ps_main p' = ps_main p" and "ps_stopSched p' = ps_stopSched p" and "ps_stopCh p' = ps_stopCh p"
    and "ps_expired p' = ps_expired p" and "ps_api p' = [] \<longrightarrow> ps_api p = []"
  shows "undisturbed p'"
  using assms by (simp add: undisturbed_def audit_ends_def)

lemma api_stage_stops:
  assumes "run_stage c late st p = Some (r, p')" and "st \<in> set shutdown_goroutine"
  shows "ps_stopSched p' = ps_stopSched p \<and> ps_stopCh p' = ps_stopCh p"
  using assms by (auto simp: run_stage_def shutdown_goroutine_def case_prod_beta split: if_splits)

lemma undisturbed_step: "process_step e p p' \<Longrightarrow> life_inv quiet e p \<Longrightarrow> undisturbed p \<Longrightarrow> undisturbed p'"
proof (induction rule: process_step.induct)
  case (request p n c rq b static)
  have ok: "process_ok e p" using request.prems(1) by (simp add: life_inv_def)
  note ops = ops_effect [OF ok request_is_ops [OF ok [folded request.hyps(3)] request.hyps(4,5)]]
  show ?case
    by (rule undisturbed_same [OF request.prems(2)]) (use ops(2) in \<open>auto simp: serve_request_def Let_def\<close>)
next
  case (operation p h)
  have ok: "process_ok e p" using operation.prems(1) by (simp add: life_inv_def)
  have "handler_ops (process_handler p) (process_handler (on_server (\<lambda>_. h) p))"
    using operation.hyps(3) by simp
  from undisturbed_same [OF operation.prems(2) ops_effect(2) [OF ok this]] show ?case by simp
next
  case (counted p l l')
  show ?case by (rule undisturbed_same [OF counted.prems(2)]) (simp_all add: process_db_def)
next
  case (granted p)
  show ?case by (rule undisturbed_same [OF granted.prems(2)]) simp_all
next
  case (audit p now db)
  have ok: "process_ok e p" using audit.prems by (simp add: life_inv_def)
  show ?case
    using audit.prems(2) audit_effect(2,4) [OF ok audit.hyps(2)]
    by (simp add: undisturbed_def audit_step_of_def)
next
  case (backup p d now ts keep)
  have ok: "process_ok e p" using backup.prems by (simp add: life_inv_def)
  show ?case
    by (rule undisturbed_same [OF backup.prems(2) ops_effect(2) [OF ok backup_is_op [OF ok]]])
      (simp_all add: backup_step_def)
next
  case (poll p nets rn eng)
  have ok: "process_ok e p" using poll.prems by (simp add: life_inv_def)
  show ?case
    by (rule undisturbed_same [OF poll.prems(2) ops_effect(2) [OF ok poll_is_ops [OF ok]]])
      (simp_all add: poll_step_def)
next
  case (goroutine p xs st sts ys c late x)
  obtain r p1 where x: "x = (r, p1)" by (cases x)
  have ok: "process_ok e p" and way: "on_the_way quiet shutdown_goroutine p (st # sts)"
    using goroutine by (auto simp: life_inv_def)
  have run: "run_stage c late st p = Some (r, p1)" using goroutine.hyps(3) x by simp
  obtain past where "shutdown_goroutine = past @ st # sts" using way by (auto simp: on_the_way_def)
  then have "st \<in> set shutdown_goroutine" by (metis in_set_conv_decomp)
  from api_stage_stops [OF run this] show ?case
    using stage_later(3,4) [OF ok run] goroutine.prems(2) goroutine.hyps(2)
    by (auto simp: x after_stage_def undisturbed_def split: sum.split)
next
  case (main_stage p st sts c late x)
  obtain r p1 where x: "x = (r, p1)" by (cases x)
  have ok: "process_ok e p" using main_stage by (auto simp: life_inv_def)
  have run: "run_stage c late st p = Some (r, p1)" using main_stage.hyps(3) x by simp
  show ?case
    using stage_later(3) [OF ok run] main_stage.hyps(2)
    by (simp add: x after_stage_def undisturbed_def split: sum.split)
qed (auto simp: undisturbed_def process_db_def)

lemma life_undisturbed_steps:
  "process_steps e p p' \<Longrightarrow> life_inv quiet e p \<Longrightarrow> undisturbed p \<Longrightarrow> life_inv quiet e p' \<and> undisturbed p'"
  by (induction rule: rtranclp_induct) (auto intro: life_inv_step undisturbed_step)

text \<open>Once the channel is closed, the worker empties it and ends, whatever is queued.\<close>

lemma worker_ends:
  assumes "ps_exit p = None" and "audit_closed (process_db p)"
  shows "\<exists>p'. process_steps e p p' \<and> audit_done (process_db p') \<and> ps_main p' = ps_main p \<and>
     ps_exit p' = None \<and> ps_expired p' = ps_expired p"
  using assms
proof (induction "length (audit_ch (process_db p))" arbitrary: p rule: less_induct)
  case less
  show ?case
  proof (cases "audit_done (process_db p)")
    case True
    then show ?thesis using less.prems(1) by blast
  next
    case running: False
    then have "audit_work 0 (process_db p) \<noteq> None"
      using less.prems(2) by (auto simp: audit_work_def split: list.splits option.splits)
    then obtain db where db: "audit_work 0 (process_db p) = Some db" by blast
    let ?p = "audit_step_of db p"
    have step: "process_step e p ?p" using process_step.audit [OF less.prems(1) db] .
    have same: "ps_main ?p = ps_main p" "ps_exit ?p = None" "process_db ?p = db" "ps_expired ?p = ps_expired p"
      using less.prems(1) by (simp_all add: audit_step_of_def process_db_def)
    show ?thesis
    proof (cases "audit_ch (process_db p)")
      case Nil
      then have "audit_done db" using db running less.prems(2) by (auto simp: audit_work_def)
      then have "audit_done (process_db ?p)" using same(3) by simp
      then show ?thesis using same(1,2,4) r_into_rtranclp [of "process_step e", OF step] by blast
    next
      case (Cons x xs)
      note short = audit_work_shorter [OF db Cons]
      have "\<exists>p'. process_steps e ?p p' \<and> audit_done (process_db p') \<and> ps_main p' = ps_main ?p \<and>
          ps_exit p' = None \<and> ps_expired p' = ps_expired ?p"
        by (rule less.hyps) (simp_all add: same short Cons less.prems(2))
      then obtain p' where p': "process_steps e ?p p'" "audit_done (process_db p')"
        "ps_main p' = ps_main p" "ps_exit p' = None" "ps_expired p' = ps_expired p"
        unfolding same(1,4) by blast
      have "process_steps e p p'" by (rule converse_rtranclp_into_rtranclp [of "process_step e", OF step p'(1)])
      then show ?thesis using p' by blast
    qed
  qed
qed

text \<open>The requests being served are answered, one after the other.\<close>

lemma requests_end:
  "ps_exit p = None \<Longrightarrow> process_steps e p (p\<lparr>ps_running := 0\<rparr>)"
proof (induction "ps_running p" arbitrary: p)
  case 0
  then have "p\<lparr>ps_running := 0\<rparr> = p" by simp
  then show ?case by simp
next
  case (Suc n)
  have "process_step e p (p\<lparr>ps_running := n\<rparr>)" using process_step.respond [of p n e] Suc.prems Suc.hyps(2) by simp
  moreover have "process_steps e (p\<lparr>ps_running := n\<rparr>) (p\<lparr>ps_running := 0\<rparr>)"
    using Suc.hyps(1) [of "p\<lparr>ps_running := n\<rparr>"] Suc.prems by simp
  ultimately show ?case by (rule converse_rtranclp_into_rtranclp [of "process_step e"])
qed

lemma main_stage_ok:
  assumes "ps_exit p = None" and "ps_main p = Stopping (st # sts)"
    and "run_stage c late st p = Some (Inr (), p')"
  shows "process_step e p (p'\<lparr>ps_main := Stopping sts\<rparr>)"
  using process_step.main_stage [OF assms, of e] by (simp add: after_stage_def)

lemma signal_stops:
  assumes "ps_exit p = None" and "ps_main p = Waiting" and "undisturbed p" and "ps_api p = []"
  shows "\<exists>p'. process_steps e p p' \<and> ps_main p' = Stopping [] \<and> ps_exit p' = Some (Inr ()) \<and> \<not> ps_expired p'"
proof -
  fix c :: call_env
  let ?h = "\<lambda>h. snd (with_dbs (CloseAll (ce_db c) (ce_now c)) h)"
  let ?k = "\<lambda>h. snd (with_sysdb close_audit h)"
  define p0 where "p0 = p\<lparr>ps_main := Stopping Shutdown\<rparr>"
  define p1 where "p1 = p0\<lparr>ps_stopSched := True, ps_main := Stopping (tl Shutdown)\<rparr>"
  define p2 where "p2 = p1\<lparr>ps_stopCh := True, ps_main := Stopping (tl (tl Shutdown))\<rparr>"
  define p3 where "p3 = p2\<lparr>ps_listening := False, ps_main := Stopping (tl shutdown_goroutine)\<rparr>"
  define p4 where "p4 = p3\<lparr>ps_running := 0\<rparr>"
  define p5 where "p5 = p4\<lparr>ps_main := Stopping [CloseDatabases, CloseAudit, AwaitAudit]\<rparr>"
  define p6 where "p6 = (on_server ?h p5)\<lparr>ps_main := Stopping [CloseAudit, AwaitAudit]\<rparr>"
  define p7 where "p7 = (on_server ?k p6)\<lparr>ps_main := Stopping [AwaitAudit]\<rparr>"
  note ps = p0_def p1_def p2_def p3_def p4_def p5_def p6_def p7_def
  note plans = Shutdown_def shutdown_goroutine_def
  have fresh: "\<not> ps_stopSched p" "\<not> ps_stopCh p" "\<not> audit_closed (process_db p)" "\<not> ps_expired p"
    using assms(2-4) by (simp_all add: undisturbed_def)
  have open6: "\<not> audit_closed (process_db p6)"
    using fresh(3) by (simp add: ps process_db_def with_dbs_def case_prod_beta)
  have run: "run_stage c False StopSched p0 = Some (Inr (), p0\<lparr>ps_stopSched := True\<rparr>)"
    "run_stage c False StopRepl p1 = Some (Inr (), p1\<lparr>ps_stopCh := True\<rparr>)"
    "run_stage c False CloseListener p2 = Some (Inr (), p2\<lparr>ps_listening := False\<rparr>)"
    "run_stage c False AwaitRequests p4 = Some (Inr (), p4)"
    "run_stage c False CloseDatabases p5 = Some (Inr (), on_server ?h p5)"
    using fresh(1,2) by (simp_all add: run_stage_def ps)
  have "run_stage c False CloseAudit p6 = Some (Inr (), on_server (\<lambda>_. ?k (sv_handler (ps_server p6))) p6)"
    using open6 by (simp add: run_stage_def case_prod_beta close_audit_def with_sysdb_def with_auth_def process_db_def)
  then have run6: "run_stage c False CloseAudit p6 = Some (Inr (), on_server ?k p6)"
    by (simp add: on_server_def)
  have s0: "process_step e p p0" using process_step.signal [OF assms(1,2), of e] by (simp add: p0_def)
  have s1: "process_step e p0 p1"
    using main_stage_ok [of p0, OF _ _ run(1), of _ e] assms(1) by (simp add: ps plans)
  have s2: "process_step e p1 p2"
    using main_stage_ok [of p1, OF _ _ run(2), of _ e] assms(1) by (simp add: ps plans)
  have s3: "process_step e p2 p3"
    using main_stage_ok [of p2, OF _ _ run(3), of _ e] assms(1) by (simp add: ps plans)
  have s4: "process_steps e p3 p4" using requests_end [of p3 e] assms(1) by (simp add: ps)
  have s5: "process_step e p4 p5"
    using main_stage_ok [of p4, OF _ _ run(4), of _ e] assms(1) by (simp add: ps plans)
  have s6: "process_step e p5 p6"
    using main_stage_ok [of p5, OF _ _ run(5), of _ e] assms(1) by (simp add: ps)
  have s7: "process_step e p6 p7"
    using main_stage_ok [of p6, OF _ _ run6, of _ e] assms(1) by (simp add: ps)
  note go = converse_rtranclp_into_rtranclp [of "process_step e"]
  have to7: "process_steps e p p7"
    by (rule go [OF s0], rule go [OF s1], rule go [OF s2], rule go [OF s3], rule rtranclp_trans [OF s4],
        rule go [OF s5], rule go [OF s6], rule go [OF s7], rule rtranclp.rtrancl_refl)
  have "audit_closed (process_db p7)"
    by (simp add: p7_def process_db_def with_sysdb_def with_auth_def case_prod_beta close_audit_def)
  moreover have "ps_exit p7 = None" "\<not> ps_expired p7" using assms(1) fresh(4) by (simp_all add: ps)
  ultimately obtain p8 where p8: "process_steps e p7 p8" "audit_done (process_db p8)"
    "ps_main p8 = Stopping [AwaitAudit]" "ps_exit p8 = None" "\<not> ps_expired p8"
    using worker_ends [of p7 e] by (auto simp: p7_def)
  define p9 where "p9 = p8\<lparr>ps_main := Stopping []\<rparr>"
  have "process_step e p8 p9"
    using main_stage_ok [OF p8(4,3), of c False p8 e] p8(2) by (simp add: run_stage_def p9_def)
  moreover have "process_step e p9 (p9\<lparr>ps_exit := Some (Inr ())\<rparr>)"
    using process_step.main_stopped [of p9 e] p8(4) by (simp add: p9_def)
  ultimately have "process_steps e p (p9\<lparr>ps_exit := Some (Inr ())\<rparr>)"
    using to7 p8(1) by (meson rtranclp.rtrancl_into_rtrancl rtranclp_trans)
  then show ?thesis by (intro exI [of _ "p9\<lparr>ps_exit := Some (Inr ())\<rparr>"]) (simp add: p9_def p8(5))
qed

lemma stopped_is_done:
  assumes "life_inv quiet e p" and "ps_main p = Stopping left" and "ps_exit p = Some (Inr ())"
  shows "\<not> ps_listening p \<and> audit_closed (process_db p) \<and> audit_done (process_db p) \<and>
     audit_ch (process_db p) = [] \<and> (ps_running p = 0 \<or> ps_expired p) \<and> (quiet \<and> \<not> ps_expired p \<longrightarrow> open_dbs p = [])"
proof -
  have "on_the_way quiet Shutdown p []" using assms by (auto simp: life_inv_def)
  then have "\<forall>st\<in>set Shutdown. stage_done quiet p st" by (auto simp: on_the_way_def)
  moreover have "worker_ok (process_db p)" using assms(1) by (simp add: life_inv_def process_ok_def)
  ultimately show ?thesis by (auto simp: Shutdown_def stage_done_def worker_ok_def)
qed

lemma Start_undisturbed:
  assumes "\<not> audit_closed (a_db (hd_auth (sv_handler sv)))"
  shows "undisturbed (Start cfg schedule eng sv)"
proof -
  obtain st db where g: "GetReplicationState (a_db (hd_auth (sv_handler sv))) = (st, db)" by fastforce
  obtain fs where "db = (a_db (hd_auth (sv_handler sv)))\<lparr>db_faults := fs\<rparr>"
    using read_state_db [OF g] by blast
  then show ?thesis
    using assms g by (auto simp: Start_def Let_def undisturbed_def process_db_def on_server_def)
qed

section \<open>A shutdown by request\<close>

lemma shutdown_request_exits:
  assumes "ps_exit p = None" and "ps_main p = Waiting" and "ps_listening p" and "ps_errCh p = None"
    and "ce_auth c = e" and "tokens_known c (ps_server p)" and "incoming rq"
    and "spares_body (data_dir (ps_server p)) b" and "sv_stopping (ps_server (serve_request static c rq b p))"
  shows "\<exists>p'. process_steps e p p' \<and> ps_exit p' = Some (Inr ()) \<and>
     ps_server p' = ps_server (serve_request static c rq b p)"
proof -
  let ?p0 = "p\<lparr>ps_running := Suc (ps_running p)\<rparr>"
  let ?p1 = "(serve_request static c rq b ?p0)\<lparr>ps_running := ps_running p\<rparr>"
  let ?p2 = "?p1\<lparr>ps_listening := False, ps_api := ps_api p @ tl shutdown_goroutine # []\<rparr>"
  let ?p3 = "?p2\<lparr>ps_errCh := Some ErrServerClosed\<rparr>"
  have same: "ps_server (serve_request static c rq b ?p0) = ps_server (serve_request static c rq b p)"
    by (simp add: serve_request_def Let_def)
  have p1: "ps_exit ?p1 = None" "ps_main ?p1 = Waiting" "ps_errCh ?p1 = None"
    "ps_api ?p1 = ps_api p @ shutdown_goroutine # []"
    using assms by (simp_all add: serve_request_def Let_def)
  have s0: "process_step e p ?p0" using process_step.accept [OF assms(1,3)] .
  have s1: "process_step e ?p0 ?p1"
    using process_step.request [of ?p0 "ps_running p" c e rq b static] assms by simp
  have s2: "process_step e ?p1 ?p2"
    using process_step.goroutine [of ?p1 "ps_api p" CloseListener "tl shutdown_goroutine" "[]" c False _ e] p1
    by (simp add: run_stage_def after_stage_def shutdown_goroutine_def)
  have s3: "process_step e ?p2 ?p3" using process_step.listen_closed [of ?p2 e] p1 by simp
  have s4: "process_step e ?p3 (?p3\<lparr>ps_exit := Some (Inr ())\<rparr>)"
    using process_step.main_served [of ?p3 ErrServerClosed e] p1 by simp
  note go = converse_rtranclp_into_rtranclp [of "process_step e"]
  have "process_steps e p (?p3\<lparr>ps_exit := Some (Inr ())\<rparr>)"
    by (rule go [OF s0], rule go [OF s1], rule go [OF s2], rule go [OF s3], rule go [OF s4], rule rtranclp.rtrancl_refl)
  then show ?thesis using same by (intro exI [of _ "?p3\<lparr>ps_exit := Some (Inr ())\<rparr>"]) simp
qed

lemma find_shutdown: "find_route routes ''POST'' [''shutdown''] = Some (RequireAuth, HandleShutdown, \<lambda>_. [])"
  by (simp add: routes_def method_matches_def)

text \<open>When the request is granted: it authenticates as an administrator, and the limits let it pass.\<close>

lemma shutdown_granted:
  assumes "incoming rq" and "rq_method rq = ''POST''" and "path_segs (rq_path rq) = [''shutdown'']"
    and "int (rl_used (ce_now c) (rq_remote rq) (sv_ipLimiter sv)) < rl_limit (sv_ipLimiter sv)"
    and "int (rl_used (ce_now c) (rq_remote rq) (sv_userLimiter sv)) < rl_limit (sv_userLimiter sv)"
    and "AuthenticateRequest (ce_auth c) (ce_now c) (rq_headers rq) (hd_auth (sv_handler sv)) = (Inr u, a)"
    and "HasPermission (AU_Role u) PermCreateUser"
  shows "sv_stopping (snd (pipeline static c rq b sv)) \<and>
     sv_handler (snd (pipeline static c rq b sv)) = (sv_handler sv)\<lparr>hd_auth := a\<rparr>"
  using assms Allow_iff_used [of "ce_now c" "rq_remote rq" "sv_ipLimiter sv"]
    Allow_iff_used [of "ce_now c" "rq_remote rq" "sv_userLimiter sv"]
  by (simp add: pipeline_def rateLimitMiddleware_def incoming_def Let_def case_prod_beta corsMiddleware_def
      bodyLimitMiddleware_def recoveryMiddleware_def loggingMiddleware_def mux_def find_shutdown guarded_def
      authMiddleware_def on_handler_def with_auth_def HandleShutdown_def may_def split: sum.split)

lemma authenticate_channel:
  assumes "process_ok e p"
  shows "audit_ch (a_db (snd (AuthenticateRequest e now h (hd_auth (sv_handler (ps_server p)))))) = audit_ch (process_db p) \<and>
     audit_closed (a_db (snd (AuthenticateRequest e now h (hd_auth (sv_handler (ps_server p)))))) = audit_closed (process_db p)"
proof -
  let ?a = "hd_auth (sv_handler (ps_server p))"
  have "auth_wired e ?a" using assms by (simp add: process_ok_def server_ok_def handler_ok_def auth_ok_def)
  then have "sysdb_steps (a_db ?a) (a_db (snd (AuthenticateRequest e now h ?a)))"
    by (intro auth_step_db [OF auth_step.authenticate])
  then show ?thesis unfolding process_db_def
    by (induction rule: rtranclp_induct) (auto dest: audit_ch_step audit_ends_step simp: audit_ends_def)
qed

end
