(* ===== verification/StartCommand.thy ===== *)
theory StartCommand
  imports ServerLife AdminCommands
begin

text \<open>
  The command \<open>sparkdb start\<close> (\<open>commands/start.go\<close>, \<open>commands/root.go\<close>): it loads the
  configuration, builds the server with its listener and starts the process.
\<close>

section \<open>The listener\<close>

definition listen_addr :: "config \<Rightarrow> string" where
  "listen_addr cfg = cf_host cfg @ '':'' @ dec_int (cf_port cfg)"

text \<open>The TLS part of \<open>New\<close>: certificates are made when they are missing and \<open>auto_cert\<close> is set.\<close>

definition ensure_certs :: "cert_env \<Rightarrow> int \<Rightarrow> config \<Rightarrow> os \<Rightarrow> unit res \<times> os" where
  "ensure_certs ct now cfg s =
     (if cf_auto_cert cfg
      then (case EnsureCertFiles ct now (cf_cert_file cfg) (cf_key_file cfg) s of
              (Inl e, s1) \<Rightarrow> (Inl (Wrap ''ensure TLS certs'' e), s1)
            | (Inr _, s1) \<Rightarrow> (Inr (), s1))
      else (Inr (), s))"

definition listener_tls :: "cert_env \<Rightarrow> int \<Rightarrow> config \<Rightarrow> os \<Rightarrow> (string \<times> nat) option res \<times> os" where
  "listener_tls ct now cfg s =
     (if \<not> cf_tls_enabled cfg then (Inr None, s)
      else case ensure_certs ct now cfg s of
        (Inl e, s1) \<Rightarrow> (Inl e, s1)
      | (Inr _, s1) \<Rightarrow>
          case TLSServerConfig ct (cf_cert_file cfg) (cf_key_file cfg) of
            Inl e \<Rightarrow> (Inl (Wrap ''TLS config'' e), s1)
          | Inr tls \<Rightarrow> (Inr (Some tls), s1))"

text \<open>What \<open>New\<close> returns: address, TLS configuration and the server.\<close>

definition New_listening ::
  "call_env \<Rightarrow> cert_env \<Rightarrow> string \<Rightarrow> string \<Rightarrow> sysdb res \<Rightarrow> string option \<Rightarrow> config \<Rightarrow> os \<Rightarrow>
     (string \<times> (string \<times> nat) option \<times> server) res" where
  "New_listening c ct env tmp opened rnd cfg s =
     (case New c env tmp opened rnd cfg s of
        Inl e \<Rightarrow> Inl e
      | Inr sv \<Rightarrow>
          case listener_tls ct (ce_now c) cfg (hd_os (sv_handler sv)) of
            (Inl e, s1) \<Rightarrow> Inl e
          | (Inr tls, s1) \<Rightarrow>
              Inr (listen_addr cfg, tls, sv\<lparr>sv_handler := (sv_handler sv)\<lparr>hd_os := s1\<rparr>\<rparr>))"

section \<open>The command\<close>

text \<open>
  \<open>open_db\<close> opens the system database of a path and \<open>parse\<close> is \<open>time.ParseDuration\<close>. The replication
  engine of the process is the one that \<open>New\<close> gave to the handlers.
\<close>

definition engine_of :: "config \<Rightarrow> repl_engine" where
  "engine_of cfg = NewEngine (cf_role cfg) (cf_primary_url cfg) (cf_api_key cfg) (cf_poll_interval cfg)"

definition start_command ::
  "viper \<Rightarrow> (string \<Rightarrow> sysdb res) \<Rightarrow> (string \<Rightarrow> int res) \<Rightarrow> call_env \<Rightarrow> cert_env \<Rightarrow> string \<Rightarrow> string \<Rightarrow>
     string option \<Rightarrow> string \<Rightarrow> os \<Rightarrow> process res" where
  "start_command v open_db parse c ct env tmp rnd cfgPath s =
     (case Load v cfgPath of
        Inl e \<Rightarrow> Inl e
      | Inr cfg \<Rightarrow>
          case New_listening c ct env tmp (open_db (system_db_path cfg)) rnd cfg s of
            Inl e \<Rightarrow> Inl e
          | Inr (addr, tls, sv) \<Rightarrow> Inr (Start cfg (parse (cf_backup_schedule cfg)) (engine_of cfg) sv))"

text \<open>What \<open>Execute\<close> writes to standard error, and the exit code, for the outcome of a command.\<close>

definition Execute :: "unit res \<Rightarrow> string \<times> int" where
  "Execute r = (case r of Inl e \<Rightarrow> (print_line (''error: '' @ err_text e), 1) | Inr _ \<Rightarrow> ([], 0))"

section \<open>What a started process begins with\<close>

lemma New_audit:
  assumes "New c env tmp (Inr db) rnd cfg s = Inr sv" and "sysdb_ok db"
  shows "audit_ends (a_db (hd_auth (sv_handler sv))) = audit_ends db"
    and "hd_repl (sv_handler sv) = Some (engine_of cfg)"
proof -
  obtain a where a: "NewAuthenticator (ce_auth c) rnd (server_auth_config cfg) db = Inr a"
    using assms(1) by (auto simp: New_def Let_def split: prod.splits sum.splits)
  let ?a1 = "snd (EnsureDefaultAdmin (ce_auth c) (ce_rnd c) (ce_now c) a)"
  let ?init = "InitReplicationState (ce_now c) (cf_role cfg) (cf_primary_url cfg)"
  have steps: "sysdb_steps (a_db a) (a_db ?a1)"
    using NewAuthenticator_wired [OF a] by (intro auth_step_db [OF auth_step.default_admin]) simp
  have "audit_ends (a_db ?a1) = audit_ends (a_db a)"
    using steps by (induction rule: rtranclp_induct) (auto dest: audit_ends_step)
  moreover have "audit_ends (snd (?init db1)) = audit_ends db1" for db1
    using audit_ends_step [OF sysdb_step.init_replication] .
  moreover have "a_db (hd_auth (sv_handler sv)) = snd (?init (a_db ?a1))"
    using assms(1) a by (auto simp: New_def Let_def split: prod.splits sum.splits)
  ultimately show "audit_ends (a_db (hd_auth (sv_handler sv))) = audit_ends db"
    using NewAuthenticator_wired [OF a] by simp
  show "hd_repl (sv_handler sv) = Some (engine_of cfg)"
    using assms(1) a by (auto simp: New_def Let_def engine_of_def split: prod.splits sum.splits)
qed

lemma start_command_starts:
  assumes "start_command v open_db parse c ct env tmp rnd cfgPath s = Inr p" and "Load v cfgPath = Inr cfg"
    and "open_db (system_db_path cfg) = Inr db" and "sysdb_ok db"
  shows "\<exists>sv. p = Start cfg (parse (cf_backup_schedule cfg)) (engine_of cfg) sv \<and> server_ok (ce_auth c) sv \<and>
     audit_ends (a_db (hd_auth (sv_handler sv))) = audit_ends db"
proof -
  obtain sv0 s1 where new: "New c env tmp (Inr db) rnd cfg s = Inr sv0"
    and p: "p = Start cfg (parse (cf_backup_schedule cfg)) (engine_of cfg)
        (sv0\<lparr>sv_handler := (sv_handler sv0)\<lparr>hd_os := s1\<rparr>\<rparr>)"
    using assms(1-3) by (auto simp: start_command_def New_listening_def split: sum.splits prod.splits)
  show ?thesis
    using p New_ok [OF new assms(4)] New_audit(1) [OF new assms(4)]
    by (auto simp: server_ok_def handler_ok_def)
qed

text \<open>The process of a loaded configuration polls exactly when it is a replica.\<close>

lemma engine_polls [simp]: "starts_loop (engine_of cfg) \<longleftrightarrow> cf_role cfg = ''replica''"
  by (simp add: engine_of_def NewEngine_def starts_loop_def)

lemma started_inv:
  assumes "start_command v open_db parse c ct env tmp rnd cfgPath s = Inr p" and "Load v cfgPath = Inr cfg"
    and "open_db (system_db_path cfg) = Inr db" and "sysdb_ok db"
    and "\<not> audit_closed db" and "\<not> audit_done db"
    and "quiet \<longrightarrow> cf_backup_schedule cfg = [] \<and> cf_role cfg \<noteq> ''replica''"
  shows "life_inv quiet (ce_auth c) p" and "undisturbed p"
proof -
  obtain sv where p: "p = Start cfg (parse (cf_backup_schedule cfg)) (engine_of cfg) sv"
    and sv: "server_ok (ce_auth c) sv" "audit_ends (a_db (hd_auth (sv_handler sv))) = audit_ends db"
    using start_command_starts [OF assms(1-4)] by blast
  have fresh: "\<not> audit_closed (a_db (hd_auth (sv_handler sv)))" "\<not> audit_done (a_db (hd_auth (sv_handler sv)))"
    using sv(2) assms(5,6) by (simp_all add: audit_ends_def)
  show "life_inv quiet (ce_auth c) p" unfolding p by (rule Start_inv [OF sv(1) fresh]) (simp add: assms(7))
  show "undisturbed p" unfolding p by (rule Start_undisturbed [OF fresh(1)])
qed

end
