(* ===== verification/AuditSurvival.thy ===== *)
theory AuditSurvival
  imports StartCommand
begin

text \<open>
  What becomes of an audit entry once it is queued: over every run of the process it stays in the
  channel or has its row in the audit table, as long as the statements on the system database
  succeed. The interface of \<open>HandlerOps\<close> is interpreted once more for it.
\<close>

section \<open>Queued or written\<close>

definition written :: "audit_entry \<Rightarrow> sysdb \<Rightarrow> bool" where
  "written ent s \<longleftrightarrow> (\<exists>r\<in>set (t_rows (db_audit s)). row_content r = audit_content ent)"

definition survives :: "audit_entry \<Rightarrow> sysdb \<Rightarrow> bool" where
  "survives ent s \<longleftrightarrow> db_faults s = [] \<and> (ent \<in> set (audit_ch s) \<or> written ent s)"

lemma healthy_step: "sysdb_step s s' \<Longrightarrow> db_faults s = [] \<Longrightarrow> db_faults s' = [] \<and> db_audit s' = db_audit s"
proof (induction rule: sysdb_step.induct)
  case (create_user s now name hash role)
  have get: "snd (GetUser i t) = t" if "db_faults t = []" for i t
    using that snd_read_drop by (auto simp: GetUser_def case_prod_beta read_def stmt_def)
  show ?case
    using create_user get by (auto simp: CreateUser_def insert_user_def stmt_def split: prod.split sum.split)
qed (auto simp: mutator_defs stmt_def)

lemma survives_step: "sysdb_step s s' \<Longrightarrow> survives ent s \<Longrightarrow> survives ent s'"
  using healthy_step [of s s'] audit_ch_step [of s s'] by (simp add: survives_def written_def)

lemma survives_LogAudit: "survives ent s \<Longrightarrow> survives ent (snd (LogAudit u n ip q ep st s))"
  by (auto simp: survives_def written_def LogAudit_def)

interpretation entry: kept_by_ops "\<lambda>h. survives ent (a_db (hd_auth h))" for ent
proof
  fix h h'
  assume op: "handler_op h h'" and h: "survives ent (a_db (hd_auth h))"
  from handler_op_db [OF op] show "survives ent (a_db (hd_auth h'))"
    using survives_step [OF _ h] survives_LogAudit [OF h] h by auto
qed

lemma survives_work:
  assumes "audit_work now s = Some s'" and "ae_flusher ent = None" and "survives ent s"
  shows "survives ent s'"
proof (cases "audit_ch s")
  case Nil
  then show ?thesis using assms by (auto simp: audit_work_def survives_def written_def split: if_splits)
next
  case (Cons x xs)
  show ?thesis
  proof (cases "ae_flusher x")
    case None
    then have "s' = snd (insert_audit now x (s\<lparr>audit_ch := xs\<rparr>))"
      using assms(1) Cons by (simp add: audit_work_def split: if_splits)
    then show ?thesis
      using assms(3) Cons
      by (auto simp: survives_def written_def insert_audit_def row_content_def audit_content_def)
  next
    case (Some n)
    then have "x \<noteq> ent" using assms(2) by auto
    then show ?thesis
      using assms Cons Some by (auto simp: audit_work_def survives_def written_def split: if_splits)
  qed
qed

section \<open>Over a run of the process\<close>

lemma survives_stage:
  assumes "run_stage c late st p = Some (r, p')" and "survives ent (process_db p)"
  shows "survives ent (process_db p')"
  using assms
  by (cases st; auto simp: run_stage_def process_db_def with_dbs_def with_sysdb_def with_auth_def
        case_prod_beta close_audit_def survives_def written_def split: if_splits)

lemma survives_process_step:
  "process_step e p p' \<Longrightarrow> process_ok e p \<Longrightarrow> ae_flusher ent = None \<Longrightarrow> survives ent (process_db p) \<Longrightarrow>
     survives ent (process_db p')"
proof (induction rule: process_step.induct)
  case (request p n c rq b static)
  have "handler_ops (process_handler p) (process_handler (serve_request static c rq b p))"
    using request by (intro request_is_ops) simp_all
  from entry.ops_keep [OF this, of ent] show ?case using request.prems(3) by (simp add: process_db_def)
next
  case (operation p h)
  then show ?case using entry.op_keeps [OF operation.hyps(3), of ent] by (simp add: process_db_def)
next
  case (audit p now db)
  then show ?case using survives_work [OF audit.hyps(2)] by (simp add: audit_effect(2))
next
  case (backup p d now ts keep)
  from entry.ops_keep [OF backup_is_op [OF backup.prems(1), of d now ts keep], of ent]
  show ?case using backup.prems(3) by (simp add: process_db_def)
next
  case (poll p nets rn eng)
  from entry.ops_keep [OF poll_is_ops [OF poll.prems(1), of rn eng nets], of ent]
  show ?case using poll.prems(3) by (simp add: process_db_def)
next
  case (goroutine p xs st sts ys c late x)
  then show ?case using survives_stage [of c late st p "fst x" "snd x" ent]
    by (auto simp: after_stage_cases split: sum.split)
next
  case (main_stage p st sts c late x)
  then show ?case using survives_stage [of c late st p "fst x" "snd x" ent]
    by (auto simp: after_stage_cases split: sum.split)
qed (simp_all add: process_db_def)

lemma survives_run:
  assumes "process_steps e p p'" and "life_inv quiet e p" and "ae_flusher ent = None"
    and "survives ent (process_db p)"
  shows "survives ent (process_db p')"
  using assms(1)
proof (induction rule: rtranclp_induct)
  case (step y z)
  have "life_inv quiet e y" using life_inv_steps [OF step.hyps(1) assms(2)] .
  then show ?case using survives_process_step [OF step.hyps(2) _ assms(3) step.IH] by (simp add: life_inv_def)
qed (use assms in simp)

section \<open>A refused statement is queued\<close>

lemma query_route: "find_route routes ''POST'' [''query''] = Some (RequireAuth, plain HandleQuery, \<lambda>_. [])"
  by (simp add: routes_def method_matches_def)

lemma refused_query_queued:
  assumes "incoming rq" and "rq_method rq = ''POST''" and "path_segs (rq_path rq) = [''query'']"
    and "int (rl_used (ce_now c) (rq_remote rq) (sv_ipLimiter sv)) < rl_limit (sv_ipLimiter sv)"
    and "int (rl_used (ce_now c) (rq_remote rq) (sv_userLimiter sv)) < rl_limit (sv_userLimiter sv)"
    and "AuthenticateRequest (ce_auth c) (ce_now c) (rq_headers rq) (hd_auth (sv_handler sv)) = (Inr u, a)"
    and "b_size b \<le> max_body" and "b_ok b" and "b_str b ''query'' \<noteq> []"
    and "query_guard [] (Some u) (b_str b ''query'') = Some (endpoint, resp)"
    and "\<not> audit_closed (a_db a)" and "length (audit_ch (a_db a)) < audit_cap"
  shows "a_db (hd_auth (sv_handler (snd (pipeline static c rq b sv)))) =
     (a_db a)\<lparr>audit_ch := audit_ch (a_db a) @
       [\<lparr>ae_user = Some (AU_ID u), ae_username = AU_Username u, ae_ip = rq_remote rq,
          ae_query = b_str b ''query'', ae_endpoint = endpoint, ae_status = ''blocked'', ae_flusher = None\<rparr>]\<rparr> \<and>
     sv_stopping (snd (pipeline static c rq b sv)) = sv_stopping sv"
  using assms Allow_iff_used [of "ce_now c" "rq_remote rq" "sv_ipLimiter sv"]
    Allow_iff_used [of "ce_now c" "rq_remote rq" "sv_userLimiter sv"]
  by (simp add: pipeline_def rateLimitMiddleware_def incoming_def Let_def case_prod_beta corsMiddleware_def
      bodyLimitMiddleware_def limit_body_def recoveryMiddleware_def loggingMiddleware_def mux_def query_route
      guarded_def authMiddleware_def on_handler_def plain_def HandleQuery_def log_respond_def logAudit_def
      LogAudit_def with_sysdb_def with_auth_def split: sum.split)

end
