(* ===== verification/Spec2Isabelle.thy ===== *)
theory Spec2Isabelle
  imports AccessProperties StorageProperties ToolProperties AuditSurvival
begin

text \<open>
  SparkDB: an HTTP server around SQLite, written in Go.

  The program. A client logs in or sends a token or an API key, and posts statements. The pipeline
  of \<open>internal/server\<close> limits the rate, adds headers, recovers panics, finds the route and
  authenticates; a handler of \<open>routes.go\<close> checks the role (\<open>internal/rbac\<close>) and the statement
  (\<open>internal/query\<close>), writes the replication log and the audit log of the system database
  (\<open>internal/database/system.go\<close>), and runs the statement through the executor on a database that
  the manager (\<open>sqlite.go\<close>) opens, decrypting and encrypting files where that is configured
  (\<open>internal/encryption\<close>). Backups (\<open>internal/backup\<close>) copy database files, replicas
  (\<open>internal/replication\<close>) poll the log of the primary and run its statements.

  How it is modelled. Structs are records, constants of one kind a datatype, a handler or method is
  a function from its arguments and the state to its result and the new state. A result is
  \<open>gerr + 'a\<close>: \<open>Inl\<close> holds the error as built by \<open>errors.New\<close> and \<open>fmt.Errorf\<close>, and \<open>Panic\<close> marks
  a panic that leaves a function. Times and durations are integers in nanoseconds, \<open>int64\<close> values
  are \<open>int\<close> with their range stated where the code checks it, strings are lists of bytes. Clock
  readings, random bytes, the outcome of each SQL statement on the system database and of each
  system call are inputs: scripts of faults that the state carries (\<open>db_faults\<close>, \<open>os_faults\<close>), so
  that every error path of the code can be taken. What a mutex protects is one step; requests run
  concurrently, and what others see of them are their single operations (\<open>HandlerOps\<close>).

  The theories, in the order of the components:

  \<^item> \<open>Prelude\<close> (errors, results, tables as lists), \<open>GoStrings\<close> (what the code uses of Go's strings,
    fmt and strconv), \<open>Encoding\<close> (hex and base64 as interpretations of one codec interface);
  \<^item> \<open>Rbac\<close>, \<open>QueryValidator\<close>, \<open>RateLimit\<close> (both limiters behind one window interface, the sliding
    window refined against a log of all admitted calls);
  \<^item> \<open>Password\<close>, \<open>Tokens\<close> (API keys, JWT, sessions against the session store interface),
    \<open>SqlTable\<close>, \<open>SystemDb\<close>, \<open>SystemDbInv\<close> (the tables, their invariant, ids never reused),
    \<open>AuditQueue\<close> (the audit channel as a step relation);
  \<^item> \<open>Authenticator\<close>, \<open>AuthenticatorInv\<close>, \<open>AuthSteps\<close>, \<open>Credentials\<close> (logins, keys, sessions over
    the life of an account);
  \<^item> \<open>Files\<close> (files with names and inodes), \<open>Cipher\<close>, \<open>DbManager\<close>, \<open>Monitor\<close>, \<open>Executor\<close>,
    \<open>DatabaseLife\<close>, \<open>Backup\<close>, \<open>BackupRestore\<close>, \<open>Replication\<close>, \<open>ReplicationLink\<close> (the request of a replica, answered by the route and handler of this server);
  \<^item> \<open>Handlers\<close>, \<open>HandlersInv\<close>, \<open>HandlerOps\<close> (every handler is a sequence of operations, and what each
    operation keeps, all keep: a locale), \<open>Config\<close>, \<open>Server\<close>, \<open>ServerInv\<close> (the middlewares, the route
    table, construction, and the invariant of the whole server);
  \<^item> \<open>HandlerFrame\<close> (so is every request: the locale carried through routes and pipeline)
    and \<open>ServerLife\<close> (\<open>Start\<close>, \<open>Shutdown\<close> and the goroutines as a step relation, with its invariant;
    requests interleave, and a shutdown waits for them until its ten seconds have passed),
    \<open>StartCommand\<close> (\<open>sparkdb start\<close>: configuration, server, listener, process),
    \<open>AuditSurvival\<close> (no queued audit entry is lost over a run);
  \<^item> \<open>SchemaMigration\<close> (the tables of the system database and the migrations that make them);
  \<^item> \<open>ToolValues\<close> (JSON values and how Go prints them), \<open>Client\<close> and \<open>ClientServer\<close> (the client library,
    over any network and over this server), \<open>Csv\<close> (\<open>encoding/csv\<close>, with its round trip), \<open>ImportExport\<close>,
    \<open>TableFormat\<close>, \<open>Shell\<close>, \<open>AdminCommands\<close> (the commands of \<open>cmd/sparkdb\<close> and \<open>tls.go\<close>);
  \<^item> \<open>Samples\<close> (concrete inputs for the witnesses), \<open>AccessProperties\<close>, \<open>StorageProperties\<close>, \<open>ToolProperties\<close> and
    this theory (the properties).

  What is a parameter. Code outside the repository has no definition here: the key derivation,
  SHA-256, AES-GCM and the JWT library are the fields of \<open>crypto\<close> and \<open>gcm\<close>, SQLite on user databases
  is an \<open>engine\<close>, Viper, the network and the embedded web files are functions. Where a property
  relies on what they document it names the hypothesis: \<open>kdf_length\<close>, \<open>gcm_opens\<close>, \<open>gcm_ok\<close>,
  \<open>jwt_accepts\<close>, \<open>signs\<close>, \<open>closes_clean\<close>, \<open>opens_unchanged\<close>; the witnesses instantiate them.

  What the properties of whole runs assume. The rules of \<open>server_step\<close> and \<open>process_step\<close> ask that a token
  that validates names a user who was created (\<open>tokens_known\<close>: signatures cannot be forged, and the code
  does not look the user up). The model keeps the system database apart from the files of user
  databases: a statement changes only the database it runs on. In the program the name
  \<open>sparkdb_system.db\<close> reaches the system database, and \<open>ATTACH\<close> any file, which is a defect (see the
  findings); so the runs are those whose requests and replicated statements do neither
  (\<open>spares_body\<close>, \<open>spares_net\<close>), and no other process writes that file. \<open>manager_ok\<close> says that no name
  is registered twice; two spellings of one path are two names.

  Bounds and fuel. Loops over lists are structural recursion. \<open>pollOnce\<close>, which calls itself while
  pages are full, recurses over the list of networks it finds, one per request; the properties on
  it ask for more requests than full pages. \<open>audit_drain\<close> counts rounds of the worker and is shown to
  need one more than entries are queued. A run of the server is any sequence of steps of its goroutines;
  that a shutdown ends is shown by a run that ends, for the steps' order is not fair.

  Not modelled: the JSON text of requests and answers (their decoded values are), URL escapes, log output, the
  listening sockets (that the listener is open, fails or is closed is modelled),
  cancellation by request contexts, the Go runtime figures of the monitor, symbolic links and file
  permissions, the registration of commands and flags with cobra.
\<close>

section \<open>The server\<close>

text \<open>Claim C1.
  Whatever requests, audit work, backups, replication and shutdown happen after the server was
  built, in any order, requests also operation by operation in any interleaving, and with any failing
  statements and system calls: the system database stays well formed (ids unique and growing, user
  names and session tokens unique, keys and sessions of created users only), the authenticator stays
  wired to it, and no name is registered for two open databases. The runs considered are those
  whose tokens name created users (\<open>tokens_known\<close>: signatures are not forged) and whose statements,
  also the replicated ones, neither name the file of the system database, which the code does not
  prevent (see the findings), nor attach a second file (\<open>spares_body\<close>, \<open>spares_net\<close>).\<close>

theorem server_invariant:
  assumes "New c env tmp (Inr db) rnd cfg s = Inr sv" and "sysdb_ok db"
    and "(server_step (ce_auth c))\<^sup>*\<^sup>* sv sv'"
  shows "sysdb_ok (a_db (hd_auth (sv_handler sv'))) \<and> auth_wired (ce_auth c) (hd_auth (sv_handler sv')) \<and>
    manager_ok (ex_manager (hd_executor (sv_handler sv')))"
  using server_reach_ok [OF assms(3) New_ok [OF assms(1,2)]]
  by (simp add: server_ok_def handler_ok_def auth_ok_def)

theorem server_invariant_witness:
  "sysdb_ok (a_db (hd_auth (sv_handler (snd (pipeline (\<lambda>_. None) (sample_call\<lparr>ce_now := 24 * hour\<rparr>)
     (sample_request\<lparr>rq_user := None\<rparr>) (query_body ''SELECT 1'')
     (projr (New sample_call [] [] (Inr empty_sysdb) None sample_config empty_os)))))))"
proof -
  let ?c = "sample_call\<lparr>ce_now := 24 * hour\<rparr>" and ?rq = "sample_request\<lparr>rq_user := None\<rparr>"
  have spares: "spares_body dir (query_body ''SELECT 1'')" for dir
  proof -
    have "no_attach ''SELECT 1''" "no_attach []" by code_simp+
    then show ?thesis by (simp add: spares_body_def spares_system_def query_body_def)
  qed
  obtain sv where sv: "New sample_call [] [] (Inr empty_sysdb) None sample_config empty_os = Inr sv"
    using sample_New by blast
  have "tokens_known ?c sv"
    by (simp add: tokens_known_def JWT_Validate_def sample_call_def sample_env_def sample_crypto_def
        sample_claims_def)
  then have "(server_step (ce_auth sample_call))\<^sup>*\<^sup>* sv
      (snd (pipeline (\<lambda>_. None) ?c ?rq (query_body ''SELECT 1'') sv))"
    by (intro r_into_rtranclp server_step.request) (simp_all add: incoming_def spares)
  then show ?thesis
    using server_invariant [OF sv sysdb_ok_empty] by (simp add: sv)
qed

text \<open>Claim C2.
  A query that its guard lets pass runs exactly once on the database named (main by default), with
  the parameters given; a statement that is not a read is first appended to the replication log;
  the answer carries the executor's outcome, and exactly one audit entry with the user, the address
  and the query records it.\<close>

theorem query_runs_and_is_recorded:
  assumes "b_ok b" and "b_str b ''query'' \<noteq> []"
    and "query_guard [] (rq_user rq) (b_str b ''query'') = None"
    and "\<not> audit_closed (a_db (hd_auth h))" and "db_faults (a_db (hd_auth h)) = []"
    and "length (audit_ch (a_db (hd_auth h))) < audit_cap"
    and "HandleQuery c rq b h = (r, h')"
    and "ExecuteContext (ce_db c) (ce_now c) (ce_dur c) (db_name (b_str b ''database''))
           (b_str b ''query'') (b_params b) (hd_executor h) (hd_os h) = (res, ex', s')"
  shows "hd_executor h' = ex' \<and> hd_os h' = s' \<and>
    r = Inr (case res of Inl e \<Rightarrow> write_error 500 (err_text e) | Inr x \<Rightarrow> writeJSON 200 (QueryResponse x)) \<and>
    audit_ch (a_db (hd_auth h')) = audit_ch (a_db (hd_auth h)) @
      [case res of
         Inl e \<Rightarrow> audit_entry_of (rq_user rq) rq (b_str b ''query'') ''query_error'' ''failed''
       | Inr x \<Rightarrow> audit_entry_of (rq_user rq) rq (b_str b ''query'') ''/query'' ''success''] \<and>
    t_rows (db_repl (a_db (hd_auth h'))) = t_rows (db_repl (a_db (hd_auth h))) @
      (if hd_repl h \<noteq> None \<and> IsWriteQuery (b_str b ''query'')
       then [\<lparr>re_id = t_seq (db_repl (a_db (hd_auth h))) + 1, re_database = db_name (b_str b ''database''),
              re_query = b_str b ''query'', re_executed = ce_now c\<rparr>] else [])"
  using HandleQuery_runs [OF assms(1-7)] by (simp add: assms(8))

theorem query_runs_and_is_recorded_witness:
  "t_rows (db_repl (a_db (hd_auth (snd
     (HandleQuery sample_call sample_request (query_body ''INSERT x'') sample_handler))))) =
   [\<lparr>re_id = 1, re_database = ''main'', re_query = ''INSERT x'', re_executed = 0\<rparr>]"
proof -
  let ?b = "query_body ''INSERT x''"
  obtain r h' where run: "HandleQuery sample_call sample_request ?b sample_handler = (r, h')"
    by fastforce
  obtain res ex' s' where ex: "ExecuteContext (ce_db sample_call) (ce_now sample_call) (ce_dur sample_call)
      (db_name (b_str ?b ''database'')) (b_str ?b ''query'') (b_params ?b)
      (hd_executor sample_handler) (hd_os sample_handler) = (res, ex', s')"
    by (metis prod_cases3)
  have "query_guard [] (Some dev_user) ''INSERT x'' = None" and w: "IsWriteQuery ''INSERT x''"
    by code_simp+
  then have prems: "b_ok ?b" "b_str ?b ''query'' \<noteq> []"
    "query_guard [] (rq_user sample_request) (b_str ?b ''query'') = None"
    "\<not> audit_closed (a_db (hd_auth sample_handler))" "db_faults (a_db (hd_auth sample_handler)) = []"
    "length (audit_ch (a_db (hd_auth sample_handler))) < audit_cap"
    by (simp_all add: audit_cap_def)
  show ?thesis
    unfolding run snd_conv using query_runs_and_is_recorded [OF prems run ex] w
    by (simp add: db_name_def sample_handler_def sample_db_def empty_sysdb_def sample_auth_def
        sample_call_def)
qed

text \<open>Claim C3.
  A query that matches a blocking pattern, or whose type needs a permission the role lacks, never
  reaches the database: no statement runs, no file changes, nothing is logged for the replicas,
  and the answer (when the audit log takes the entry) is 403.\<close>

theorem refused_query_has_no_effect:
  assumes "b_ok b" and "b_str b ''query'' \<noteq> []" and "rq_user rq = Some u"
    and "danger_of (b_str b ''query'') = DangerBlock \<or>
      (\<exists>p. RequiredPermission (IdentifyType (b_str b ''query'')) = Some p \<and> \<not> HasPermission (AU_Role u) p)"
    and "HandleQuery c rq b h = (r, h')"
  shows "hd_executor h' = hd_executor h \<and> hd_os h' = hd_os h \<and>
    db_repl (a_db (hd_auth h')) = db_repl (a_db (hd_auth h)) \<and> (\<forall>x. r = Inr x \<longrightarrow> forbidden r)"
proof -
  have "query_guard [] (rq_user rq) (b_str b ''query'') \<noteq> None"
    unfolding assms(3) query_guard_Some_iff using assms(4) .
  then show ?thesis using HandleQuery_blocked [OF assms(1,2) _ assms(5)] by blast
qed

theorem refused_query_has_no_effect_witness:
  "hd_os (snd (HandleQuery sample_call sample_request (query_body ''DROP TABLE t'') sample_handler)) = empty_os"
proof -
  obtain r h' where run: "HandleQuery sample_call sample_request (query_body ''DROP TABLE t'') sample_handler = (r, h')"
    by fastforce
  have "danger_of ''DROP TABLE t'' = DangerBlock" by code_simp
  then show ?thesis using refused_query_has_no_effect [OF _ _ _ _ run] by (simp add: run)
qed

text \<open>Claim C4.
  A transaction with one statement that the guard refuses runs none of its statements, opens no
  transaction and logs nothing for the replicas, wherever in the list that statement stands.\<close>

theorem refused_transaction_has_no_effect:
  assumes "b_ok b" and "b_list b ''queries'' \<noteq> []" and "rq_user rq = Some u"
    and "q \<in> set (statements_of (b_list b ''queries''))"
    and "danger_of q = DangerBlock \<or>
      (\<exists>p. RequiredPermission (IdentifyType q) = Some p \<and> \<not> HasPermission (AU_Role u) p)"
    and "HandleTransaction c rq b h = (r, h')"
  shows "hd_executor h' = hd_executor h \<and> hd_os h' = hd_os h \<and>
    db_repl (a_db (hd_auth h')) = db_repl (a_db (hd_auth h)) \<and> (\<forall>x. r = Inr x \<longrightarrow> forbidden r)"
proof -
  have "query_guard ''_tx'' (rq_user rq) q \<noteq> None"
    unfolding assms(3) query_guard_Some_iff using assms(5) .
  then show ?thesis using HandleTransaction_blocked [OF assms(1,2) _ assms(6)] assms(4) by blast
qed

theorem refused_transaction_has_no_effect_witness:
  "hd_os (snd (HandleTransaction sample_call sample_request
     (tx_body [''INSERT x'', ''  DROP TABLE t '', ''INSERT y'']) sample_handler)) = empty_os"
proof -
  let ?b = "tx_body [''INSERT x'', ''  DROP TABLE t '', ''INSERT y'']"
  obtain r h' where run: "HandleTransaction sample_call sample_request ?b sample_handler = (r, h')"
    by fastforce
  have d: "danger_of ''DROP TABLE t'' = DangerBlock" by code_simp
  have "''DROP TABLE t'' \<in> set (statements_of [''INSERT x'', ''  DROP TABLE t '', ''INSERT y''])"
    by code_simp
  then show ?thesis
    using refused_transaction_has_no_effect [OF _ _ _ _ disjI1 [OF d] run] by (simp add: run)
qed

text \<open>Claim C5.
  What the guard on statements lets pass, exactly: no blocking pattern in the statement, and
  either a statement of no known type, for which no permission is asked, or the permission of its
  type among those of the user's role. A request without a user is only checked for patterns.\<close>

theorem query_guard_result:
  "query_guard sfx user q = None \<longleftrightarrow>
     danger_of q \<noteq> DangerBlock \<and>
     (case user of None \<Rightarrow> True | Some u \<Rightarrow>
        IdentifyType q = TypeOther \<or>
        (\<exists>p. RequiredPermission (IdentifyType q) = Some p \<and> HasPermission (AU_Role u) p))"
proof (cases user)
  case None
  obtain d reason where "CheckDangerous q = (d, reason)" by fastforce
  then show ?thesis
    using CheckDangerous_danger [of q] None
    by (cases d) (auto simp: query_guard_def Let_def split: option.split)
qed (simp add: query_guard_None_iff)

text \<open>Claim C6.
  The administrators' endpoints refuse everybody else: a request without a user, or with a user of
  another role, gets 403 from each of them, and neither the databases, the files, the system
  database nor the audit queue changes.\<close>

theorem admin_endpoints_refuse:
  assumes "f \<in> set admin_handlers" and "\<forall>u. rq_user rq = Some u \<longrightarrow> AU_Role u \<noteq> RoleAdmin"
  shows "(\<exists>msg. fst (f c rq b h) = Inr (write_error 403 msg)) \<and> snd (f c rq b h) = h"
  using admin_handlers_refuse [OF assms] by (simp add: forbidden_def)

theorem admin_endpoints_refuse_witness:
  "snd (HandleBackup sample_call sample_request (query_body []) sample_handler) = sample_handler \<and>
   snd (HandleCreateUser sample_call sample_request (query_body []) sample_handler) = sample_handler"
  using admin_endpoints_refuse [of HandleBackup sample_request sample_call "query_body []" sample_handler]
    admin_endpoints_refuse [of HandleCreateUser sample_request sample_call "query_body []" sample_handler]
  by (simp add: admin_handlers_def RoleAdmin_def)



text \<open>Claim C8.
  The pipeline's rate limit. When the remote address has not used up either limit within the window,
  the request is passed on and both limits have counted it once more in the end, whatever its
  handler did. Otherwise it is answered with 429, no handler runs, the limit per user counts nothing
  and the limit per address counts the request only if that limit itself let it pass. Users do
  not matter, since the limit stands before authentication.\<close>

theorem pipeline_rate_limit:
  assumes "incoming rq" and "0 < rl_window (sv_ipLimiter sv)" and "0 < rl_window (sv_userLimiter sv)"
    and "ip = (\<lambda>sv. rl_used (ce_now c) (rq_remote rq) (sv_ipLimiter sv))"
    and "usr = (\<lambda>sv. rl_used (ce_now c) (rq_remote rq) (sv_userLimiter sv))"
  shows "if int (ip sv) < rl_limit (sv_ipLimiter sv) \<and> int (usr sv) < rl_limit (sv_userLimiter sv)
         then pipeline static c rq b sv = corsMiddleware (sv_origins sv)
             (bodyLimitMiddleware max_body (recoveryMiddleware (loggingMiddleware (mux static)))) c rq b
             (sv\<lparr>sv_ipLimiter := snd (RateLimiter_Allow (ce_now c) (rq_remote rq) (sv_ipLimiter sv)),
                 sv_userLimiter := snd (RateLimiter_Allow (ce_now c) (rq_remote rq) (sv_userLimiter sv))\<rparr>) \<and>
           ip (snd (pipeline static c rq b sv)) = Suc (ip sv) \<and>
           usr (snd (pipeline static c rq b sv)) = Suc (usr sv)
         else fst (pipeline static c rq b sv) = too_many_requests \<and>
           sv_handler (snd (pipeline static c rq b sv)) = sv_handler sv \<and>
           sv_stopping (snd (pipeline static c rq b sv)) = sv_stopping sv \<and>
           ip (snd (pipeline static c rq b sv)) =
             (if int (ip sv) < rl_limit (sv_ipLimiter sv) then Suc (ip sv) else ip sv) \<and>
           usr (snd (pipeline static c rq b sv)) = usr sv"
proof (cases "within_limits c rq sv")
  case True
  have lim: "int (ip sv) < rl_limit (sv_ipLimiter sv)" "int (usr sv) < rl_limit (sv_userLimiter sv)"
    using True by (simp_all add: within_limits_def assms(4,5))
  have "ip (counted_once c rq sv) = Suc (ip sv)" "usr (counted_once c rq sv) = Suc (usr sv)"
    using lim used_after [OF assms(2), of "ce_now c" "rq_remote rq"] used_after [OF assms(3), of "ce_now c" "rq_remote rq"]
    by (simp_all add: counted_once_def assms(4,5))
  moreover have "ip (snd (pipeline static c rq b sv)) = ip (counted_once c rq sv)"
    "usr (snd (pipeline static c rq b sv)) = usr (counted_once c rq sv)"
    using pipeline_limiters [OF assms(1) True, of static b] by (simp_all add: same_limiters_def assms(4,5))
  ultimately show ?thesis
    using lim pipeline_within [OF assms(1) True, of static b] by (simp add: counted_once_def)
next
  case False
  then have "\<not> (int (ip sv) < rl_limit (sv_ipLimiter sv) \<and> int (usr sv) < rl_limit (sv_userLimiter sv))"
    by (simp add: within_limits_def assms(4,5))
  then show ?thesis using pipeline_over [OF assms(1) False assms(2,3), of static b] by (simp add: assms(4,5))
qed

theorem pipeline_rate_limit_witness:
  "fst (pipeline (\<lambda>_. None) sample_call (sample_request\<lparr>rq_user := None\<rparr>) (query_body ''SELECT 1'')
     (sample_server\<lparr>sv_ipLimiter := NewRateLimiter 0 minute\<rparr>)) = too_many_requests \<and>
   rl_used 0 ''10.0.0.1:5000'' (sv_ipLimiter (snd (pipeline (\<lambda>_. None) sample_call
     (sample_request\<lparr>rq_user := None\<rparr>) (query_body ''SELECT 1'') sample_server))) = 1"
proof -
  let ?rq = "sample_request\<lparr>rq_user := None\<rparr>"
  have rq: "incoming ?rq" "rq_remote ?rq = ''10.0.0.1:5000''" "ce_now sample_call = 0"
    by (simp_all add: incoming_def sample_request_def sample_call_def)
  have lim: "rl_used t k (NewRateLimiter n minute) = 0" "rl_limit (NewRateLimiter n minute) = n"
    "0 < rl_window (NewRateLimiter n minute)" for t k n
    by (simp_all add: NewRateLimiter_def rl_used_def rl_entries_def minute_def second_def)
  have sv: "sv_ipLimiter sample_server = NewRateLimiter 100 minute"
    "sv_userLimiter sample_server = NewRateLimiter 60 minute"
    by (simp_all add: sample_server_def)
  note claim = iffD1 [OF if_bool_eq_conj pipeline_rate_limit [OF rq(1) _ _ refl refl,
      where c = sample_call and static = "\<lambda>_. None" and b = "query_body ''SELECT 1''"]]
  have "fst (pipeline (\<lambda>_. None) sample_call ?rq (query_body ''SELECT 1'')
      (sample_server\<lparr>sv_ipLimiter := NewRateLimiter 0 minute\<rparr>)) = too_many_requests"
    by (rule conjunct1 [OF mp [OF conjunct2 [OF claim]]]) (simp_all add: rq sv lim)
  moreover have "rl_used 0 ''10.0.0.1:5000'' (sv_ipLimiter (snd (pipeline (\<lambda>_. None) sample_call ?rq
      (query_body ''SELECT 1'') sample_server))) = Suc (rl_used 0 ''10.0.0.1:5000'' (sv_ipLimiter sample_server))"
    using conjunct1 [OF conjunct2 [OF mp [OF conjunct1 [OF claim]]], of sample_server] by (simp add: rq sv lim)
  ultimately show ?thesis by (simp add: sv lim)
qed

section \<open>The life of the process\<close>

text \<open>Claim C9.
  A server started by \<open>sparkdb start\<close> is stopped by a signal in order and completely, while requests
  are accepted and run concurrently, interrupted at any of their operations. While no shutdown
  request was granted, a signal can always be followed to a regular end of main that has waited for
  every running request, whatever is queued, running and open at that moment. And whenever main ends
  regularly after a signal, whatever the other goroutines did meanwhile, the listener is closed, every
  audit entry that was accepted is handled and the worker has ended; and either a wait for the
  requests has run into its ten seconds, or none is running any more and no database is left open
  (unless there is a backup schedule or the role is replica). The worker is assumed to have started
  with its statement prepared; the runs are those of \<open>process_step\<close>, whose tokens name created users and
  whose statements spare the file of the system database.\<close>

theorem signal_shutdown_completes:
  assumes "start_command v open_db parse c ct env tmp rnd cfgPath s = Inr p0" and "Load v cfgPath = Inr cfg"
    and "open_db (system_db_path cfg) = Inr db" and "sysdb_ok db"
    and "\<not> audit_closed db" and "\<not> audit_done db" and "process_steps (ce_auth c) p0 p"
  shows "(ps_exit p = None \<and> ps_main p = Waiting \<and> ps_api p = [] \<longrightarrow>
      (\<exists>p'. process_steps (ce_auth c) p p' \<and> ps_main p' = Stopping [] \<and> ps_exit p' = Some (Inr ()) \<and>
         \<not> ps_expired p')) \<and>
    (ps_main p \<noteq> Waiting \<and> ps_exit p = Some (Inr ()) \<longrightarrow>
       \<not> ps_listening p \<and> audit_closed (process_db p) \<and> audit_done (process_db p) \<and>
       audit_ch (process_db p) = [] \<and>
       (ps_expired p \<or> ps_running p = 0 \<and>
          (cf_backup_schedule cfg = [] \<and> cf_role cfg \<noteq> ''replica'' \<longrightarrow> open_dbs p = [])))"
proof -
  let ?quiet = "cf_backup_schedule cfg = [] \<and> cf_role cfg \<noteq> ''replica''"
  have "life_inv ?quiet (ce_auth c) p0" by (rule started_inv(1) [OF assms(1-6)]) simp
  moreover have "undisturbed p0" by (rule started_inv(2) [OF assms(1-6), of False]) simp
  ultimately have "life_inv ?quiet (ce_auth c) p \<and> undisturbed p" by (rule life_undisturbed_steps [OF assms(7)])
  then show ?thesis
    using signal_stops [of p "ce_auth c"] stopped_is_done [of ?quiet "ce_auth c" p] by (cases "ps_main p") auto
qed

text \<open>The sample configuration on an empty system database, without TLS.\<close>

definition sample_certs :: cert_env where
  "sample_certs = \<lparr>ct_key = Inr ''key'', ct_serial = Inr ''1'', ct_certificate = (\<lambda>_ _ _ _. Inr ''der''),
     ct_marshal = Inr, ct_load = (\<lambda>cert key. Inr (cert @ key))\<rparr>"

definition sample_start :: "process res" where
  "sample_start = start_command (\<lambda>_ _. Inr sample_config) (\<lambda>_. Inr empty_sysdb) (\<lambda>_. Inl (Err ''no duration''))
     sample_call sample_certs [] [] None [] empty_os"

lemma sample_load: "Load (\<lambda>_ _. Inr sample_config) [] = Inr sample_config"
  by (simp add: Load_def check_config_def clamp_limits_def check_role_def sample_config_def Let_def repl_roles_def)

theorem signal_shutdown_completes_witness:
  "\<exists>p0 p. sample_start = Inr p0 \<and> process_steps sample_env p0 p \<and> ps_exit p = Some (Inr ()) \<and>
     ps_running p = 0 \<and> \<not> ps_listening p \<and> open_dbs p = [] \<and> audit_done (process_db p)"
proof -
  have quiet: "cf_backup_schedule sample_config = []" "cf_role sample_config \<noteq> ''replica''"
    "\<not> cf_tls_enabled sample_config"
    by (simp_all add: sample_config_def)
  have db: "\<not> audit_closed empty_sysdb" "\<not> audit_done empty_sysdb" by (simp_all add: empty_sysdb_def)
  obtain sv where sv: "New sample_call [] [] (Inr empty_sysdb) None sample_config empty_os = Inr sv"
    using sample_New by blast
  obtain p0 where start: "sample_start = Inr p0"
    and p0: "ps_exit p0 = None" "ps_main p0 = Waiting" "ps_api p0 = []"
    using sample_load sv quiet by (simp add: sample_start_def start_command_def New_listening_def listener_tls_def
        Start_def Let_def case_prod_beta)
  have env: "ce_auth sample_call = sample_env" by (simp add: sample_call_def)
  note claim = signal_shutdown_completes [OF start [unfolded sample_start_def] sample_load refl sysdb_ok_empty db, unfolded env]
  obtain p where p: "process_steps sample_env p0 p" "ps_main p = Stopping []" "ps_exit p = Some (Inr ())"
    "\<not> ps_expired p"
    using claim [of p0] p0 by blast
  show ?thesis using claim [OF p(1)] p quiet(1,2) start by auto
qed

text \<open>Claim C10.
  Nothing that was queued for the audit log is lost by a server that a signal stops: an entry that is
  in the channel at any moment of a run has its row in the audit table when main has ended, whatever
  requests (any number at a time, also those that outlive the ten seconds a shutdown waits for them),
  backups and replication do in between, if the statements on the system database succeed from that
  moment on. The runs are those of \<open>process_step\<close>: tokens name created users, and statements spare the
  file of the system database, in which they could delete the row (see the findings).\<close>

theorem audit_entry_survives_shutdown:
  assumes "start_command v open_db parse c ct env tmp rnd cfgPath s = Inr p0" and "Load v cfgPath = Inr cfg"
    and "open_db (system_db_path cfg) = Inr db" and "sysdb_ok db"
    and "\<not> audit_closed db" and "\<not> audit_done db" and "process_steps (ce_auth c) p0 p"
    and "ent \<in> set (audit_ch (process_db p))" and "ae_flusher ent = None"
    and "db_faults (process_db p) = []" and "process_steps (ce_auth c) p p'"
    and "ps_main p' \<noteq> Waiting" and "ps_exit p' = Some (Inr ())"
  shows "\<exists>r\<in>set (t_rows (db_audit (process_db p'))). row_content r = audit_content ent"
proof -
  have inv: "life_inv False (ce_auth c) p"
    by (rule life_inv_steps [OF assms(7) started_inv(1) [OF assms(1-6)]]) simp
  have "survives ent (process_db p')"
    using survives_run [OF assms(11) inv assms(9)] assms(8,10) by (simp add: survives_def)
  moreover obtain left where "ps_main p' = Stopping left" using assms(12) by (cases "ps_main p'") auto
  ultimately show ?thesis
    using stopped_is_done [OF life_inv_steps [OF assms(11) inv] _ assms(13)]
    by (auto simp: survives_def written_def)
qed

text \<open>A token holder whose statement is refused: it is on record after the stop.\<close>

theorem audit_entry_survives_shutdown_witness:
  "\<exists>p0 p. sample_start = Inr p0 \<and> process_steps sample_env p0 p \<and> ps_exit p = Some (Inr ()) \<and>
     (\<exists>r\<in>set (t_rows (db_audit (process_db p))). al_user r = Some 1 \<and> al_query r = ''DROP TABLE t'' \<and>
        al_status r = ''blocked'')"
proof -
  let ?rq = "sample_request\<lparr>rq_user := None, rq_headers := (\<lambda>_. [])(''Authorization'' := ''Bearer h.c.s'')\<rparr>"
  let ?u = "\<lparr>AU_ID = 1, AU_Username = ''alice'', AU_Role = ''developer'', AU_AuthType = AuthTypeJWT\<rparr>"
  have empty: "audit_ch empty_sysdb = []" "t_seq (db_users empty_sysdb) = 0" "\<not> audit_closed empty_sysdb"
    "\<not> audit_done empty_sysdb"
    by (simp_all add: empty_sysdb_def)
  obtain sv where sv: "New sample_call [] [] (Inr empty_sysdb) None sample_config empty_os = Inr sv"
    and lim: "sv_ipLimiter sv = NewRateLimiter 100 minute" "sv_userLimiter sv = NewRateLimiter 60 minute"
    and jwt: "jm_secret (a_jwt (hd_auth (sv_handler sv))) = ''secret''"
    and db: "audit_ch (a_db (hd_auth (sv_handler sv))) = []" "db_faults (a_db (hd_auth (sv_handler sv))) = []"
      "t_seq (db_users (a_db (hd_auth (sv_handler sv)))) = 1"
      "\<not> audit_closed (a_db (hd_auth (sv_handler sv)))"
    by (simp add: New_def new_cipher_def sample_config_def NewAuthenticator_def server_auth_config_def
      NewJWTManager_def EnsureDefaultAdmin_def HashPassword_Some CreateUser_healthy
      sample_call_def InitReplicationState_def Let_def minute_def second_def empty tbl_insert_def)
  have parts: "split_n2 CHR '' '' ''Bearer h.c.s'' = [''Bearer'', ''h.c.s'']" "0 < hour"
    "lower_byte CHR ''B'' = CHR ''b''" "lower_byte CHR ''e'' = CHR ''e''"
    "lower_byte CHR ''a'' = CHR ''a''" "lower_byte CHR ''r'' = CHR ''r''"
    by code_simp+
  have auth: "AuthenticateRequest sample_env 0 (rq_headers ?rq) (hd_auth (sv_handler sv)) = (Inr ?u, hd_auth (sv_handler sv))"
    using jwt by (simp add: AuthenticateRequest_def parts authenticateJWT_def JWT_Validate_def jwt_keyfunc_def
        sample_crypto_def sample_secret_def sample_claims_def)
  have known: "tokens_known sample_call sv"
    using db(3) by (simp add: tokens_known_def JWT_Validate_def sample_call_def sample_crypto_def sample_claims_def)
  have quiet: "cf_role sample_config \<noteq> ''replica''" "\<not> cf_tls_enabled sample_config"
    by (simp_all add: sample_config_def)
  define p0 where "p0 = Start sample_config (Inl (Err ''no duration'')) (engine_of sample_config) sv"
  have start: "sample_start = Inr p0"
    using sample_load sv quiet by (simp add: sample_start_def start_command_def New_listening_def listener_tls_def p0_def)
  have p0: "ps_exit p0 = None" "ps_main p0 = Waiting" "ps_api p0 = []" "ps_listening p0" "ps_server p0 = sv"
    using quiet(1) by (simp_all add: p0_def Start_def Let_def case_prod_beta)
  define p1 where "p1 = serve_request (\<lambda>_. None) sample_call ?rq (query_body ''DROP TABLE t'') p0"
  have env: "ce_auth sample_call = sample_env" "ce_now sample_call = 0" by (simp_all add: sample_call_def)
  have rq: "incoming ?rq" "rq_method ?rq = ''POST''" "rq_path ?rq = ''/query''" "rq_remote ?rq = ''10.0.0.1:5000''"
    by (simp_all add: incoming_def sample_request_def)
  have segs: "path_segs ''/query'' = [''query'']" by code_simp
  have "query_guard [] (Some ?u) ''DROP TABLE t'' \<noteq> None" by code_simp
  then obtain endpoint resp where guard: "query_guard [] (Some ?u) ''DROP TABLE t'' = Some (endpoint, resp)" by auto
  let ?q0 = "p0\<lparr>ps_running := Suc (ps_running p0)\<rparr>"
  have spares: "spares_body dir (query_body ''DROP TABLE t'')" for dir
  proof -
    have "no_attach ''DROP TABLE t''" "no_attach []" by code_simp+
    then show ?thesis by (simp add: spares_body_def spares_system_def query_body_def)
  qed
  have q1: "(serve_request (\<lambda>_. None) sample_call ?rq (query_body ''DROP TABLE t'') ?q0)\<lparr>ps_running := ps_running p0\<rparr> = p1"
    by (simp add: p1_def serve_request_def Let_def)
  have "process_step sample_env ?q0 p1"
    using process_step.request [of ?q0 "ps_running p0" sample_call sample_env ?rq "query_body ''DROP TABLE t''" "\<lambda>_. None"]
    unfolding q1 by (simp add: p0 env known rq spares)
  then have step: "process_steps sample_env p0 p1"
    using converse_rtranclp_into_rtranclp [of "process_step sample_env", OF process_step.accept]
      r_into_rtranclp [of "process_step sample_env"] p0 by blast
  let ?ent = "\<lparr>ae_user = Some 1, ae_username = ''alice'', ae_ip = ''10.0.0.1:5000'', ae_query = ''DROP TABLE t'',
      ae_endpoint = endpoint, ae_status = ''blocked'', ae_flusher = None\<rparr>"
  let ?sv = "sv\<lparr>sv_stopping := False\<rparr>"
  have served: "a_db (hd_auth (sv_handler (snd (pipeline (\<lambda>_. None) sample_call ?rq (query_body ''DROP TABLE t'') ?sv)))) =
      (a_db (hd_auth (sv_handler sv)))\<lparr>audit_ch := [?ent]\<rparr> \<and>
      \<not> sv_stopping (snd (pipeline (\<lambda>_. None) sample_call ?rq (query_body ''DROP TABLE t'') ?sv))"
    using refused_query_queued [of ?rq sample_call ?sv ?u "hd_auth (sv_handler sv)" "query_body ''DROP TABLE t''"
        endpoint resp "\<lambda>_. None"] auth guard db
    by (simp add: rq segs env lim NewRateLimiter_def rl_used_def rl_entries_def query_body_def max_body_def audit_cap_def)
  have p1: "process_db p1 = (a_db (hd_auth (sv_handler sv)))\<lparr>audit_ch := [?ent]\<rparr>" "ps_api p1 = []"
    "ps_main p1 = Waiting" "ps_exit p1 = None" "ps_stopSched p1 = ps_stopSched p0" "ps_stopCh p1 = ps_stopCh p0"
    "ps_expired p1 = ps_expired p0"
    using served p0 by (simp_all add: p1_def serve_request_def Let_def process_db_def)
  have "undisturbed p1"
    using p1 p0(3) db(4) Start_undisturbed [OF db(4), of sample_config "Inl (Err ''no duration'')" "engine_of sample_config"] p0(2)
    by (simp add: undisturbed_def p0_def [symmetric])
  then obtain p where p: "process_steps sample_env p1 p" "ps_main p = Stopping []" "ps_exit p = Some (Inr ())"
    using signal_stops [of p1 sample_env] p1 by blast
  have "\<exists>r\<in>set (t_rows (db_audit (process_db p))). row_content r = audit_content ?ent"
    using audit_entry_survives_shutdown [OF start [unfolded sample_start_def] sample_load refl sysdb_ok_empty empty(3,4),
        unfolded env, OF step, of ?ent p] p p1(1) db(2) by simp
  moreover have "process_steps sample_env p0 p"
    using rtranclp_trans [OF step p(1)] .
  ultimately show ?thesis using start p(3) by (auto simp: row_content_def audit_content_def)
qed

text \<open>Claim C11.
  A shutdown by request can end the process before its work is done: as soon as the listener of an
  accepted \<open>POST /shutdown\<close> is closed, main may return while the goroutine of the request has closed
  no database and written no audit entry. Then the process ends without an error, with the same
  databases open and the same entries queued as before the request.\<close>

theorem api_shutdown_can_lose_work:
  assumes "process_ok (ce_auth c) p" and "ps_exit p = None" and "ps_main p = Waiting" and "ps_listening p"
    and "ps_errCh p = None" and "tokens_known c (ps_server p)" and "incoming rq"
    and "rq_method rq = ''POST''" and "path_segs (rq_path rq) = [''shutdown'']"
    and "int (rl_used (ce_now c) (rq_remote rq) (sv_ipLimiter (ps_server p))) < rl_limit (sv_ipLimiter (ps_server p))"
    and "int (rl_used (ce_now c) (rq_remote rq) (sv_userLimiter (ps_server p))) < rl_limit (sv_userLimiter (ps_server p))"
    and "AuthenticateRequest (ce_auth c) (ce_now c) (rq_headers rq) (hd_auth (sv_handler (ps_server p))) = (Inr u, a)"
    and "HasPermission (AU_Role u) PermCreateUser"
  shows "\<exists>p'. process_steps (ce_auth c) p p' \<and> ps_exit p' = Some (Inr ()) \<and> open_dbs p' = open_dbs p \<and>
     audit_ch (process_db p') = audit_ch (process_db p) \<and> audit_closed (process_db p') = audit_closed (process_db p)"
proof -
  fix static :: "string \<Rightarrow> string option"
  define b where "b = \<lparr>b_ok = True, b_str = (\<lambda>_. []), b_list = (\<lambda>_. []), b_params = [], b_size = 0\<rparr>"
  have "no_attach []" by code_simp
  then have spares: "spares_body dir b" for dir by (simp add: b_def spares_body_def spares_system_def)
  let ?p1 = "serve_request static c rq b p"
  have granted: "sv_stopping (ps_server ?p1) \<and> sv_handler (ps_server ?p1) = (sv_handler (ps_server p))\<lparr>hd_auth := a\<rparr>"
    using shutdown_granted [of rq c "(ps_server p)\<lparr>sv_stopping := False\<rparr>" u a static b] assms(7-13)
    by (simp add: serve_request_def Let_def)
  then obtain p' where p': "process_steps (ce_auth c) p p'" "ps_exit p' = Some (Inr ())" "ps_server p' = ps_server ?p1"
    using shutdown_request_exits [OF assms(2-5) refl assms(6,7) spares] by blast
  have a: "a = snd (AuthenticateRequest (ce_auth c) (ce_now c) (rq_headers rq) (hd_auth (sv_handler (ps_server p))))"
    using assms(12) by simp
  have "process_db p' = a_db a \<and> open_dbs p' = open_dbs p"
    using p'(3) granted by (simp add: process_db_def open_dbs_def)
  moreover have "audit_ch (a_db a) = audit_ch (process_db p) \<and> audit_closed (a_db a) = audit_closed (process_db p)"
    using authenticate_channel [OF assms(1)] unfolding a by (simp add: process_db_def)
  ultimately show ?thesis using p' by auto
qed

theorem api_shutdown_can_lose_work_witness:
  "\<exists>p p' ent. ps_exit p = None \<and> ps_errCh p = None \<and> audit_ch (process_db p) = [ent] \<and>
     process_steps sample_env p p' \<and> ps_exit p' = Some (Inr ()) \<and> audit_ch (process_db p') = [ent]"
proof -
  let ?ent = "\<lparr>ae_user = Some 2, ae_username = ''root'', ae_ip = [], ae_query = ''DELETE'', ae_endpoint = [],
      ae_status = [], ae_flusher = None\<rparr>"
  let ?sv = "logging_server\<lparr>sv_handler := (sv_handler logging_server)\<lparr>hd_auth :=
      logging_auth\<lparr>a_db := (a_db logging_auth)\<lparr>audit_ch := [?ent]\<rparr>\<rparr>\<rparr>\<rparr>"
  let ?p = "Start sample_config (Inl (Err ''no duration'')) (NewEngine ''primary'' [] [] 5) ?sv"
  let ?rq = "sample_request\<lparr>rq_path := ''/shutdown'', rq_user := None,
      rq_headers := (\<lambda>_. [])(''X-API-Key'' := ''vl_'' @ hex_encode ''key'')\<rparr>"
  let ?u = "auth_user AuthTypeAPIKey (scan_user root_user)"
  have auth: "AuthenticateRequest sample_env 0 (rq_headers ?rq) (hd_auth (sv_handler ?sv)) =
      (Inr ?u, hd_auth (sv_handler ?sv))"
    by (simp add: logging_server_def logging_auth_def GenerateAPIKey_healthy LogReplication_def
        AuthenticateRequest_def authenticateAPIKey_def FindUserByAPIKey_def key_matches_def
        new_key_row_def auth_user_def scan_user_def account_locked_def APIKey_Hash_def query_row_def
        join_keys_def wrap_err_def Let_def root_user_def alice_def sample_request_def)
  have p: "ps_exit ?p = None" "ps_main ?p = Waiting" "ps_listening ?p" "ps_errCh ?p = None" "ps_server ?p = ?sv"
    by (simp_all add: Start_def Let_def case_prod_beta NewEngine_def starts_loop_def)
  have segs: "path_segs ''/shutdown'' = [''shutdown'']" by code_simp
  have tok: "tokens_known sample_call ?sv"
    by (simp add: tokens_known_def JWT_Validate_def sample_call_def sample_env_def sample_crypto_def
        sample_claims_def logging_auth_def GenerateAPIKey_healthy LogReplication_def sample_db_def)
  have "sysdb_ok (a_db (hd_auth (sv_handler ?sv)))"
    using logging_server_ok by (simp add: sysdb_ok_def logging_server_def)
  then have "server_ok sample_env ?sv"
    by (simp add: server_ok_def handler_ok_def auth_ok_def logging_server_def logging_auth_def
        GenerateAPIKey_healthy LogReplication_def auth_wired_def NewExecutor_def
        sample_wired [unfolded auth_wired_def])
  moreover have db: "process_db ?p = (a_db logging_auth)\<lparr>audit_ch := [?ent]\<rparr>"
    unfolding process_db_def p(5) by simp
  moreover have "worker_ok ((a_db logging_auth)\<lparr>audit_ch := [?ent]\<rparr>)"
    by (simp add: worker_ok_def logging_auth_def GenerateAPIKey_healthy LogReplication_def sample_db_def
        empty_sysdb_def)
  ultimately have ok: "process_ok (ce_auth sample_call) ?p"
    unfolding process_ok_def p(5) db by (simp add: sample_call_def)
  have lim: "int (rl_used 0 ''10.0.0.1:5000'' (sv_ipLimiter ?sv)) < rl_limit (sv_ipLimiter ?sv)"
    "int (rl_used 0 ''10.0.0.1:5000'' (sv_userLimiter ?sv)) < rl_limit (sv_userLimiter ?sv)"
    by (simp_all add: logging_server_def sample_server_def NewRateLimiter_def rl_used_def rl_entries_def)
  have rq: "incoming ?rq" "rq_method ?rq = ''POST''" "path_segs (rq_path ?rq) = [''shutdown'']"
    "rq_remote ?rq = ''10.0.0.1:5000''"
    using segs by (simp_all add: incoming_def sample_request_def)
  have admin: "HasPermission (AU_Role ?u) PermCreateUser"
    by (simp add: auth_user_def scan_user_def root_user_def HasPermission_def rolePermissions_def role_defs)
  have env: "ce_auth sample_call = sample_env" "ce_now sample_call = 0" by (simp_all add: sample_call_def)
  have queue: "audit_ch (process_db ?p) = [?ent]" unfolding db by simp
  obtain p' where "process_steps sample_env ?p p'" "ps_exit p' = Some (Inr ())" "audit_ch (process_db p') = [?ent]"
    using api_shutdown_can_lose_work [of sample_call ?p ?rq ?u, unfolded p(5) rq(4) env, OF ok [unfolded env] p(1-4)
        tok rq(1-3) lim auth admin] queue by auto
  then show ?thesis using p(1,4) queue by blast
qed
end
